(* ===== verification/Prelude.thy ===== *)
theory Prelude
  imports Main "HOL-Library.Word"
begin

unbundle bit_operations_syntax

text \<open>
  The vocabulary the components share: the errors a C++ operation can end in, the result
  monad over them, the \<open>char\<close> type of the target (x86-64 Linux, where a plain \<open>char\<close> is a
  signed byte), and the facts about bytes and shifts that the codecs need.
\<close>

section \<open>Errors and results\<close>

text \<open>
  \<open>OutOfBounds\<close> is a read outside an array or a buffer, \<open>EmptyPop\<close> a \<open>pop_back\<close> on an
  empty string, \<open>NullDeref\<close> a call through a null pointer, \<open>DivByZero\<close> a zero divisor
  and \<open>SignedOverflow\<close> a signed result that does not fit its type
  (all undefined behaviour in C++, kept apart from the exceptions), \<open>SelfDeadlock\<close> a
  second lock of a non-recursive mutex by its owner.  The others are the exceptions
  \<open>std::length_error\<close>, \<open>std::logic_error\<close>, \<open>std::invalid_argument\<close> and \<open>std::runtime_error\<close>.
\<close>

datatype cpp_error =
    OutOfBounds
  | EmptyPop
  | NullDeref
  | DivByZero
  | SignedOverflow
  | SelfDeadlock
  | LengthError
  | LogicError string
  | InvalidArgument string
  | RuntimeError string

type_synonym 'a result = "cpp_error + 'a"

named_theorems res_simps \<open>unfolding the result monad\<close>
named_theorems byte_simps \<open>reading and writing bytes\<close>

definition res_bind :: "'e + 'a \<Rightarrow> ('a \<Rightarrow> 'e + 'b) \<Rightarrow> 'e + 'b" where
  "res_bind m f = (case m of Inl e \<Rightarrow> Inl e | Inr x \<Rightarrow> f x)"

definition res_map :: "('a \<Rightarrow> 'b) \<Rightarrow> 'e + 'a \<Rightarrow> 'e + 'b" where
  "res_map f m = (case m of Inl e \<Rightarrow> Inl e | Inr x \<Rightarrow> Inr (f x))"

lemma res_bind_simps [simp, res_simps]:
  "res_bind (Inl e) f = Inl e"
  "res_bind (Inr x) f = f x"
  by (simp_all add: res_bind_def)

lemma res_map_simps [simp, res_simps]:
  "res_map g (Inl e) = Inl e"
  "res_map g (Inr x) = Inr (g x)"
  by (simp_all add: res_map_def)

lemma res_bind_eq_Inr: "res_bind m f = Inr y \<longleftrightarrow> (\<exists>x. m = Inr x \<and> f x = Inr y)"
  by (cases m) auto

lemma res_bind_eq_Inl:
  "res_bind m f = Inl e \<longleftrightarrow> m = Inl e \<or> (\<exists>x. m = Inr x \<and> f x = Inl e)"
  by (cases m) auto

lemma res_map_eq_Inr: "res_map f m = Inr y \<longleftrightarrow> (\<exists>x. m = Inr x \<and> y = f x)"
  by (cases m) auto

lemma res_map_eq_Inl: "res_map f m = Inl e \<longleftrightarrow> m = Inl e"
  by (cases m) auto

lemmas res_eq_iffs = res_bind_eq_Inr res_bind_eq_Inl res_map_eq_Inr res_map_eq_Inl

definition ok :: "'e + 'a \<Rightarrow> bool" where
  "ok m = (case m of Inl _ \<Rightarrow> False | Inr _ \<Rightarrow> True)"

lemma ok_simps [simp]: "\<not> ok (Inl e)" "ok (Inr x)"
  by (simp_all add: ok_def)

lemma ok_res_bind: "ok m \<Longrightarrow> (\<And>x. m = Inr x \<Longrightarrow> ok (f x)) \<Longrightarrow> ok (res_bind m f)"
  by (cases m) auto

lemma ok_res_map [simp]: "ok (res_map f m) = ok m"
  by (cases m) auto

text \<open>An array access \<open>a[i]\<close> with its bounds made explicit.\<close>

definition array_at :: "'a list \<Rightarrow> int \<Rightarrow> 'a result" where
  "array_at a i = (if 0 \<le> i \<and> i < int (length a) then Inr (a ! nat i) else Inl OutOfBounds)"

lemma array_at_in [simp]: "i < length a \<Longrightarrow> array_at a (int i) = Inr (a ! i)"
  by (simp add: array_at_def)

lemma array_at_neg [simp]: "i < 0 \<Longrightarrow> array_at a i = Inl OutOfBounds"
  by (simp add: array_at_def)


section \<open>Bytes\<close>

type_synonym u8 = "8 word"
type_synonym u32 = "32 word"
type_synonym u64 = "64 word"

text \<open>The value of an \<open>unsigned char\<close>, and of a plain \<open>char\<close> promoted to \<open>int\<close>.\<close>

definition uchar :: "char \<Rightarrow> nat" where
  "uchar c = of_char c"

definition schar :: "char \<Rightarrow> int" where
  "schar c = (if uchar c < 128 then int (uchar c) else int (uchar c) - 256)"

text \<open>\<open>static_cast<char>\<close> of an \<open>int\<close>: the low eight bits.\<close>

definition to_char :: "int \<Rightarrow> char" where
  "to_char n = char_of (nat (n mod 256))"

definition ascii :: "string \<Rightarrow> bool" where
  "ascii s \<longleftrightarrow> (\<forall>c \<in> set s. uchar c < 128)"

lemma uchar_less [simp]: "uchar c < 256"
  by (simp add: uchar_def)

lemma uchar_inject: "uchar c = uchar d \<longleftrightarrow> c = d"
  by (simp add: uchar_def)

lemma char_of_uchar [simp]: "char_of (uchar c) = c"
  by (simp add: uchar_def)

lemma uchar_char_of [simp]: "uchar (char_of n) = n mod 256"
  by (simp add: uchar_def)

lemma schar_ascii [byte_simps]: "uchar c < 128 \<Longrightarrow> schar c = int (uchar c)"
  by (simp add: schar_def)

lemma schar_neg_iff: "schar c < 0 \<longleftrightarrow> 128 \<le> uchar c"
  using uchar_less [of c] by (auto simp: schar_def simp del: uchar_less)

lemma schar_range: "- 128 \<le> schar c \<and> schar c < 128"
  using uchar_less [of c] by (auto simp: schar_def simp del: uchar_less)

lemma schar_mod [byte_simps]: "schar c mod 256 = int (uchar c)"
proof (cases "uchar c < 128")
  case True
  then show ?thesis by (simp add: schar_def)
next
  case False
  have "(int (uchar c) - 256) mod 256 = int (uchar c) mod 256"
    by (metis minus_mod_self2)
  with False show ?thesis by (simp add: schar_def)
qed

lemma to_char_schar [simp]: "to_char (schar c) = c"
  by (simp add: to_char_def schar_mod)

lemma to_char_uchar [simp]: "to_char (int (uchar c)) = c"
  by (simp add: to_char_def nat_mod_distrib)

lemma uchar_to_char: "int (uchar (to_char n)) = n mod 256"
  by (simp add: to_char_def)

lemma to_char_nat: "to_char (int n) = char_of n"
  by (simp add: to_char_def nat_mod_distrib char_of_mod_256 flip: of_nat_mod)

lemma to_char_nat_uchar: "n mod 256 = uchar c \<Longrightarrow> to_char (int n) = c"
  by (metis to_char_nat char_of_mod_256 char_of_uchar)

lemma to_char_mod: "to_char (n mod 256) = to_char n"
  by (simp add: to_char_def)

lemma ascii_simps [simp]:
  "ascii []"
  "ascii (c # s) \<longleftrightarrow> uchar c < 128 \<and> ascii s"
  "ascii (s @ t) \<longleftrightarrow> ascii s \<and> ascii t"
  by (auto simp: ascii_def)


section \<open>Shifts and disjoint bit fields\<close>

lemma or_disjoint:
  fixes a b :: int
  assumes "0 \<le> b" and "b < 2 ^ n"
  shows "push_bit n a OR b = a * 2 ^ n + b"
proof -
  have "take_bit n b = b"
    using assms by (simp add: take_bit_int_eq_self)
  then have "\<not> bit (push_bit n a) k \<or> \<not> bit b k" for k
    by (metis bit_push_bit_iff bit_take_bit_iff linorder_not_le)
  then have "push_bit n a OR b = push_bit n a + b"
    by (subst disjunctive_add) auto
  then show ?thesis by (simp add: push_bit_eq_mult)
qed

lemma or_disjoint_nat:
  fixes a b :: nat
  assumes "b < 2 ^ n"
  shows "push_bit n a OR b = a * 2 ^ n + b"
proof -
  have "take_bit n b = b"
    using assms by (simp add: take_bit_nat_eq_self)
  then have "\<not> bit (push_bit n a) k \<or> \<not> bit b k" for k
    by (metis bit_push_bit_iff bit_take_bit_iff linorder_not_le)
  then have "push_bit n a OR b = push_bit n a + b"
    by (subst disjunctive_add) auto
  then show ?thesis by (simp add: push_bit_eq_mult)
qed


section \<open>Lists\<close>

text \<open>Splitting a list after the longest prefix that satisfies a predicate.\<close>

lemma takeWhile_append_stop:
  assumes "\<forall>x \<in> set xs. P x" and "\<not> P y"
  shows "takeWhile P (xs @ y # ys) = xs" and "dropWhile P (xs @ y # ys) = y # ys"
  using assms by (induction xs) auto

lemma sum_list_replicate_0 [simp]: "sum_list (replicate n (0::nat)) = 0"
  by simp


section \<open>Codecs\<close>

text \<open>
  The contract of an encoder and its decoder: on the inputs the encoder is meant for it
  does not fail, and the decoder takes its output back.
\<close>

locale codec =
  fixes enc :: "'a \<Rightarrow> 'e + 'b"
    and dec :: "'b \<Rightarrow> 'e + 'a"
    and valid :: "'a \<Rightarrow> bool"
  assumes enc_ok: "valid x \<Longrightarrow> \<exists>y. enc x = Inr y"
    and dec_enc: "valid x \<Longrightarrow> enc x = Inr y \<Longrightarrow> dec y = Inr x"
begin

lemma roundtrip: "valid x \<Longrightarrow> res_bind (enc x) dec = Inr x"
  using enc_ok dec_enc by fastforce

lemma enc_inj: "valid x \<Longrightarrow> valid y \<Longrightarrow> enc x = enc y \<Longrightarrow> x = y"
  using enc_ok dec_enc by (metis sum.inject(2))

end

text \<open>Two codecs, one after the other.\<close>

locale codec_pair =
  outer: codec enc1 dec1 valid1 + inner: codec enc2 dec2 valid2
  for enc1 :: "'b \<Rightarrow> 'e + 'c" and dec1 valid1
    and enc2 :: "'a \<Rightarrow> 'e + 'b" and dec2 valid2 +
  assumes inner_valid: "valid2 x \<Longrightarrow> enc2 x = Inr y \<Longrightarrow> valid1 y"
begin

lemma pair_roundtrip:
  assumes "valid2 x"
  shows "res_bind (res_bind (res_bind (enc2 x) enc1) dec1) dec2 = Inr x"
proof -
  obtain y where y: "enc2 x = Inr y" using assms inner.enc_ok by blast
  obtain z where z: "enc1 y = Inr z" using inner_valid [OF assms y] outer.enc_ok by blast
  show ?thesis
    using y z outer.dec_enc [OF inner_valid [OF assms y] z] inner.dec_enc [OF assms y] by simp
qed

end

section \<open>Key-value stores\<close>

text \<open>
  The contract of a store with one value for each key: reading after a write, and the invariant
  every write keeps.
\<close>

locale kv_store =
  fixes get :: "'s \<Rightarrow> 'k \<Rightarrow> 'v option"
    and put :: "'k \<Rightarrow> 'v \<Rightarrow> 's \<Rightarrow> 's"
    and inv :: "'s \<Rightarrow> bool"
  assumes get_put: "get (put k v s) = (get s)(k \<mapsto> v)"
    and inv_put: "inv s \<Longrightarrow> inv (put k v s)"
begin

lemma get_put_same: "get (put k v s) k = Some v"
  by (simp add: get_put)

lemma get_puts: "get (foldl (\<lambda>s (k, v). put k v s) s kvs) = get s ++ map_of (rev kvs)"
proof (induction kvs arbitrary: s)
  case (Cons kv kvs)
  obtain k v where "kv = (k, v)" by force
  moreover have "(get s)(k \<mapsto> v) ++ map_of (rev kvs) = get s ++ ([k \<mapsto> v] ++ map_of (rev kvs))"
    by (simp only: map_add_assoc map_add_upd map_add_empty)
  ultimately show ?case using Cons by (simp add: get_put map_of_append fun_upd_def)
qed simp

lemma inv_puts: "inv s \<Longrightarrow> inv (foldl (\<lambda>s (k, v). put k v s) s kvs)"
  by (induction kvs arbitrary: s) (auto simp: inv_put split: prod.splits)

end

end
