(* ===== verification/Base64.thy ===== *)
theory Base64
  imports Prelude
begin

text \<open>
  \<^verbatim>\<open>src/util/base64.cpp\<close>: \<open>Base64::Encode\<close> and \<open>Base64::Decode\<close> with their two tables.
  A table is indexed with a plain \<open>char\<close>, which is signed on the target: a byte from 128 on
  indexes in front of the table, which is \<open>OutOfBounds\<close> here.
\<close>

definition Base64EncodeMap :: string where
  "Base64EncodeMap =
     ''ABCDEFGHIJKLMNOP'' @ ''QRSTUVWXYZabcdef'' @ ''ghijklmnopqrstuv'' @ ''wxyz0123456789+/''"

definition Base64DecodeMap :: "nat list" where
  "Base64DecodeMap =
     replicate 16 0xFF @
     replicate 16 0xFF @
     replicate 11 0xFF @ [0x3E, 0xFF, 0xFF, 0xFF, 0x3F] @
     [0x34, 0x35, 0x36, 0x37, 0x38, 0x39, 0x3A, 0x3B, 0x3C, 0x3D, 0xFF, 0xFF, 0xFF, 0x00, 0xFF, 0xFF] @
     [0xFF, 0x00, 0x01, 0x02, 0x03, 0x04, 0x05, 0x06, 0x07, 0x08, 0x09, 0x0A, 0x0B, 0x0C, 0x0D, 0x0E] @
     [0x0F, 0x10, 0x11, 0x12, 0x13, 0x14, 0x15, 0x16, 0x17, 0x18, 0x19, 0xFF, 0xFF, 0xFF, 0xFF, 0xFF] @
     [0xFF, 0x1A, 0x1B, 0x1C, 0x1D, 0x1E, 0x1F, 0x20, 0x21, 0x22, 0x23, 0x24, 0x25, 0x26, 0x27, 0x28] @
     [0x29, 0x2A, 0x2B, 0x2C, 0x2D, 0x2E, 0x2F, 0x30, 0x31, 0x32, 0x33, 0xFF, 0xFF, 0xFF, 0xFF, 0xFF] @
     replicate 128 0xFF"

text \<open>
  The loop of \<open>Encode\<close> takes three characters at a time; its two early exits are the last
  round with one or two characters left.
\<close>

fun Base64_Encode :: "string \<Rightarrow> string result" where
  "Base64_Encode [] = Inr []"
| "Base64_Encode [c0] =
     res_bind (array_at Base64EncodeMap (drop_bit 2 (schar c0))) (\<lambda>o0.
     res_bind (array_at Base64EncodeMap (push_bit 4 (schar c0 AND 0x3))) (\<lambda>o1.
     Inr [o0, o1, CHR ''='', CHR ''='']))"
| "Base64_Encode [c0, c1] =
     res_bind (array_at Base64EncodeMap (drop_bit 2 (schar c0))) (\<lambda>o0.
     res_bind (array_at Base64EncodeMap
                 (push_bit 4 (schar c0 AND 0x3) OR drop_bit 4 (schar c1))) (\<lambda>o1.
     res_bind (array_at Base64EncodeMap (push_bit 2 (schar c1 AND 0xf))) (\<lambda>o2.
     Inr [o0, o1, o2, CHR ''=''])))"
| "Base64_Encode (c0 # c1 # c2 # rest) =
     res_bind (array_at Base64EncodeMap (drop_bit 2 (schar c0))) (\<lambda>o0.
     res_bind (array_at Base64EncodeMap
                 (push_bit 4 (schar c0 AND 0x3) OR drop_bit 4 (schar c1))) (\<lambda>o1.
     res_bind (array_at Base64EncodeMap
                 (push_bit 2 (schar c1 AND 0xf) OR drop_bit 6 (schar c2))) (\<lambda>o2.
     res_bind (array_at Base64EncodeMap (schar c2 AND 0x3f)) (\<lambda>o3.
     res_map (\<lambda>out. o0 # o1 # o2 # o3 # out) (Base64_Encode rest)))))"

text \<open>
  \<open>return {}\<close> discards what was decoded so far, \<open>break\<close> keeps it: the first is \<open>None\<close> of the
  loop, the second ends the recursion.
\<close>

fun Base64_Decode_loop :: "string \<Rightarrow> string option result" where
  "Base64_Decode_loop (i0 # i1 # i2 # i3 # rest) =
     res_bind (array_at Base64DecodeMap (schar i0)) (\<lambda>ch_0.
     res_bind (array_at Base64DecodeMap (schar i1)) (\<lambda>ch_1.
     res_bind (array_at Base64DecodeMap (schar i2)) (\<lambda>ch_2.
     res_bind (array_at Base64DecodeMap (schar i3)) (\<lambda>ch_3.
     if ch_0 = 0xFF \<or> ch_1 = 0xFF then Inr None else
     let o0 = to_char (int (push_bit 2 ch_0 OR drop_bit 4 ch_1)) in
     if i2 = CHR ''='' then Inr (Some [o0]) else
     if ch_2 = 0xFF then Inr None else
     let o1 = to_char (int (push_bit 4 ch_1 OR drop_bit 2 ch_2)) in
     if i3 = CHR ''='' then Inr (Some [o0, o1]) else
     if ch_3 = 0xFF then Inr None else
     let o2 = to_char (int (push_bit 6 ch_2 OR ch_3)) in
     res_map (map_option (\<lambda>out. o0 # o1 # o2 # out)) (Base64_Decode_loop rest)))))"
| "Base64_Decode_loop _ = Inr (Some [])"

definition Base64_Decode :: "string \<Rightarrow> string result" where
  "Base64_Decode input =
     (if length input mod 4 \<noteq> 0 then Inr []
      else res_map (\<lambda>r. case r of None \<Rightarrow> [] | Some out \<Rightarrow> out) (Base64_Decode_loop input))"

section \<open>The tables\<close>

lemma length_Base64EncodeMap [simp]: "length Base64EncodeMap = 64"
  by (simp add: Base64EncodeMap_def)

lemma length_Base64DecodeMap [simp]: "length Base64DecodeMap = 256"
  by (simp add: Base64DecodeMap_def)

lemma Base64_tables_inverse_map:
  "map (\<lambda>c. Base64DecodeMap ! uchar c) Base64EncodeMap = [0..<64]"
  by (simp add: Base64EncodeMap_def Base64DecodeMap_def uchar_def upt_conv_Cons nth_append)

lemma Base64EncodeMap_chars:
  "list_all (\<lambda>c. uchar c < 128 \<and> c \<noteq> CHR ''='') Base64EncodeMap"
  by (simp add: Base64EncodeMap_def uchar_def)

lemma Base64EncodeMap_nth [simp]:
  assumes "n < 64"
  shows "uchar (Base64EncodeMap ! n) < 128" "Base64EncodeMap ! n \<noteq> CHR ''=''"
    "array_at Base64DecodeMap (schar (Base64EncodeMap ! n)) = Inr n"
proof -
  show *: "uchar (Base64EncodeMap ! n) < 128" "Base64EncodeMap ! n \<noteq> CHR ''=''"
    using Base64EncodeMap_chars assms by (auto simp: list_all_length)
  have "Base64DecodeMap ! uchar (Base64EncodeMap ! n) = n"
    using Base64_tables_inverse_map assms by (auto simp: list_eq_iff_nth_eq)
  with * show "array_at Base64DecodeMap (schar (Base64EncodeMap ! n)) = Inr n"
    by (simp add: schar_ascii array_at_def)
qed

lemma Base64_decode_pad [simp]: "array_at Base64DecodeMap (schar (CHR ''='')) = Inr 0"
  by (simp add: Base64DecodeMap_def array_at_def schar_def uchar_def nth_append)

section \<open>Encoding as arithmetic\<close>

text \<open>The four six-bit fields of three bytes.\<close>

definition sx0 :: "nat \<Rightarrow> nat" where "sx0 a = a div 4"
definition sx1 :: "nat \<Rightarrow> nat \<Rightarrow> nat" where "sx1 a b = a mod 4 * 16 + b div 16"
definition sx2 :: "nat \<Rightarrow> nat \<Rightarrow> nat" where "sx2 b c = b mod 16 * 4 + c div 64"
definition sx3 :: "nat \<Rightarrow> nat" where "sx3 c = c mod 64"

lemmas sx_defs = sx0_def sx1_def sx2_def sx3_def

lemma sx_bounds [simp]:
  "a < 256 \<Longrightarrow> sx0 a < 64" "b < 256 \<Longrightarrow> sx1 a b < 64" "c < 256 \<Longrightarrow> sx2 b c < 64" "sx3 c < 64"
proof -
  have m: "a mod 4 < 4" "b mod 16 < 16" by simp_all
  show "sx0 a < 64" if "a < 256" using that by (simp add: sx0_def)
  show "sx1 a b < 64" if "b < 256"
  proof -
    have "b div 16 < 16" using that by (simp add: less_mult_imp_div_less)
    with m show ?thesis unfolding sx1_def by linarith
  qed
  show "sx2 b c < 64" if "c < 256"
  proof -
    have "c div 64 < 4" using that by (simp add: less_mult_imp_div_less)
    with m show ?thesis unfolding sx2_def by linarith
  qed
  show "sx3 c < 64" by (simp add: sx3_def)
qed

lemma uchar_less_256: "uchar c < 128 \<Longrightarrow> uchar c < 256"
  by simp

lemma and_mask_uchar:
  assumes "uchar c < 128"
  shows "schar c AND 3 = int (uchar c mod 4)" "schar c AND 15 = int (uchar c mod 16)"
    "schar c AND 63 = int (uchar c mod 64)"
  using assms take_bit_eq_mask [of 2 "int (uchar c)"] take_bit_eq_mask [of 4 "int (uchar c)"]
    take_bit_eq_mask [of 6 "int (uchar c)"]
  by (simp_all add: schar_ascii mask_eq_exp_minus_1 take_bit_eq_mod zmod_int)

lemma sextets:
  assumes "uchar c0 < 128"
  shows "drop_bit 2 (schar c0) = int (sx0 (uchar c0))"
    "push_bit 4 (schar c0 AND 3) = int (sx1 (uchar c0) 0)"
    "push_bit 2 (schar c0 AND 15) = int (sx2 (uchar c0) 0)"
    "schar c0 AND 63 = int (sx3 (uchar c0))"
  unfolding sx_defs and_mask_uchar [OF assms]
  using assms by (simp_all add: schar_ascii drop_bit_eq_div push_bit_eq_mult zdiv_int)

lemma sextets_or:
  assumes "uchar d < 128"
  shows "int (sx1 a 0) OR drop_bit 4 (schar d) = int (sx1 a (uchar d))"
    "int (sx2 a 0) OR drop_bit 6 (schar d) = int (sx2 a (uchar d))"
proof -
  have b: "int (uchar d div 16) < 2 ^ 4" "int (uchar d div 64) < 2 ^ 2"
    using assms by (simp_all add: less_mult_imp_div_less)
  show "int (sx1 a 0) OR drop_bit 4 (schar d) = int (sx1 a (uchar d))"
    using or_disjoint [OF _ b(1), of "int (a mod 4)"] assms
    by (simp add: sx1_def schar_ascii drop_bit_eq_div push_bit_eq_mult zdiv_int)
  show "int (sx2 a 0) OR drop_bit 6 (schar d) = int (sx2 a (uchar d))"
    using or_disjoint [OF _ b(2), of "int (a mod 16)"] assms
    by (simp add: sx2_def schar_ascii drop_bit_eq_div push_bit_eq_mult zdiv_int)
qed

text \<open>What \<open>Encode\<close> computes on bytes below 128.\<close>

lemma Base64_Encode_ascii:
  "uchar c0 < 128 \<Longrightarrow> Base64_Encode [c0] =
     Inr [Base64EncodeMap ! sx0 (uchar c0), Base64EncodeMap ! sx1 (uchar c0) 0, CHR ''='', CHR ''='']"
  "uchar c0 < 128 \<Longrightarrow> uchar c1 < 128 \<Longrightarrow> Base64_Encode [c0, c1] =
     Inr [Base64EncodeMap ! sx0 (uchar c0), Base64EncodeMap ! sx1 (uchar c0) (uchar c1),
          Base64EncodeMap ! sx2 (uchar c1) 0, CHR ''='']"
  "uchar c0 < 128 \<Longrightarrow> uchar c1 < 128 \<Longrightarrow> uchar c2 < 128 \<Longrightarrow> Base64_Encode (c0 # c1 # c2 # rest) =
     res_map (\<lambda>out. Base64EncodeMap ! sx0 (uchar c0) # Base64EncodeMap ! sx1 (uchar c0) (uchar c1)
       # Base64EncodeMap ! sx2 (uchar c1) (uchar c2) # Base64EncodeMap ! sx3 (uchar c2) # out)
       (Base64_Encode rest)"
  by (simp_all add: sextets sextets_or del: push_bit_and)

text \<open>A byte from 128 on makes one of the indices negative.\<close>

lemma Base64_Encode_fails:
  "\<not> ascii s \<Longrightarrow> Base64_Encode s = Inl OutOfBounds"
proof (induction s rule: Base64_Encode.induct)
  case (2 c0)
  then show ?case by (simp add: schar_neg_iff)
next
  case (3 c0 c1)
  then show ?case
    by (cases "uchar c0 < 128") (auto simp: schar_neg_iff sextets simp del: push_bit_and)
next
  case (4 c0 c1 c2 rest)
  consider "\<not> uchar c0 < 128" | "uchar c0 < 128" "\<not> uchar c1 < 128"
    | "uchar c0 < 128" "uchar c1 < 128" "\<not> uchar c2 < 128"
    | "uchar c0 < 128" "uchar c1 < 128" "uchar c2 < 128" "\<not> ascii rest"
    using 4 by fastforce
  then show ?case
  proof cases
    case 4
    then have "Base64_Encode rest = Inl OutOfBounds"
      using "4.IH" by simp
    with 4 show ?thesis by (simp only: Base64_Encode_ascii) simp
  qed (simp_all add: schar_neg_iff sextets sextets_or del: push_bit_and)
qed simp

lemma Base64_Encode_ok_iff: "ok (Base64_Encode s) \<longleftrightarrow> ascii s"
proof (cases "ascii s")
  case True
  then have "\<exists>t. Base64_Encode s = Inr t"
    by (induction s rule: Base64_Encode.induct)
      (auto simp: Base64_Encode_ascii simp del: Base64_Encode.simps(2-))
  with True show ?thesis by auto
qed (simp add: Base64_Encode_fails)

section \<open>The reference encoding of RFC 4648\<close>

text \<open>
  Three bytes are one 24-bit number, written as four digits of base 64; a last group of one
  or two bytes is filled with zero bits and its missing digits are the padding.
\<close>

definition b64_digit :: "nat \<Rightarrow> nat \<Rightarrow> char" where
  "b64_digit n k = Base64EncodeMap ! (n div 64 ^ k mod 64)"

fun rfc4648 :: "nat list \<Rightarrow> string" where
  "rfc4648 [] = []"
| "rfc4648 [a] = (let n = a * 2 ^ 16 in [b64_digit n 3, b64_digit n 2, CHR ''='', CHR ''=''])"
| "rfc4648 [a, b] =
     (let n = a * 2 ^ 16 + b * 2 ^ 8 in [b64_digit n 3, b64_digit n 2, b64_digit n (Suc 0), CHR ''=''])"
| "rfc4648 (a # b # c # rest) =
     (let n = a * 2 ^ 16 + b * 2 ^ 8 + c
      in [b64_digit n 3, b64_digit n 2, b64_digit n (Suc 0), b64_digit n 0] @ rfc4648 rest)"

lemma four_digits:
  assumes "x < 64" "y < 64" "z < 64" "w < (64::nat)" and n: "n = ((x * 64 + y) * 64 + z) * 64 + w"
  shows "n div 262144 mod 64 = x" "n div 4096 mod 64 = y" "n div 64 mod 64 = z" "n mod 64 = w"
proof -
  have 1: "n div 64 = (x * 64 + y) * 64 + z" using assms by simp
  have "n div 4096 = n div 64 div 64" by (simp add: div_mult2_eq)
  then have 2: "n div 4096 = x * 64 + y" using 1 assms by simp
  have "n div 262144 = n div 4096 div 64" by (simp add: div_mult2_eq)
  then have 3: "n div 262144 = x" using 2 assms by simp
  show "n div 262144 mod 64 = x" "n div 4096 mod 64 = y" "n div 64 mod 64 = z" "n mod 64 = w"
    unfolding 1 2 3 unfolding n mod_mult_self3 using assms by simp_all
qed

lemma regroup_sextets:
  "(4 * a1 + a0) * 65536 + (16 * b1 + b0) * 256 + (64 * c1 + c0)
    = ((a1 * 64 + (a0 * 16 + b1)) * 64 + (b0 * 4 + c1)) * 64 + (c0 :: nat)"
  by simp

lemma b64_digits:
  assumes "a < 256" "b < 256" "c < 256"
  shows "b64_digit (a * 65536 + b * 256 + c) 3 = Base64EncodeMap ! sx0 a"
    "b64_digit (a * 65536 + b * 256 + c) 2 = Base64EncodeMap ! sx1 a b"
    "b64_digit (a * 65536 + b * 256 + c) (Suc 0) = Base64EncodeMap ! sx2 b c"
    "b64_digit (a * 65536 + b * 256 + c) 0 = Base64EncodeMap ! sx3 c"
proof -
  have eq: "a * 65536 + b * 256 + c = ((sx0 a * 64 + sx1 a b) * 64 + sx2 b c) * 64 + sx3 c"
    unfolding sx_defs by (metis regroup_sextets mult_div_mod_eq)
  from four_digits [OF _ _ _ _ eq] assms
  show "b64_digit (a * 65536 + b * 256 + c) 3 = Base64EncodeMap ! sx0 a"
    "b64_digit (a * 65536 + b * 256 + c) 2 = Base64EncodeMap ! sx1 a b"
    "b64_digit (a * 65536 + b * 256 + c) (Suc 0) = Base64EncodeMap ! sx2 b c"
    "b64_digit (a * 65536 + b * 256 + c) 0 = Base64EncodeMap ! sx3 c"
    by (simp_all add: b64_digit_def)
qed

lemmas b64_digits_pad = b64_digits [where b = 0 and c = 0, simplified]
  b64_digits [where c = 0, simplified]

lemma Base64_Encode_rfc4648: "ascii s \<Longrightarrow> Base64_Encode s = Inr (rfc4648 (map uchar s))"
proof (induction s rule: Base64_Encode.induct)
  case (4 c0 c1 c2 rest)
  then have "Base64_Encode rest = Inr (rfc4648 (map uchar rest))"
    by simp
  with 4 show ?case
    by (simp add: Base64_Encode_ascii b64_digits Let_def del: Base64_Encode.simps)
qed (simp_all add: Base64_Encode_ascii b64_digits_pad Let_def del: Base64_Encode.simps(2-))

lemma length_rfc4648: "length (rfc4648 bs) = 4 * ((length bs + 2) div 3)"
proof (induction bs rule: rfc4648.induct)
  case (4 a b c rest)
  have "(5 + length rest) div 3 = Suc ((2 + length rest) div 3)" by simp
  with 4 show ?case by (simp add: Let_def)
qed (simp_all add: Let_def)

section \<open>Decoding\<close>

lemma decode_sextets:
  "b < 256 \<Longrightarrow> push_bit 2 (sx0 a) OR drop_bit 4 (sx1 a b) = a"
  "b < 256 \<Longrightarrow> c < 256 \<Longrightarrow> (push_bit 4 (sx1 a b) OR drop_bit 2 (sx2 b c)) mod 256 = b"
  "c < 256 \<Longrightarrow> (push_bit 6 (sx2 b c) OR sx3 c) mod 256 = c"
proof -
  have b: "16 * (b div 16) + b mod 16 = b" "64 * (c div 64) + c mod 64 = c" by simp_all
  have d1: "drop_bit 4 (sx1 a b) = a mod 4" if "b < 256"
    using that by (simp add: sx_defs drop_bit_eq_div less_mult_imp_div_less)
  have d2: "drop_bit 2 (sx2 b c) = b mod 16" if "c < 256"
    using that by (simp add: sx_defs drop_bit_eq_div less_mult_imp_div_less)
  show "push_bit 2 (sx0 a) OR drop_bit 4 (sx1 a b) = a" if "b < 256"
    unfolding d1 [OF that] by (subst or_disjoint_nat) (simp_all add: sx0_def)
  show "(push_bit 4 (sx1 a b) OR drop_bit 2 (sx2 b c)) mod 256 = b" if "b < 256" "c < 256"
  proof -
    have "push_bit 4 (sx1 a b) OR drop_bit 2 (sx2 b c) = (a mod 4) * 256 + b"
      unfolding d2 [OF that(2)] using b(1)
      by (subst or_disjoint_nat) (simp_all add: sx1_def algebra_simps)
    with that show ?thesis by simp
  qed
  show "(push_bit 6 (sx2 b c) OR sx3 c) mod 256 = c" if "c < 256"
  proof -
    have "push_bit 6 (sx2 b c) OR sx3 c = (b mod 16) * 256 + c"
      using b(2) by (subst or_disjoint_nat) (simp_all add: sx2_def sx3_def algebra_simps)
    with that show ?thesis by simp
  qed
qed

lemma decode_chars:
  "b < 256 \<Longrightarrow> to_char (int (push_bit 2 (sx0 (uchar x)) OR drop_bit 4 (sx1 (uchar x) b))) = x"
  "c < 256 \<Longrightarrow> to_char (int (push_bit 4 (sx1 a (uchar x)) OR drop_bit 2 (sx2 (uchar x) c))) = x"
  "to_char (int (push_bit 6 (sx2 b (uchar x)) OR sx3 (uchar x))) = x"
  by (simp_all add: to_char_nat_uchar decode_sextets)

lemma less_64_neq_255: "n < 64 \<Longrightarrow> n \<noteq> (255::nat)"
  by simp

lemmas decode_simps = decode_chars less_64_neq_255 Let_def

text \<open>The padding stands for zero bits: the missing byte of a last group is \<open>0\<close> in \<open>decode_chars\<close>.\<close>

lemma Base64_Decode_loop_Encode:
  "ascii s \<Longrightarrow> Base64_Encode s = Inr t \<Longrightarrow> Base64_Decode_loop t = Inr (Some s)"
proof (induction s arbitrary: t rule: Base64_Encode.induct)
  case (2 c0)
  then show ?case
    by (auto simp: Base64_Encode_ascii decode_simps simp del: Base64_Encode.simps)
next
  case (3 c0 c1)
  then show ?case
    by (auto simp: Base64_Encode_ascii decode_simps simp del: Base64_Encode.simps)
next
  case (4 c0 c1 c2 rest)
  then show ?case
    by (auto simp: Base64_Encode_ascii decode_simps res_map_eq_Inr simp del: Base64_Encode.simps)
qed simp

lemma Base64_Encode_length:
  "Base64_Encode s = Inr t \<Longrightarrow> length t = 4 * ((length s + 2) div 3)"
  using Base64_Encode_rfc4648 [of s] Base64_Encode_fails [of s]
  by (cases "ascii s") (auto simp: length_rfc4648)

lemma Base64_Decode_Encode:
  assumes "ascii s" and "Base64_Encode s = Inr t"
  shows "Base64_Decode t = Inr s"
  using Base64_Decode_loop_Encode [OF assms] Base64_Encode_length [OF assms(2)]
  by (simp add: Base64_Decode_def)

interpretation base64: codec Base64_Encode Base64_Decode ascii
  by unfold_locales (use Base64_Encode_rfc4648 Base64_Decode_Encode in auto)

text \<open>Decoding fails only on a byte from 128 on; on other input it always returns.\<close>

lemma array_at_DecodeMap: "uchar c < 128 \<Longrightarrow> ok (array_at Base64DecodeMap (schar c))"
  by (simp add: schar_ascii array_at_def)

lemma Base64_Decode_loop_ok: "ascii s \<Longrightarrow> ok (Base64_Decode_loop s)"
  by (induction s rule: Base64_Decode_loop.induct)
    (auto intro!: ok_res_bind array_at_DecodeMap simp: Let_def)

lemma Base64_Decode_ok: "ascii s \<Longrightarrow> ok (Base64_Decode s)"
  by (simp add: Base64_Decode_def Base64_Decode_loop_ok)

lemma Base64_Decode_loop_Some:
  "Base64_Decode_loop (i0 # i1 # i2 # i3 # rest) = Inr (Some t) \<Longrightarrow>
    length t \<le> 2 \<or> (\<exists>x. Base64_Decode_loop rest = Inr (Some x) \<and> length t = 3 + length x)"
  by (auto simp: res_bind_eq_Inr res_map_eq_Inr Let_def map_option_case split: if_splits option.splits)

lemma Base64_Decode_loop_length:
  "Base64_Decode_loop s = Inr (Some t) \<Longrightarrow> 4 * length t \<le> 3 * length s"
proof (induction s arbitrary: t rule: length_induct)
  case (1 s)
  show ?case
  proof (cases s rule: Base64_Decode_loop.cases)
    case (1 i0 i1 i2 i3 rest)
    with "1.prems" Base64_Decode_loop_Some [of i0 i1 i2 i3 rest t] "1.IH"
    show ?thesis by fastforce
  qed (use "1.prems" in simp_all)
qed

section \<open>Properties\<close>


text \<open>C20: \<open>Base64::Decode\<close> takes back what \<open>Base64::Encode\<close> made of a string of bytes below 128.\<close>

theorem base64_roundtrip: "ascii s \<Longrightarrow> res_bind (Base64_Encode s) Base64_Decode = Inr s"
  by (rule base64.roundtrip)

theorem base64_roundtrip_witness:
  "res_bind (Base64_Encode ''user|2023-03-25'') Base64_Decode = Inr ''user|2023-03-25''"
  by (rule base64_roundtrip) (simp add: uchar_def)

text \<open>
  \<open>Base64::Decode\<close> returns on every string of bytes below 128, valid or not, and its result
  is at most three quarters of the input.
\<close>

lemma base64_decode_total:
  assumes "ascii s"
  shows "\<exists>t. Base64_Decode s = Inr t \<and> 4 * length t \<le> 3 * length s"
proof -
  obtain r where "Base64_Decode_loop s = Inr r"
    using Base64_Decode_loop_ok [OF assms] by (cases "Base64_Decode_loop s") auto
  then show ?thesis
    using Base64_Decode_loop_length [of s] by (cases r) (auto simp: Base64_Decode_def)
qed

lemma base64_decode_total_witness:
  "\<exists>t. Base64_Decode ''not*base64!!'' = Inr t \<and> 4 * length t \<le> 3 * length ''not*base64!!''"
  by (rule base64_decode_total) (simp add: uchar_def)

text \<open>
  \<open>Base64::Decode\<close> stops at the first padding: whatever follows a padded group is ignored,
  so a token with anything appended to its padding decodes to the same payload.
\<close>

lemma base64_decode_ignores_tail:
  assumes "uchar c < 128" and "length rest mod 4 = 0"
  shows "res_bind (Base64_Encode [c]) (\<lambda>t. Base64_Decode (t @ rest)) = Inr [c]"
  using assms by (simp add: Base64_Encode_ascii Base64_Decode_def decode_simps del: Base64_Encode.simps)

lemma base64_decode_ignores_tail_witness:
  "res_bind (Base64_Encode ''A'') (\<lambda>t. Base64_Decode (t @ ''####'')) = Inr ''A''"
  by (rule base64_decode_ignores_tail) (simp_all add: uchar_def)

end
