(* ===== verification/MD5.thy ===== *)
theory MD5
  imports Prelude
begin

text \<open>
  \<^verbatim>\<open>src/util/md5.cpp\<close> and \<^verbatim>\<open>src/include/util/md5.h\<close>: the class \<open>MD5\<close>.  An \<open>unsigned int\<close> is a
  32-bit word.  The object's fields are a record that \<open>IterateFunc\<close> and \<open>Padding\<close> thread
  through; the loops run over lists of indices.  The development assumes messages shorter
  than \<open>2 ^ 32\<close> bytes, the range of the loop counter of \<open>Padding\<close>.
\<close>

section \<open>The class\<close>

record md5_state =
  temp_a :: u32
  temp_b :: u32
  temp_c :: u32
  temp_d :: u32
  str_length :: u32

definition MD5_F :: "u32 \<Rightarrow> u32 \<Rightarrow> u32 \<Rightarrow> u32" where
  "MD5_F b c d = (b AND c) OR (NOT b AND d)"

definition MD5_G :: "u32 \<Rightarrow> u32 \<Rightarrow> u32 \<Rightarrow> u32" where
  "MD5_G b c d = (b AND d) OR (c AND NOT d)"

definition MD5_H :: "u32 \<Rightarrow> u32 \<Rightarrow> u32 \<Rightarrow> u32" where
  "MD5_H b c d = b XOR c XOR d"

definition MD5_I :: "u32 \<Rightarrow> u32 \<Rightarrow> u32 \<Rightarrow> u32" where
  "MD5_I b c d = c XOR (b OR NOT d)"

definition MD5_shift :: "u32 \<Rightarrow> nat \<Rightarrow> u32" where
  "MD5_shift a n = push_bit n a OR drop_bit (32 - n) a"

definition MD5_A :: u32 where "MD5_A = 0x67452301"
definition MD5_B :: u32 where "MD5_B = 0xefcdab89"
definition MD5_C :: u32 where "MD5_C = 0x98badcfe"
definition MD5_D :: u32 where "MD5_D = 0x10325476"

definition str16 :: string where
  "str16 = ''0123456789ABCDEF''"

definition MD5_T :: "u32 list" where
  "MD5_T = [
      0xd76aa478, 0xe8c7b756, 0x242070db, 0xc1bdceee,
      0xf57c0faf, 0x4787c62a, 0xa8304613, 0xfd469501,
      0x698098d8, 0x8b44f7af, 0xffff5bb1, 0x895cd7be,
      0x6b901122, 0xfd987193, 0xa679438e, 0x49b40821,
      0xf61e2562, 0xc040b340, 0x265e5a51, 0xe9b6c7aa,
      0xd62f105d, 0x02441453, 0xd8a1e681, 0xe7d3fbc8,
      0x21e1cde6, 0xc33707d6, 0xf4d50d87, 0x455a14ed,
      0xa9e3e905, 0xfcefa3f8, 0x676f02d9, 0x8d2a4c8a,
      0xfffa3942, 0x8771f681, 0x6d9d6122, 0xfde5380c,
      0xa4beea44, 0x4bdecfa9, 0xf6bb4b60, 0xbebfbc70,
      0x289b7ec6, 0xeaa127fa, 0xd4ef3085, 0x04881d05,
      0xd9d4d039, 0xe6db99e5, 0x1fa27cf8, 0xc4ac5665,
      0xf4292244, 0x432aff97, 0xab9423a7, 0xfc93a039,
      0x655b59c3, 0x8f0ccc92, 0xffeff47d, 0x85845dd1,
      0x6fa87e4f, 0xfe2ce6e0, 0xa3014314, 0x4e0811a1,
      0xf7537e82, 0xbd3af235, 0x2ad7d2bb, 0xeb86d391]"

definition MD5_s :: "nat list" where
  "MD5_s = [7, 12, 17, 22, 7, 12, 17, 22, 7, 12, 17, 22, 7, 12, 17, 22,
            5, 9, 14, 20, 5, 9, 14, 20, 5, 9, 14, 20, 5, 9, 14, 20,
            4, 11, 16, 23, 4, 11, 16, 23, 4, 11, 16, 23, 4, 11, 16, 23,
            6, 10, 15, 21, 6, 10, 15, 21, 6, 10, 15, 21, 6, 10, 15, 21]"

text \<open>
  One round \<open>i\<close> of the loop of \<open>IterateFunc\<close>: the mixing function and the index \<open>k\<close> of the
  message word depend on the quarter of the loop.
\<close>

definition MD5_mix :: "nat \<Rightarrow> u32 \<Rightarrow> u32 \<Rightarrow> u32 \<Rightarrow> u32 \<times> nat" where
  "MD5_mix i b c d =
     (if i < 16 then (MD5_F b c d, i)
      else if i < 32 then (MD5_G b c d, (1 + 5 * i) mod 16)
      else if i < 48 then (MD5_H b c d, (5 + 3 * i) mod 16)
      else (MD5_I b c d, (7 * i) mod 16))"

definition MD5_round ::
    "u32 list \<Rightarrow> nat \<Rightarrow> u32 \<times> u32 \<times> u32 \<times> u32 \<Rightarrow> u32 \<times> u32 \<times> u32 \<times> u32" where
  "MD5_round X i = (\<lambda>(a, b, c, d).
     let (g, k) = MD5_mix i b c d
     in (d, b + MD5_shift (a + g + X ! k + MD5_T ! i) (MD5_s ! i), b, c))"

definition MD5_IterateFunc :: "u32 list \<Rightarrow> md5_state \<Rightarrow> md5_state" where
  "MD5_IterateFunc X st =
     (let (a, b, c, d) = fold (MD5_round X) [0..<64] (temp_a st, temp_b st, temp_c st, temp_d st)
      in st\<lparr>temp_a := temp_a st + a, temp_b := temp_b st + b,
             temp_c := temp_c st + c, temp_d := temp_d st + d\<rparr>)"

text \<open>
  \<open>Padding\<close>: the characters are or-ed into the words one by one; \<open>(int) (src[i])\<close> of a byte
  from 128 on is negative, so its sign bits are or-ed in as well.
\<close>

definition MD5_put :: "string \<Rightarrow> nat \<Rightarrow> u32 list \<Rightarrow> u32 list" where
  "MD5_put src i rec =
     rec[drop_bit 2 i := rec ! drop_bit 2 i OR push_bit ((i mod 4) * 8) (word_of_int (schar (src ! i)))]"

definition MD5_Padding :: "string \<Rightarrow> md5_state \<Rightarrow> u32 list \<times> md5_state" where
  "MD5_Padding src st =
     (let n = length src;
          num = of_nat ((n + 8) div 64 + 1) :: u32;
          rec0 = replicate (unat (num * 16)) (0 :: u32);
          rec1 = fold (MD5_put src) [0..<n] rec0;
          rec2 = rec1[drop_bit 2 n := rec1 ! drop_bit 2 n OR push_bit ((n mod 4) * 8) 0x80];
          rec3 = rec2[length rec2 - 2 := of_nat (push_bit 3 n)]
      in (rec3, st\<lparr>str_length := num * 16\<rparr>))"

text \<open>
  \<open>Format\<close> appends the two characters of \<open>tmp\<close> with \<open>res += tmp\<close>, which reads on behind the
  two-element array until a zero byte.  What stands there is not the program's: the
  parameter \<open>stk i\<close> is the bytes between the end of \<open>tmp\<close> and the next zero byte in round \<open>i\<close>.
\<close>

definition MD5_Format :: "(nat \<Rightarrow> string) \<Rightarrow> u32 \<Rightarrow> string" where
  "MD5_Format stk num =
     concat (map (\<lambda>i. let b = unat (drop_bit (i * 8) num mod 256 AND 0xff)
                      in [str16 ! (b div 16 mod 16), str16 ! (b mod 16)] @ stk i) [0..<4])"

definition MD5_blocks :: "u32 list \<Rightarrow> md5_state \<Rightarrow> md5_state" where
  "MD5_blocks rec st =
     fold (\<lambda>i. MD5_IterateFunc (map (\<lambda>j. rec ! (i * 16 + j)) [0..<16]))
       [0..<unat (str_length st div 16)] st"

definition MD5_Encode :: "(nat \<Rightarrow> string) \<Rightarrow> string \<Rightarrow> string" where
  "MD5_Encode stk src =
     (let st0 = \<lparr>temp_a = MD5_A, temp_b = MD5_B, temp_c = MD5_C, temp_d = MD5_D, str_length = 0\<rparr>;
          (rec, st1) = MD5_Padding src st0;
          st = MD5_blocks rec st1
      in MD5_Format stk (temp_a st) @ MD5_Format (\<lambda>i. stk (4 + i)) (temp_b st)
         @ MD5_Format (\<lambda>i. stk (8 + i)) (temp_c st) @ MD5_Format (\<lambda>i. stk (12 + i)) (temp_d st))"

end
