(* ===== verification/MD5_Spec.thy ===== *)
theory MD5_Spec
  imports MD5
begin

text \<open>
  RFC 1321 as a specification, written over bytes and over the four named registers, and
  the proof that the class \<open>MD5\<close> computes it on messages of bytes below 128.
\<close>

section \<open>RFC 1321\<close>

definition le_bytes :: "nat \<Rightarrow> nat \<Rightarrow> nat list" where
  "le_bytes k n = map (\<lambda>i. n div 256 ^ i mod 256) [0..<k]"

definition rfc_pad :: "nat list \<Rightarrow> nat list" where
  "rfc_pad m = m @ 128 # replicate ((119 - length m mod 64) mod 64) 0 @ le_bytes 8 (8 * length m)"

definition rfc_word :: "nat list \<Rightarrow> nat \<Rightarrow> u32" where
  "rfc_word bs k = of_nat (bs ! (4 * k) + 256 * bs ! (4 * k + 1)
     + 65536 * bs ! (4 * k + 2) + 16777216 * bs ! (4 * k + 3))"

text \<open>The order in which the four rounds read the words of a block.\<close>

definition rfc_index :: "nat list" where
  "rfc_index = [0, 1, 2, 3, 4, 5, 6, 7, 8, 9, 10, 11, 12, 13, 14, 15,
                1, 6, 11, 0, 5, 10, 15, 4, 9, 14, 3, 8, 13, 2, 7, 12,
                5, 8, 11, 14, 1, 4, 7, 10, 13, 0, 3, 6, 9, 12, 15, 2,
                0, 7, 14, 5, 12, 3, 10, 1, 8, 15, 6, 13, 4, 11, 2, 9]"

definition rfc_fun :: "nat \<Rightarrow> u32 \<Rightarrow> u32 \<Rightarrow> u32 \<Rightarrow> u32" where
  "rfc_fun i x y z =
     (if i < 16 then (x AND y) OR (NOT x AND z)
      else if i < 32 then (x AND z) OR (y AND NOT z)
      else if i < 48 then x XOR y XOR z
      else y XOR (x OR NOT z))"

text \<open>
  Operation \<open>i\<close>, \<open>[abcd k s i]\<close> in the RFC: the registers \<open>A, B, C, D\<close> (numbered 0 to 3)
  take the role of \<open>a\<close> in the order \<open>A, D, C, B\<close>, and only that register changes.
\<close>

definition rfc_step :: "u32 list \<Rightarrow> nat \<Rightarrow> (nat \<Rightarrow> u32) \<Rightarrow> (nat \<Rightarrow> u32)" where
  "rfc_step X i r =
     (let t = (64 - i) mod 4; a = r t; b = r ((t + 1) mod 4); c = r ((t + 2) mod 4); d = r ((t + 3) mod 4)
      in r(t := b + word_rotl (MD5_s ! i) (a + rfc_fun i b c d + X ! (rfc_index ! i) + MD5_T ! i)))"

definition rfc_block :: "u32 list \<Rightarrow> (nat \<Rightarrow> u32) \<Rightarrow> (nat \<Rightarrow> u32)" where
  "rfc_block X r = (\<lambda>q. r q + fold (rfc_step X) [0..<64] r q)"

definition rfc_init :: "nat \<Rightarrow> u32" where
  "rfc_init = (\<lambda>q. [0x67452301, 0xefcdab89, 0x98badcfe, 0x10325476] ! q)"

definition rfc_hex :: "u32 \<Rightarrow> string" where
  "rfc_hex w = concat (map (\<lambda>b. [''0123456789ABCDEF'' ! (b div 16), ''0123456789ABCDEF'' ! (b mod 16)])
     (le_bytes 4 (unat w)))"

definition rfc1321 :: "nat list \<Rightarrow> string" where
  "rfc1321 m =
     (let p = rfc_pad m;
          r = fold (\<lambda>j. rfc_block (map (\<lambda>k. rfc_word p (16 * j + k)) [0..<16]))
                [0..<length p div 64] rfc_init
      in rfc_hex (r 0) @ rfc_hex (r 1) @ rfc_hex (r 2) @ rfc_hex (r 3))"

section \<open>The rounds\<close>

lemma MD5_shift_rotl:
  assumes "0 < n" "n < 32"
  shows "MD5_shift a n = word_rotl n a"
proof (rule bit_word_eqI)
  fix k :: nat
  assume k: "k < LENGTH(32)"
  have "(k + (32 - n)) mod 32 = (if n \<le> k then k - n else k + (32 - n))"
    using assms k by (auto simp: mod_if)
  moreover have "bit (drop_bit (32 - n) a) k \<longleftrightarrow> bit a (k + (32 - n))"
    by (simp add: bit_drop_bit_eq ac_simps)
  moreover have "\<not> bit a (k + (32 - n))" if "n \<le> k"
    using that assms bit_imp_le_length [of a "k + (32 - n)"] by auto
  ultimately show "bit (MD5_shift a n) k \<longleftrightarrow> bit (word_rotl n a) k"
    using assms k by (auto simp: MD5_shift_def bit_or_iff bit_push_bit_iff bit_word_rotl_iff)
qed

lemma MD5_s_range: "i < 64 \<Longrightarrow> 0 < MD5_s ! i \<and> MD5_s ! i < 32"
proof -
  have "list_all (\<lambda>n. 0 < n \<and> n < 32) MD5_s" "length MD5_s = 64" by (simp_all add: MD5_s_def)
  then show "i < 64 \<Longrightarrow> 0 < MD5_s ! i \<and> MD5_s ! i < 32" by (simp add: list_all_length)
qed

lemma rfc_index_nth:
  assumes "i < 64"
  shows "rfc_index ! i = (if i < 16 then i else if i < 32 then (1 + 5 * i) mod 16
    else if i < 48 then (5 + 3 * i) mod 16 else (7 * i) mod 16)" (is "_ = ?k i")
proof -
  have "map ?k [0..<64] = rfc_index"
    by (simp add: rfc_index_def upt_conv_Cons)
  then have "rfc_index ! i = map ?k [0..<64] ! i" by (rule arg_cong [symmetric])
  also have "\<dots> = ?k i" using assms by (simp only: nth_map_upt add_0 minus_nat.diff_0)
  finally show ?thesis .
qed

lemma MD5_mix_rfc:
  assumes "i < 64"
  shows "MD5_mix i b c d = (rfc_fun i b c d, rfc_index ! i)"
  unfolding MD5_mix_def rfc_fun_def MD5_F_def MD5_G_def MD5_H_def MD5_I_def rfc_index_nth [OF assms]
  by (cases "i < 16"; cases "i < 32"; cases "i < 48"; simp only: if_True if_False)

text \<open>
  The four variables of the loop are the four registers seen from the one that is written
  in this round.
\<close>

definition seen_from :: "nat \<Rightarrow> (nat \<Rightarrow> u32) \<Rightarrow> u32 \<times> u32 \<times> u32 \<times> u32" where
  "seen_from t r = (r (t mod 4), r ((t + 1) mod 4), r ((t + 2) mod 4), r ((t + 3) mod 4))"

lemma seen_from_0: "seen_from 0 r = (r 0, r (Suc 0), r 2, r 3)"
  by (simp add: seen_from_def flip: numeral_2_eq_2 numeral_3_eq_3)

lemma seen_from_64: "seen_from 64 r = seen_from 0 r"
  by (simp add: seen_from_def flip: numeral_2_eq_2 numeral_3_eq_3)

lemmas seen_from_simps = seen_from_0 seen_from_64

lemma seen_from_update:
  assumes "t' = Suc t"
  shows "seen_from t (r(t' mod 4 := x)) = (r (t mod 4), x, r ((t' + 1) mod 4), r ((t' + 2) mod 4))"
    and "t mod 4 = (t' + 3) mod 4"
proof -
  have "(t + 1) mod 4 = t' mod 4" "(t + 2) mod 4 = (t' + 1) mod 4" "(t + 3) mod 4 = (t' + 2) mod 4"
    using assms by presburger+
  moreover have "t mod 4 \<noteq> t' mod 4" "(t' + 1) mod 4 \<noteq> t' mod 4" "(t' + 2) mod 4 \<noteq> t' mod 4"
    using assms by presburger+
  ultimately show "seen_from t (r(t' mod 4 := x)) = (r (t mod 4), x, r ((t' + 1) mod 4), r ((t' + 2) mod 4))"
    by (simp add: seen_from_def)
  show "t mod 4 = (t' + 3) mod 4" using assms by presburger
qed

lemma rfc_roles:
  "((t mod 4) + 1) mod 4 = (t + 1) mod (4::nat)" "((t mod 4) + 2) mod 4 = (t + 2) mod (4::nat)"
  "((t mod 4) + 3) mod 4 = (t + 3) mod (4::nat)"
  by (simp_all add: mod_simps)

lemma MD5_round_rfc:
  assumes "i < 64"
  shows "MD5_round X i (seen_from (64 - i) r) = seen_from (64 - Suc i) (rfc_step X i r)"
proof -
  have "64 - i = Suc (64 - Suc i)" using assms by simp
  note u = seen_from_update [OF this]
  show ?thesis
    unfolding rfc_step_def Let_def rfc_roles u
    using MD5_s_range [OF assms]
    by (simp add: MD5_round_def seen_from_def MD5_mix_rfc [OF assms] MD5_shift_rotl)
qed

lemma MD5_rounds_rfc:
  "n \<le> 64 \<Longrightarrow> fold (MD5_round X) [0..<n] (seen_from 64 r) = seen_from (64 - n) (fold (rfc_step X) [0..<n] r)"
proof (induction n)
  case (Suc n)
  then show ?case by (simp add: MD5_round_rfc)
qed simp

text \<open>The state's registers.\<close>

definition regs :: "md5_state \<Rightarrow> nat \<Rightarrow> u32" where
  "regs st = (\<lambda>q. if q = 0 then temp_a st else if q = 1 then temp_b st
     else if q = 2 then temp_c st else if q = 3 then temp_d st else 0)"

lemma regs_simps [simp]:
  "regs st 0 = temp_a st" "regs st (Suc 0) = temp_b st" "regs st 2 = temp_c st" "regs st 3 = temp_d st"
  by (simp_all add: regs_def)

text \<open>Two register files agree when their four registers do.\<close>

definition same_regs :: "(nat \<Rightarrow> u32) \<Rightarrow> (nat \<Rightarrow> u32) \<Rightarrow> bool" where
  "same_regs r r' \<longleftrightarrow> (\<forall>q < 4. r q = r' q)"

lemma same_regs_step: "same_regs r r' \<Longrightarrow> same_regs (rfc_step X i r) (rfc_step X i r')"
  by (simp add: same_regs_def rfc_step_def Let_def)

lemma same_regs_steps: "same_regs r r' \<Longrightarrow> same_regs (fold (rfc_step X) is r) (fold (rfc_step X) is r')"
  by (induction "is" arbitrary: r r') (simp_all add: same_regs_step)

lemma same_regs_block: "same_regs r r' \<Longrightarrow> same_regs (rfc_block X r) (rfc_block X r')"
  using same_regs_steps [of r r' X "[0..<64]"] by (simp add: same_regs_def rfc_block_def)

lemma same_regs_iff: "same_regs r r' \<longleftrightarrow> r 0 = r' 0 \<and> r (Suc 0) = r' (Suc 0) \<and> r 2 = r' 2 \<and> r 3 = r' 3"
  unfolding same_regs_def by (auto simp: less_Suc_eq numeral_eq_Suc)

lemma MD5_IterateFunc_rfc: "same_regs (regs (MD5_IterateFunc X st)) (rfc_block X (regs st))"
proof -
  have "(temp_a st, temp_b st, temp_c st, temp_d st) = seen_from 64 (regs st)"
    by (simp add: seen_from_simps)
  then have "fold (MD5_round X) [0..<64] (temp_a st, temp_b st, temp_c st, temp_d st)
      = seen_from 0 (fold (rfc_step X) [0..<64] (regs st))"
    using MD5_rounds_rfc [of 64 X "regs st"] by (simp del: upt_conv_Cons)
  then show ?thesis
    by (simp add: MD5_IterateFunc_def same_regs_iff rfc_block_def seen_from_simps del: upt_conv_Cons)
qed

lemma MD5_IterateFunc_length [simp]: "str_length (MD5_IterateFunc X st) = str_length st"
  by (simp add: MD5_IterateFunc_def split: prod.splits)

lemma same_regs_blocks:
  "same_regs r r' \<Longrightarrow> same_regs (fold (\<lambda>i. rfc_block (X i)) is r) (fold (\<lambda>i. rfc_block (X i)) is r')"
  by (induction "is" arbitrary: r r') (simp_all add: same_regs_block)

lemma same_regs_trans: "same_regs r r' \<Longrightarrow> same_regs r' r'' \<Longrightarrow> same_regs r r''"
  by (simp add: same_regs_def)

lemma MD5_blocks_rfc:
  "same_regs (regs (fold (\<lambda>i. MD5_IterateFunc (X i)) is st)) (fold (\<lambda>i. rfc_block (X i)) is (regs st))"
proof (induction "is" arbitrary: st)
  case Nil
  then show ?case by (simp add: same_regs_def)
next
  case (Cons i "is")
  then show ?case
    using same_regs_trans [OF Cons.IH same_regs_blocks [OF MD5_IterateFunc_rfc]] by simp
qed

section \<open>The padding\<close>

definition word_of_bytes :: "(nat \<Rightarrow> nat) \<Rightarrow> nat \<Rightarrow> u32" where
  "word_of_bytes f k = of_nat (f (4 * k) + 256 * f (4 * k + 1) + 65536 * f (4 * k + 2) + 16777216 * f (4 * k + 3))"

lemma rfc_word_bytes: "rfc_word bs k = word_of_bytes ((!) bs) k"
  by (simp add: rfc_word_def word_of_bytes_def)

lemma word_of_bytes_cong: "(\<And>j. 4 * k \<le> j \<Longrightarrow> j < 4 * k + 4 \<Longrightarrow> f j = g j) \<Longrightarrow> word_of_bytes f k = word_of_bytes g k"
  by (simp add: word_of_bytes_def)

lemma or_byte_field:
  fixes hi lo b :: nat
  assumes "lo < 2 ^ n" "b < 256"
  shows "(hi * 2 ^ (n + 8) + lo) OR push_bit n b = hi * 2 ^ (n + 8) + b * 2 ^ n + lo"
proof -
  have "b * 2 ^ n + lo < (b + 1) * 2 ^ n" using assms by simp
  also have "\<dots> \<le> 256 * 2 ^ n" using assms by (intro mult_le_mono1) simp
  finally have bl: "b * 2 ^ n + lo < 2 ^ (n + 8)" by (simp add: power_add)
  have lo8: "lo < 2 ^ (n + 8)" using bl by simp
  have "(hi * 2 ^ (n + 8) + lo) OR push_bit n b = push_bit (n + 8) hi OR (push_bit n b OR lo)"
    by (simp add: or_disjoint_nat [OF lo8, symmetric] or.assoc or.commute or.left_commute)
  also have "\<dots> = push_bit (n + 8) hi OR (b * 2 ^ n + lo)"
    by (simp add: or_disjoint_nat [OF assms(1)])
  also have "\<dots> = hi * 2 ^ (n + 8) + b * 2 ^ n + lo"
    by (simp add: or_disjoint_nat [OF bl])
  finally show ?thesis .
qed

lemma or_byte_fields:
  fixes a0 a1 a2 a3 b :: nat
  assumes "a0 < 256" "a1 < 256" "a2 < 256" "b < 256"
  shows "(256 * a1 + 65536 * a2 + 16777216 * a3) OR push_bit 0 b = b + 256 * a1 + 65536 * a2 + 16777216 * a3"
    "(a0 + 65536 * a2 + 16777216 * a3) OR push_bit 8 b = a0 + 256 * b + 65536 * a2 + 16777216 * a3"
    "(a0 + 256 * a1 + 16777216 * a3) OR push_bit 16 b = a0 + 256 * a1 + 65536 * b + 16777216 * a3"
    "(a0 + 256 * a1 + 65536 * a2) OR push_bit 24 b = a0 + 256 * a1 + 65536 * a2 + 16777216 * b"
  using or_byte_field [of 0 0 b "a1 + 256 * a2 + 65536 * a3"]
    or_byte_field [of a0 8 b "a2 + 256 * a3"]
    or_byte_field [of "a0 + 256 * a1" 16 b "a3"]
    or_byte_field [of "a0 + 256 * a1 + 65536 * a2" 24 b 0] assms
  by (simp_all add: algebra_simps)

lemma of_nat_or_push: "(of_nat a :: u32) OR push_bit n (of_nat b) = of_nat (a OR push_bit n b)"
  by (simp add: of_nat_or_eq of_nat_push_bit)

lemma word_of_bytes_put:
  assumes "\<And>j. f j < 256" "f i = 0" "b < 256"
  shows "word_of_bytes f (i div 4) OR push_bit (i mod 4 * 8) (of_nat b) = word_of_bytes (f(i := b)) (i div 4)"
proof -
  have i: "i = 4 * (i div 4) + i mod 4" by simp
  define k where "k = i div 4"
  consider "i mod 4 = 0" "i = 4 * k" | "i mod 4 = 1" "i = 4 * k + 1" | "i mod 4 = 2" "i = 4 * k + 2"
    | "i mod 4 = 3" "i = 4 * k + 3"
    using i unfolding k_def by linarith
  then show ?thesis
    unfolding word_of_bytes_def of_nat_or_push k_def [symmetric]
    using assms or_byte_fields [OF assms(1) assms(1) assms(1) assms(3)]
    by cases (simp_all only: fun_upd_apply, simp_all)
qed

text \<open>The words after the first \<open>i\<close> characters have been put in.\<close>

definition put_bytes :: "string \<Rightarrow> nat \<Rightarrow> nat \<Rightarrow> nat" where
  "put_bytes src i j = (if j < i then uchar (src ! j) else 0)"

lemma put_bytes_less [simp]: "put_bytes src i j < 256"
  by (simp add: put_bytes_def)

lemma put_bytes_self [simp]: "put_bytes src i i = 0"
  by (simp add: put_bytes_def)

lemma put_bytes_upd: "(put_bytes src i)(i := uchar (src ! i)) = put_bytes src (Suc i)"
  by (auto simp: put_bytes_def)

lemma map_word_of_bytes_upd:
  assumes "i div 4 < N" "\<And>j. f j < 256" "f i = 0" "b < 256"
  shows "(map (word_of_bytes f) [0..<N])[i div 4 :=
      map (word_of_bytes f) [0..<N] ! (i div 4) OR push_bit (i mod 4 * 8) (of_nat b)]
    = map (word_of_bytes (f(i := b))) [0..<N]"
proof (rule nth_equalityI)
  fix k assume "k < length ((map (word_of_bytes f) [0..<N])[i div 4 :=
      map (word_of_bytes f) [0..<N] ! (i div 4) OR push_bit (i mod 4 * 8) (of_nat b)])"
  then have k: "k < N" by simp
  have "word_of_bytes (f(i := b)) k = word_of_bytes f k" if "k \<noteq> i div 4"
    using that by (intro word_of_bytes_cong) auto
  with k assms show "(map (word_of_bytes f) [0..<N])[i div 4 :=
      map (word_of_bytes f) [0..<N] ! (i div 4) OR push_bit (i mod 4 * 8) (of_nat b)] ! k
    = map (word_of_bytes (f(i := b))) [0..<N] ! k"
    using word_of_bytes_put [where f = f and i = i and b = b]
    by (simp add: nth_list_update)
qed simp

lemma MD5_put_loop:
  assumes "ascii src" "n \<le> length src" "length src \<le> 4 * N"
  shows "fold (MD5_put src) [0..<n] (replicate N 0) = map (word_of_bytes (put_bytes src n)) [0..<N]"
  using assms(2)
proof (induction n)
  case 0
  show ?case by (rule nth_equalityI) (simp_all add: word_of_bytes_def put_bytes_def)
next
  case (Suc n)
  have "uchar (src ! n) < 128"
    using assms(1) Suc.prems by (auto simp: ascii_def)
  then have "word_of_int (schar (src ! n)) = (of_nat (uchar (src ! n)) :: u32)"
    by (simp add: schar_ascii)
  moreover have "n div 4 < N" using Suc.prems assms(3) by simp
  ultimately show ?case
    using Suc map_word_of_bytes_upd [of n N "put_bytes src n" "uchar (src ! n)"]
    by (simp add: MD5_put_def drop_bit_eq_div put_bytes_upd)
qed

lemma le_bytes_word:
  assumes "n < 2 ^ 32"
  shows "le_bytes 8 n ! 0 + 256 * le_bytes 8 n ! 1 + 65536 * le_bytes 8 n ! 2
      + 16777216 * le_bytes 8 n ! 3 = n"
    and "4 \<le> k \<Longrightarrow> k < 8 \<Longrightarrow> le_bytes 8 n ! k = 0"
proof -
  have d: "n div 65536 = n div 256 div 256" "n div 16777216 = n div 65536 div 256"
    by (simp_all add: div_mult2_eq)
  have "n mod 256 + 256 * (n div 256 mod 256 + 256 * (n div 65536 mod 256 + 256 * (n div 16777216))) = n"
    unfolding d by (simp only: mod_mult_div_eq)
  moreover have top: "n div 16777216 mod 256 = n div 16777216"
    using assms by (simp add: less_mult_imp_div_less)
  ultimately have "n mod 256 + 256 * (n div 256 mod 256) + 65536 * (n div 65536 mod 256)
      + 16777216 * (n div 16777216) = n"
    by simp
  then show "le_bytes 8 n ! 0 + 256 * le_bytes 8 n ! 1 + 65536 * le_bytes 8 n ! 2
      + 16777216 * le_bytes 8 n ! 3 = n"
    using top by (simp add: le_bytes_def)
  show "le_bytes 8 n ! k = 0" if "4 \<le> k" "k < 8"
  proof -
    have "(2::nat) ^ 32 \<le> 256 ^ k"
      using power_increasing [of 4 k "256::nat"] that by simp
    with assms have "n < 256 ^ k" by simp
    with that show ?thesis by (simp add: le_bytes_def)
  qed
qed

lemma length_le_bytes [simp]: "length (le_bytes k n) = k"
  by (simp add: le_bytes_def)

lemma length_rfc_pad: "length (rfc_pad m) = 64 * ((length m + 8) div 64 + 1)"
proof -
  have "n + 1 + (119 - n mod 64) mod 64 + 8 = 64 * ((n + 8) div 64 + 1)" for n :: nat
  proof -
    define q r where "q = n div 64" and "r = n mod 64"
    have n: "n = 64 * q + r" "r < 64" by (simp_all add: q_def r_def)
    have "(119 - r) mod 64 = (if r < 56 then 55 - r else 119 - r)"
      using n(2) by (auto simp: mod_if)
    moreover have "(n + 8) div 64 = (if r < 56 then q else q + 1)"
      using n by auto
    ultimately show ?thesis
      using n by (auto simp flip: r_def)
  qed
  from this [of "length m"] show ?thesis by (simp add: rfc_pad_def)
qed

lemma rfc_pad_nth:
  assumes "j < length (rfc_pad m) - 8"
  shows "rfc_pad m ! j = (if j < length m then m ! j else if j = length m then 128 else 0)"
  using assms unfolding rfc_pad_def by (auto simp: nth_append nth_Cons')

lemma rfc_pad_nth_end:
  assumes "k < 8"
  shows "rfc_pad m ! (length (rfc_pad m) - 8 + k) = le_bytes 8 (8 * length m) ! k"
proof -
  define p where "p = m @ 128 # replicate ((119 - length m mod 64) mod 64) 0"
  have e: "rfc_pad m = p @ le_bytes 8 (8 * length m)"
    by (simp add: rfc_pad_def p_def)
  show ?thesis unfolding e by (simp add: nth_append)
qed

lemma le_bytes_last_words:
  assumes "8 * length m < 2 ^ 32"
  defines "N \<equiv> length (rfc_pad m) div 4"
  shows "rfc_word (rfc_pad m) (N - 2) = of_nat (8 * length m)" "rfc_word (rfc_pad m) (N - 1) = 0"
proof -
  define q where "q = (length m + 8) div 64"
  have L: "length (rfc_pad m) = 64 * q + 64" and N: "N = 16 * q + 16"
    unfolding N_def length_rfc_pad q_def by simp_all
  have w: "rfc_pad m ! (64 * q + 56 + k) = le_bytes 8 (8 * length m) ! k" if "k < 8" for k
    using rfc_pad_nth_end [OF that, of m] by (simp add: L add.commute)
  have "rfc_word (rfc_pad m) (N - 2) = of_nat (le_bytes 8 (8 * length m) ! 0
      + 256 * le_bytes 8 (8 * length m) ! 1 + 65536 * le_bytes 8 (8 * length m) ! 2
      + 16777216 * le_bytes 8 (8 * length m) ! 3)"
    using w [of 0] w [of 1] w [of 2] w [of 3] by (simp add: rfc_word_def N algebra_simps)
  then show "rfc_word (rfc_pad m) (N - 2) = of_nat (8 * length m)"
    by (simp only: le_bytes_word(1) [OF assms(1)])
  show "rfc_word (rfc_pad m) (N - 1) = 0"
    using w [of 4] w [of 5] w [of 6] w [of 7] le_bytes_word(2) [OF assms(1)]
    by (simp add: rfc_word_def N algebra_simps)
qed

lemma MD5_Padding_rfc:
  assumes "ascii src" "length src < 2 ^ 29"
  shows "fst (MD5_Padding src st)
      = map (rfc_word (rfc_pad (map uchar src))) [0..<length (rfc_pad (map uchar src)) div 4]"
    and "unat (str_length (snd (MD5_Padding src st))) = length (rfc_pad (map uchar src)) div 4"
proof -
  define n q p N where "n = length src" and "q = (n + 8) div 64" and "p = rfc_pad (map uchar src)"
    and "N = 16 * q + 16"
  have L: "length p = 64 * q + 64" "length p div 4 = N"
    unfolding p_def length_rfc_pad N_def by (simp_all add: q_def n_def)
  have n29: "n < 2 ^ 29" using assms(2) by (simp add: n_def)
  have q8: "n + 8 < 64 * q + 64" "64 * q \<le> n + 8" unfolding q_def by simp_all
  have size: "unat ((of_nat (q + 1) :: u32) * 16) = N"
    using n29 q8 by (simp add: unat_word_ariths unat_of_nat N_def)
  have n4: "n \<le> 4 * N" "n div 4 < N" "n div 4 < N - 2" using q8 by (simp_all add: N_def)
  define f where "f = (put_bytes src n)(n := 128)"
  have l1: "fold (MD5_put src) [0..<n] (replicate N 0) = map (word_of_bytes (put_bytes src n)) [0..<N]"
    using MD5_put_loop [OF assms(1), of n N] n4 by (simp add: n_def)
  have l2: "(map (word_of_bytes (put_bytes src n)) [0..<N])[n div 4 :=
      map (word_of_bytes (put_bytes src n)) [0..<N] ! (n div 4) OR push_bit (n mod 4 * 8) 128]
    = map (word_of_bytes f) [0..<N]"
    using map_word_of_bytes_upd [OF n4(2), of "put_bytes src n" 128] by (simp add: f_def)
  have l3: "(map (word_of_bytes f) [0..<N])[N - 2 := of_nat (8 * n)] = map (rfc_word p) [0..<N]"
  proof (rule nth_equalityI)
    fix k assume "k < length ((map (word_of_bytes f) [0..<N])[N - 2 := of_nat (8 * n)])"
    then consider "k < N - 2" | "k = N - 2" | "k = N - 1" by fastforce
    then show "(map (word_of_bytes f) [0..<N])[N - 2 := of_nat (8 * n)] ! k = map (rfc_word p) [0..<N] ! k"
    proof cases
      case 1
      have "word_of_bytes f k = word_of_bytes ((!) p) k"
      proof (rule word_of_bytes_cong)
        fix j assume "j < 4 * k + 4"
        with 1 have "j < length p - 8" by (simp add: L N_def)
        then show "f j = p ! j"
          unfolding p_def by (subst rfc_pad_nth) (auto simp: f_def put_bytes_def n_def)
      qed
      with 1 show ?thesis by (simp add: rfc_word_bytes)
    next
      case 2
      then show ?thesis
        using le_bytes_last_words(1) [of "map uchar src"] n29 N_def L by (simp add: p_def n_def)
    next
      case 3
      have "word_of_bytes f (N - 1) = 0"
        using q8 by (simp add: word_of_bytes_def f_def put_bytes_def N_def)
      with 3 show ?thesis
        using le_bytes_last_words(2) [of "map uchar src"] n29 N_def L by (simp add: p_def n_def)
    qed
  qed simp
  show "fst (MD5_Padding src st)
      = map (rfc_word (rfc_pad (map uchar src))) [0..<length (rfc_pad (map uchar src)) div 4]"
    using l1 l2 l3 size L(2)
    by (simp add: MD5_Padding_def Let_def drop_bit_eq_div push_bit_eq_mult mult.commute
        flip: n_def q_def p_def)
  show "unat (str_length (snd (MD5_Padding src st))) = length (rfc_pad (map uchar src)) div 4"
    using size L(2) by (simp add: MD5_Padding_def Let_def flip: n_def q_def p_def)
qed

section \<open>The digest\<close>

lemma MD5_Format_byte: "unat (drop_bit (i * 8) w mod 256 AND 0xff) = unat (w :: u32) div 256 ^ i mod 256"
proof -
  have "(v :: u32) AND 0xff = take_bit 8 v" for v
    by (simp add: take_bit_eq_mask mask_eq_exp_minus_1)
  moreover have "unat (drop_bit (i * 8) w) = unat w div 256 ^ i"
    unfolding unat_drop_bit_eq by (simp add: drop_bit_eq_div power_mult mult.commute [of i])
  then have "unat (drop_bit (i * 8) w mod 256) = unat w div 256 ^ i mod 256"
    by (simp add: unat_mod del: drop_bit_eq_div)
  ultimately show ?thesis
    by (simp only: unsigned_take_bit_eq take_bit_eq_mod [where 'a = nat]) simp
qed

lemma MD5_Format_rfc: "MD5_Format (\<lambda>_. []) w = rfc_hex w"
  unfolding MD5_Format_def rfc_hex_def le_bytes_def MD5_Format_byte Let_def str16_def map_map comp_def
  by (simp add: less_mult_imp_div_less)

lemma MD5_Encode_rfc1321:
  assumes "ascii src" "length src < 2 ^ 29"
  shows "MD5_Encode (\<lambda>_. []) src = rfc1321 (map uchar src)"
proof -
  define st0 where "st0 = \<lparr>temp_a = MD5_A, temp_b = MD5_B, temp_c = MD5_C, temp_d = MD5_D, str_length = 0\<rparr>"
  define p where "p = rfc_pad (map uchar src)"
  obtain rec st1 where pad: "MD5_Padding src st0 = (rec, st1)" by fastforce
  have rec: "rec = map (rfc_word p) [0..<length p div 4]"
    using MD5_Padding_rfc(1) [OF assms, of st0] pad by (simp add: p_def)
  have len: "unat (str_length st1) = length p div 4"
    using MD5_Padding_rfc(2) [OF assms, of st0] pad by (simp add: p_def)
  have blocks: "unat (str_length st1 div 16) = length p div 64"
    using len by (simp add: unat_div div_mult2_eq [symmetric])
  have regs1: "same_regs (regs st1) rfc_init"
    using pad by (auto simp: MD5_Padding_def Let_def st0_def same_regs_iff rfc_init_def
        MD5_A_def MD5_B_def MD5_C_def MD5_D_def)
  have X: "map (\<lambda>j. rec ! (i * 16 + j)) [0..<16] = map (\<lambda>k. rfc_word p (16 * i + k)) [0..<16]"
    if "i < length p div 64" for i
  proof -
    have "length p = 64 * (length p div 64)" by (simp add: p_def length_rfc_pad)
    then have "i * 16 + j < length p div 4" if "j < 16" for j
      using that \<open>i < length p div 64\<close> by linarith
    then show ?thesis by (auto simp: rec mult.commute)
  qed
  have "same_regs (regs (MD5_blocks rec st1))
      (fold (\<lambda>i. rfc_block (map (\<lambda>j. rec ! (i * 16 + j)) [0..<16])) [0..<length p div 64] (regs st1))"
    using MD5_blocks_rfc [of "\<lambda>i. map (\<lambda>j. rec ! (i * 16 + j)) [0..<16]"] blocks
    by (simp add: MD5_blocks_def)
  also have "fold (\<lambda>i. rfc_block (map (\<lambda>j. rec ! (i * 16 + j)) [0..<16])) [0..<length p div 64] (regs st1)
      = fold (\<lambda>i. rfc_block (map (\<lambda>k. rfc_word p (16 * i + k)) [0..<16])) [0..<length p div 64] (regs st1)"
    by (rule fold_cong) (auto simp: X)
  finally have fin: "same_regs (regs (MD5_blocks rec st1))
      (fold (\<lambda>i. rfc_block (map (\<lambda>k. rfc_word p (16 * i + k)) [0..<16])) [0..<length p div 64] rfc_init)"
    (is "same_regs _ ?R")
    by (rule same_regs_trans) (rule same_regs_blocks [OF regs1])
  note abcd = fin [unfolded same_regs_iff regs_simps]
  note regs_eq = abcd [THEN conjunct1] abcd [THEN conjunct2, THEN conjunct1]
    abcd [THEN conjunct2, THEN conjunct2, THEN conjunct1]
    abcd [THEN conjunct2, THEN conjunct2, THEN conjunct2]
  show ?thesis
    unfolding MD5_Encode_def rfc1321_def Let_def st0_def [symmetric] p_def [symmetric] pad prod.case
      MD5_Format_rfc One_nat_def regs_eq ..
qed


lemma length_MD5_Format: "length (MD5_Format stk w) = 8 + sum_list (map (\<lambda>i. length (stk i)) [0..<4])"
  by (simp add: MD5_Format_def Let_def length_concat comp_def sum_list_Suc)

lemma MD5_Encode_length:
  "length (MD5_Encode stk src) = 32 + sum_list (map (\<lambda>i. length (stk i)) [0..<16])"
proof -
  have "[0..<16] = [0..<4] @ map ((+) 4) [0..<4] @ map ((+) 8) [0..<4] @ map ((+) 12) [0..<4]"
    by (simp add: upt_rec)
  then have "sum_list (map (\<lambda>i. length (stk i)) [0..<16]) = sum_list (map (\<lambda>i. length (stk i)) [0..<4])
     + sum_list (map (\<lambda>i. length (stk (4 + i))) [0..<4])
     + sum_list (map (\<lambda>i. length (stk (8 + i))) [0..<4])
     + sum_list (map (\<lambda>i. length (stk (12 + i))) [0..<4])"
    by (simp only: map_append sum_list_append map_map comp_def add.assoc)
  then show ?thesis
    by (simp only: MD5_Encode_def Let_def case_prod_beta length_append length_MD5_Format)
qed

text \<open>
  The sign bits of a byte from 128 on at the start of a word cover the three bytes that
  follow it in that word.
\<close>

lemma first_four: "[0..<4] = [0, 1, 2, 3 :: nat]"
  by (simp add: upt_rec)

lemma MD5_put_covered:
  assumes "128 \<le> uchar x" "N > 0"
  shows "fold (MD5_put (x # c1 # c2 # c3 # rest)) [0..<4] (replicate N 0)
    = (replicate N 0)[0 := word_of_int (schar x)]"
proof -
  have neg: "schar x < 0" "- 128 \<le> schar x"
    using assms schar_neg_iff schar_range by auto
  have hi: "bit (word_of_int (schar x) :: u32) k" if "7 \<le> k" "k < 32" for k
  proof -
    have "bit (schar x) k"
    proof -
      have "drop_bit k (schar x) = - 1"
      proof -
        have "(2::int) ^ 7 \<le> 2 ^ k" using that by (intro power_increasing) auto
        then have "0 \<le> schar x + 2 ^ k" "schar x + 2 ^ k < 2 ^ k" using neg by simp_all
        then have "(schar x + 2 ^ k) div 2 ^ k = 0" by (rule div_pos_pos_trivial)
        moreover have "(schar x + 2 ^ k) div 2 ^ k = schar x div 2 ^ k + 1"
          by (rule div_add_self2) simp
        ultimately have "schar x div 2 ^ k = - 1" by linarith
        then show ?thesis by (simp add: drop_bit_eq_div)
      qed
      then show ?thesis by (simp add: bit_iff_odd_drop_bit)
    qed
    with that show ?thesis by (simp add: bit_word_of_int_iff)
  qed
  have absorb: "word_of_int (schar x) OR push_bit (n * 8) w = (word_of_int (schar x) :: u32)" if "0 < n" for n w
  proof (rule bit_word_eqI)
    fix k :: nat assume "k < LENGTH(32)"
    then show "bit (word_of_int (schar x) OR push_bit (n * 8) w) k = bit (word_of_int (schar x) :: u32) k"
      using hi [of k] that by (auto simp: bit_or_iff bit_push_bit_iff)
  qed
  show ?thesis
    using assms(2) absorb [of 1] absorb [of 2] absorb [of 3]
    by (simp add: MD5_put_def first_four drop_bit_eq_div)
qed

lemma fold_MD5_put_cong:
  "(\<And>i. i \<in> set is \<Longrightarrow> src ! i = src' ! i) \<Longrightarrow> fold (MD5_put src) is rec = fold (MD5_put src') is rec"
  by (rule fold_cong) (auto simp: MD5_put_def fun_eq_iff)

lemma MD5_Encode_collision:
  assumes "128 \<le> uchar x"
  shows "MD5_Encode stk (x # c1 # c2 # c3 # rest) = MD5_Encode stk (x # d1 # d2 # d3 # rest)"
proof -
  let ?s = "x # c1 # c2 # c3 # rest" and ?s' = "x # d1 # d2 # d3 # rest"
  have pos: "fold (MD5_put ?s) [0..<length ?s] (replicate N 0) = fold (MD5_put ?s') [0..<length ?s] (replicate N 0)"
    if "N > 0" for N
  proof -
    have "length ?s = 4 + length rest" by simp
    then have "[0..<length ?s] = [0..<4] @ [4..<length ?s]"
      using upt_add_eq_append [of 0 4 "length rest"] by (simp only: add_0)
    moreover have "fold (MD5_put ?s) [4..<length ?s] r = fold (MD5_put ?s') [4..<length ?s] r" for r
      by (rule fold_MD5_put_cong) (auto simp: nth_Cons' numeral_eq_Suc)
    ultimately show ?thesis
      using MD5_put_covered [OF assms that] by (simp only: fold_append comp_apply)
  qed
  have empty: "fold (MD5_put ?s) is [] = fold (MD5_put ?s') is []" for "is"
    by (induction "is") (simp_all add: MD5_put_def)
  have "fold (MD5_put ?s) [0..<length ?s] (replicate N 0)
      = fold (MD5_put ?s') [0..<length ?s] (replicate N 0)" for N
  proof (cases "N = 0")
    case True
    show ?thesis unfolding True replicate_0 by (rule empty)
  next
    case False
    then show ?thesis by (intro pos) simp
  qed
  then have "MD5_Padding ?s st = MD5_Padding ?s' st" for st
    by (simp only: MD5_Padding_def list.size Let_def)
  then show ?thesis by (simp only: MD5_Encode_def)
qed

section \<open>Properties\<close>



text \<open>
  the digest has the 32 characters of MD5 plus everything that stood on the stack between
  the two-element array \<open>tmp\<close> and the next zero byte, once for each of the sixteen bytes: it has
  the right length only when each of those reads found a zero byte at once.
\<close>

lemma md5_length:
  "length (MD5_Encode stk src) = 32 + sum_list (map (\<lambda>i. length (stk i)) [0..<16])"
  by (rule MD5_Encode_length)

text \<open>
  a byte from 128 on at the start of a message hides the three bytes behind it: messages that
  differ in those bytes have the same digest.
\<close>

lemma md5_collision:
  assumes "128 \<le> uchar x"
  shows "MD5_Encode stk (x # c1 # c2 # c3 # rest) = MD5_Encode stk (x # d1 # d2 # d3 # rest)"
  using assms by (rule MD5_Encode_collision)

lemma md5_collision_witness:
  "MD5_Encode (\<lambda>_. []) (CHR 0xE7 # ''abc'') = MD5_Encode (\<lambda>_. []) (CHR 0xE7 # ''xyz'')"
  by (rule md5_collision) (simp add: uchar_def)

end
