(* ===== verification/MD5_Tests.thy ===== *)
theory MD5_Tests
  imports MD5_Spec
begin

text \<open>
  The vectors of \<^verbatim>\<open>test/util/md5_test.cpp\<close>, checked on the model by evaluation: they tie the tables of
  constants and shifts to the published ones.  A word is written as the integer it is the class of,
  so that the simplifier computes with numerals.
\<close>

section \<open>Words as integers\<close>

definition W :: "int \<Rightarrow> u32" where "W a = word_of_int a"

lemma W_mod: "W (a mod 4294967296) = W a"
  unfolding W_def by (simp add: word_of_int_eq_iff take_bit_eq_mod)

lemma W_plus: "W a + W b = W ((a + b) mod 4294967296)"
  unfolding W_mod by (simp add: W_def)

lemma W_bits: "W a AND W b = W (a AND b)" "W a OR W b = W (a OR b)" "W a XOR W b = W (a XOR b)"
  unfolding W_def by (transfer, simp)+

lemma W_not: "NOT (W a) = W (4294967295 - a)"
proof -
  have "NOT (W a) = W (NOT a)" unfolding W_def by (rule bit_word_eqI) (simp add: bit_simps)
  also have "NOT a = - 1 - a" by (simp add: not_int_def)
  also have "W (- 1 - a) = W ((- 1 - a) mod 4294967296)" by (simp only: W_mod)
  also have "(- 1 - a) mod 4294967296 = (4294967295 - a) mod 4294967296"
    using mod_add_self2 [of "- 1 - a" 4294967296] by simp
  finally show ?thesis by (simp only: W_mod)
qed

lemma W_push: "push_bit n (W a) = W (a * 2 ^ n mod 4294967296)"
  unfolding W_mod unfolding W_def by (transfer, simp add: push_bit_eq_mult take_bit_push_bit)

lemma W_drop: "drop_bit n (W a) = W (a mod 4294967296 div 2 ^ n)"
  unfolding W_def by (transfer, simp add: drop_bit_eq_div take_bit_eq_mod)

lemmas W_simps = W_plus W_bits W_not W_push W_drop

definition T_ints :: "int list" where
  "T_ints = [3614090360, 3905402710, 606105819, 3250441966, 4118548399, 1200080426, 2821735955, 4249261313, 1770035416,
      2336552879, 4294925233, 2304563134, 1804603682, 4254626195, 2792965006, 1236535329, 4129170786, 3225465664,
      643717713, 3921069994, 3593408605, 38016083, 3634488961, 3889429448, 568446438, 3275163606, 4107603335,
      1163531501, 2850285829, 4243563512, 1735328473, 2368359562, 4294588738, 2272392833, 1839030562, 4259657740,
      2763975236, 1272893353, 4139469664, 3200236656, 681279174, 3936430074, 3572445317, 76029189, 3654602809,
      3873151461, 530742520, 3299628645, 4096336452, 1126891415, 2878612391, 4237533241, 1700485571, 2399980690,
      4293915773, 2240044497, 1873313359, 4264355552, 2734768916, 1309151649, 4149444226, 3174756917, 718787259,
      3951481745]"

lemma MD5_T_W: "MD5_T = map W T_ints"
  by (simp add: MD5_T_def T_ints_def W_def)

text \<open>One round on integers.\<close>

definition mix_ints :: "nat \<Rightarrow> int \<Rightarrow> int \<Rightarrow> int \<Rightarrow> int" where
  "mix_ints i b c d =
     (if i < 16 then (b AND c) OR ((4294967295 - b) AND d)
      else if i < 32 then (b AND d) OR (c AND (4294967295 - d))
      else if i < 48 then b XOR c XOR d
      else c XOR (b OR (4294967295 - d)))"

definition key_index :: "nat \<Rightarrow> nat" where
  "key_index i = (if i < 16 then i else if i < 32 then (1 + 5 * i) mod 16 else if i < 48 then (5 + 3 * i) mod 16 else (7
      * i) mod 16)"

definition rot_ints :: "nat \<Rightarrow> int \<Rightarrow> int" where
  "rot_ints n x = (x * 2 ^ n mod 4294967296 OR x div 2 ^ (32 - n))"

fun round_ints :: "int list \<Rightarrow> nat \<Rightarrow> int \<times> int \<times> int \<times> int \<Rightarrow> int
    \<times> int \<times> int \<times> int" where
  "round_ints xs i (a, b, c, d) =
     (d, (b + rot_ints (MD5_s ! i) ((a + mix_ints i b c d + xs ! key_index i + T_ints ! i) mod 4294967296)) mod
         4294967296, b, c)"

definition W4 :: "int \<times> int \<times> int \<times> int \<Rightarrow> u32 \<times> u32 \<times> u32 \<times> u32" where
  "W4 = (\<lambda>(a, b, c, d). (W a, W b, W c, W d))"

lemma W_sum: "W a + W b = W (a + b)"
  using W_plus [of a b] by (simp only: W_mod)

lemma MD5_round_ints:
  assumes "i < 64" "length xs = 16"
  shows "MD5_round (map W xs) i (W4 s) = W4 (round_ints xs i s)"
proof -
  obtain a b c d where s: "s = (a, b, c, d)" by (cases s) auto
  have l: "length T_ints = 64" by (simp add: T_ints_def)
  have k: "(1 + 5 * i) mod 16 < 16" "(5 + 3 * i) mod 16 < 16" "(7 * i) mod 16 < 16" by simp_all
  have T: "map W T_ints ! i = W (T_ints ! i)" using assms(1) l by simp
  have X: "map W xs ! k = W (xs ! k)" if "k < 16" for k using that assms(2) by simp
  have sh: "MD5_shift (W x) n = W (rot_ints n (x mod 4294967296))" for x n
    unfolding rot_ints_def
    by (subst W_mod [symmetric]) (simp only: MD5_shift_def W_push W_drop W_bits mod_mod_trivial)
  show ?thesis
    unfolding s W4_def round_ints.simps MD5_round_def MD5_mix_def MD5_T_W T prod.case Let_def mix_ints_def key_index_def
    by (cases "i < 16"; cases "i < 32"; cases "i < 48")
      (simp_all add: T X k MD5_F_def MD5_G_def MD5_H_def MD5_I_def W_bits W_not W_sum W_mod sh)
qed

lemma T_nth:
  "T_ints ! 0 = 3614090360" "T_ints ! Suc 0 = 3905402710" "T_ints ! 2 = 606105819" "T_ints ! 3 = 3250441966"
  "T_ints ! 4 = 4118548399" "T_ints ! 5 = 1200080426" "T_ints ! 6 = 2821735955" "T_ints ! 7 = 4249261313"
  "T_ints ! 8 = 1770035416" "T_ints ! 9 = 2336552879" "T_ints ! 10 = 4294925233" "T_ints ! 11 = 2304563134"
  "T_ints ! 12 = 1804603682" "T_ints ! 13 = 4254626195" "T_ints ! 14 = 2792965006" "T_ints ! 15 = 1236535329"
  "T_ints ! 16 = 4129170786" "T_ints ! 17 = 3225465664" "T_ints ! 18 = 643717713" "T_ints ! 19 = 3921069994"
  "T_ints ! 20 = 3593408605" "T_ints ! 21 = 38016083" "T_ints ! 22 = 3634488961" "T_ints ! 23 = 3889429448"
  "T_ints ! 24 = 568446438" "T_ints ! 25 = 3275163606" "T_ints ! 26 = 4107603335" "T_ints ! 27 = 1163531501"
  "T_ints ! 28 = 2850285829" "T_ints ! 29 = 4243563512" "T_ints ! 30 = 1735328473" "T_ints ! 31 = 2368359562"
  "T_ints ! 32 = 4294588738" "T_ints ! 33 = 2272392833" "T_ints ! 34 = 1839030562" "T_ints ! 35 = 4259657740"
  "T_ints ! 36 = 2763975236" "T_ints ! 37 = 1272893353" "T_ints ! 38 = 4139469664" "T_ints ! 39 = 3200236656"
  "T_ints ! 40 = 681279174" "T_ints ! 41 = 3936430074" "T_ints ! 42 = 3572445317" "T_ints ! 43 = 76029189"
  "T_ints ! 44 = 3654602809" "T_ints ! 45 = 3873151461" "T_ints ! 46 = 530742520" "T_ints ! 47 = 3299628645"
  "T_ints ! 48 = 4096336452" "T_ints ! 49 = 1126891415" "T_ints ! 50 = 2878612391" "T_ints ! 51 = 4237533241"
  "T_ints ! 52 = 1700485571" "T_ints ! 53 = 2399980690" "T_ints ! 54 = 4293915773" "T_ints ! 55 = 2240044497"
  "T_ints ! 56 = 1873313359" "T_ints ! 57 = 4264355552" "T_ints ! 58 = 2734768916" "T_ints ! 59 = 1309151649"
  "T_ints ! 60 = 4149444226" "T_ints ! 61 = 3174756917" "T_ints ! 62 = 718787259" "T_ints ! 63 = 3951481745"
  by (simp_all add: T_ints_def)

lemma s_nth:
  "MD5_s ! 0 = 7" "MD5_s ! Suc 0 = 12" "MD5_s ! 2 = 17" "MD5_s ! 3 = 22"
  "MD5_s ! 4 = 7" "MD5_s ! 5 = 12" "MD5_s ! 6 = 17" "MD5_s ! 7 = 22"
  "MD5_s ! 8 = 7" "MD5_s ! 9 = 12" "MD5_s ! 10 = 17" "MD5_s ! 11 = 22"
  "MD5_s ! 12 = 7" "MD5_s ! 13 = 12" "MD5_s ! 14 = 17" "MD5_s ! 15 = 22"
  "MD5_s ! 16 = 5" "MD5_s ! 17 = 9" "MD5_s ! 18 = 14" "MD5_s ! 19 = 20"
  "MD5_s ! 20 = 5" "MD5_s ! 21 = 9" "MD5_s ! 22 = 14" "MD5_s ! 23 = 20"
  "MD5_s ! 24 = 5" "MD5_s ! 25 = 9" "MD5_s ! 26 = 14" "MD5_s ! 27 = 20"
  "MD5_s ! 28 = 5" "MD5_s ! 29 = 9" "MD5_s ! 30 = 14" "MD5_s ! 31 = 20"
  "MD5_s ! 32 = 4" "MD5_s ! 33 = 11" "MD5_s ! 34 = 16" "MD5_s ! 35 = 23"
  "MD5_s ! 36 = 4" "MD5_s ! 37 = 11" "MD5_s ! 38 = 16" "MD5_s ! 39 = 23"
  "MD5_s ! 40 = 4" "MD5_s ! 41 = 11" "MD5_s ! 42 = 16" "MD5_s ! 43 = 23"
  "MD5_s ! 44 = 4" "MD5_s ! 45 = 11" "MD5_s ! 46 = 16" "MD5_s ! 47 = 23"
  "MD5_s ! 48 = 6" "MD5_s ! 49 = 10" "MD5_s ! 50 = 15" "MD5_s ! 51 = 21"
  "MD5_s ! 52 = 6" "MD5_s ! 53 = 10" "MD5_s ! 54 = 15" "MD5_s ! 55 = 21"
  "MD5_s ! 56 = 6" "MD5_s ! 57 = 10" "MD5_s ! 58 = 15" "MD5_s ! 59 = 21"
  "MD5_s ! 60 = 6" "MD5_s ! 61 = 10" "MD5_s ! 62 = 15" "MD5_s ! 63 = 21"
  by (simp_all add: MD5_s_def)

lemmas run_simps = mix_ints_def key_index_def rot_ints_def T_nth s_nth

section \<open>Blocks on integers\<close>

lemma sixty_four: "[0..<64] = [0, 1, 2, 3, 4, 5, 6, 7, 8, 9, 10, 11, 12, 13, 14, 15] @
    [16, 17, 18, 19, 20, 21, 22, 23, 24, 25, 26, 27, 28, 29, 30, 31] @
    [32, 33, 34, 35, 36, 37, 38, 39, 40, 41, 42, 43, 44, 45, 46, 47] @
    [48, 49, 50, 51, 52, 53, 54, 55, 56, 57, 58, 59, 60, 61, 62, 63]"
  by code_simp

lemma MD5_rounds_ints:
  "length xs = 16 \<Longrightarrow> \<forall>i \<in> set is. i < 64 \<Longrightarrow> fold (MD5_round (map W xs)) is (W4
      s) = W4 (fold (round_ints xs) is s)"
  by (induction "is" arbitrary: s) (simp_all add: MD5_round_ints)

definition md5_ints :: "int \<times> int \<times> int \<times> int \<Rightarrow> u32 \<Rightarrow> md5_state" where
  "md5_ints = (\<lambda>(a, b, c, d) n. \<lparr>temp_a = W a, temp_b = W b, temp_c = W c, temp_d = W d, str_length = n\<rparr>)"

lemma MD5_block_ints:
  assumes "fold (round_ints xs) [0..<64] (a, b, c, d) = (a', b', c', d')" "length xs = 16"
  shows "MD5_IterateFunc (map W xs) (md5_ints (a, b, c, d) n) =
    md5_ints ((a + a') mod 4294967296, (b + b') mod 4294967296, (c + c') mod 4294967296, (d + d') mod 4294967296) n"
proof -
  have "fold (MD5_round (map W xs)) [0..<64] (W4 (a, b, c, d)) = W4 (a', b', c', d')"
    using MD5_rounds_ints [OF assms(2), of "[0..<64]" "(a, b, c, d)"] assms(1) by simp
  then show ?thesis by (simp add: MD5_IterateFunc_def md5_ints_def W4_def W_plus)
qed

lemma MD5_Format_ints: "0 \<le> a \<Longrightarrow> a < 4294967296 \<Longrightarrow> MD5_Format (\<lambda>_. []) (W a) =
    concat (map (\<lambda>b. [''0123456789ABCDEF'' ! (b div 16), ''0123456789ABCDEF'' ! (b mod 16)]) (le_bytes 4 (nat a)))"
proof -
  assume "0 \<le> a" "a < 4294967296"
  then have "unat (W a) = nat a"
    by (simp add: W_def unsigned_of_int take_bit_int_eq_self)
  then show ?thesis by (simp only: MD5_Format_rfc rfc_hex_def)
qed

lemma replicate_numeral: "replicate (numeral k) x = x # replicate (pred_numeral k) x"
  by (simp add: numeral_eq_Suc)

lemma upt_eight: "[0..<8] = [0, 1, 2, 3, 4, 5, 6, 7]"
  by code_simp

lemma block_words: "length xs = 16 \<Longrightarrow> length ys = i * 16 \<Longrightarrow>
    map (\<lambda>j. map W (ys @ xs @ zs) ! (i * 16 + j)) [0..<16] = map W xs"
  by (rule nth_equalityI) (simp_all add: nth_append)

abbreviation md5_start :: "int \<times> int \<times> int \<times> int" where
  "md5_start \<equiv> (1732584193, 4023233417, 2562383102, 271733878)"

lemma MD5_Encode_ints:
  assumes "ascii src" "length src < 2 ^ 29" "length (rfc_pad (map uchar src)) = 64 * n"
    and "map (rfc_word (rfc_pad (map uchar src))) [0..<16 * n] = map W ws"
    and "\<And>l. fold (\<lambda>i. MD5_IterateFunc (map (\<lambda>j. map W ws ! (i * 16 + j)) [0..<16])) [0..<n]
        (md5_ints md5_start l) =
      md5_ints (a, b, c, d) l"
  shows "MD5_Encode (\<lambda>_. []) src = concat (map (\<lambda>x. MD5_Format (\<lambda>_. []) (W x)) [a, b, c, d])"
proof -
  define st0 where "st0 = \<lparr>temp_a = MD5_A, temp_b = MD5_B, temp_c = MD5_C, temp_d = MD5_D, str_length = 0\<rparr>"
  obtain rec st1 where p: "MD5_Padding src st0 = (rec, st1)" by force
  have rec: "rec = map W ws"
    using MD5_Padding_rfc(1) [OF assms(1,2), of st0] p assms(3,4) by simp
  have l: "unat (str_length st1 div 16) = n"
    using MD5_Padding_rfc(2) [OF assms(1,2), of st0] p assms(3) by (simp add: unat_div_distrib)
  have "st1 = md5_ints md5_start (str_length st1)"
    using p by (auto simp: MD5_Padding_def Let_def st0_def md5_ints_def W_def MD5_A_def MD5_B_def MD5_C_def MD5_D_def)
  then have "MD5_blocks rec st1 = md5_ints (a, b, c, d) (str_length st1)"
    unfolding MD5_blocks_def rec l using assms(5) [of "str_length st1"] by (simp only:)
  then show ?thesis
    by (simp add: MD5_Encode_def Let_def p md5_ints_def flip: st0_def)
qed

lemma upt_small: "[0..<1] = [0 :: nat]" "[0..<2] = [0, 1 :: nat]" "[0..<4] = [0, 1, 2, 3 :: nat]"
  by code_simp+

section \<open>The vectors\<close>

definition X_1 :: "int list" where
  "X_1 = [875770417, 8402485, 0, 0, 0, 0, 0, 0, 0, 0, 0, 0, 0, 0, 48, 0]"

lemma X_1_nth:
  "X_1 ! 0 = 875770417" "X_1 ! Suc 0 = 8402485" "X_1 ! 2 = 0" "X_1 ! 3 = 0"
  "X_1 ! 4 = 0" "X_1 ! 5 = 0" "X_1 ! 6 = 0" "X_1 ! 7 = 0"
  "X_1 ! 8 = 0" "X_1 ! 9 = 0" "X_1 ! 10 = 0" "X_1 ! 11 = 0"
  "X_1 ! 12 = 0" "X_1 ! 13 = 0" "X_1 ! 14 = 48" "X_1 ! 15 = 0"
  by (simp_all add: X_1_def)

lemma rounds_1_0: "fold (round_ints X_1) [0, 1, 2, 3, 4, 5, 6, 7, 8, 9, 10, 11, 12, 13, 14, 15] (1732584193, 4023233417,
    2562383102, 271733878) = (1310091179, 4007988286, 3383416900, 3404424146)"
  by (simp add: run_simps X_1_nth)

lemma rounds_1_1: "fold (round_ints X_1) [16, 17, 18, 19, 20, 21, 22, 23, 24, 25, 26, 27, 28, 29, 30, 31] (1310091179,
    4007988286, 3383416900, 3404424146) = (856881845, 811605055, 2479230242, 3204175701)"
  by (simp add: run_simps X_1_nth)

lemma rounds_1_2: "fold (round_ints X_1) [32, 33, 34, 35, 36, 37, 38, 39, 40, 41, 42, 43, 44, 45, 46, 47] (856881845,
    811605055, 2479230242, 3204175701) = (1935254486, 330814694, 812141335, 1449467944)"
  by (simp add: run_simps X_1_nth)

lemma rounds_1_3: "fold (round_ints X_1) [48, 49, 50, 51, 52, 53, 54, 55, 56, 57, 58, 59, 60, 61, 62, 63] (1935254486,
    330814694, 812141335, 1449467944) = (3533105120, 3146518208, 3206904256, 777370492)"
  by (simp add: run_simps X_1_nth)

lemma rounds_1: "fold (round_ints X_1) [0..<64] (1732584193, 4023233417, 2562383102, 271733878) = (3533105120,
    3146518208, 3206904256, 777370492)"
  by (simp only: sixty_four fold_append comp_apply rounds_1_0 rounds_1_1 rounds_1_2 rounds_1_3)

lemma bytes_1: "rfc_pad (map uchar ''123456'') = [49, 50, 51, 52, 53, 54, 128, 0, 0, 0, 0, 0, 0, 0, 0, 0, 0, 0, 0, 0, 0,
    0, 0, 0, 0, 0, 0, 0, 0, 0, 0, 0, 0, 0, 0, 0, 0, 0, 0, 0, 0, 0, 0, 0, 0, 0, 0, 0, 0, 0, 0, 0, 0, 0, 0, 0, 48, 0, 0,
    0, 0, 0, 0, 0]"
  by (simp add: rfc_pad_def le_bytes_def uchar_def replicate_numeral upt_eight)

lemma words_1: "map (rfc_word (rfc_pad (map uchar ''123456''))) [0, 1, 2, 3, 4, 5, 6, 7, 8, 9, 10, 11, 12, 13, 14, 15] =
    map W (X_1)"
  unfolding bytes_1 by (simp add: rfc_word_def W_def X_1_def)

lemma md5_test_1: "MD5_Encode (\<lambda>_. []) ''123456'' = ''E10ADC3949BA59ABBE56E057F20F883E''"
proof -
  have len: "length X_1 = 16"
    by (simp_all add: X_1_def)
  have pad: "length (rfc_pad (map uchar ''123456'')) = 64 * 1"
    unfolding bytes_1 by simp
  have up: "[0..<16 * 1] = [0, 1, 2, 3, 4, 5, 6, 7, 8, 9, 10, 11, 12, 13, 14, 15]"
    by code_simp
  have b0: "map (\<lambda>q. map W (X_1) ! (0 * 16 + q)) [0..<16] = map W X_1"
    using block_words [of X_1 "[]" 0 "[]"] len by simp
  have s0: "MD5_IterateFunc (map W X_1) (md5_ints (1732584193, 4023233417, 2562383102, 271733878) l) = md5_ints
      (970722017, 2874784329, 1474320062, 1049104370) l" for l
    using MD5_block_ints [OF rounds_1 len(1)] by simp
  have "fold (\<lambda>i. MD5_IterateFunc (map (\<lambda>q. map W (X_1) ! (i * 16 + q)) [0..<16])) [0..<1] (md5_ints
      md5_start l) = md5_ints (970722017, 2874784329, 1474320062, 1049104370) l" for l
    unfolding upt_small fold_simps b0 s0 ..
  from MD5_Encode_ints [OF _ _ pad _ this, unfolded up words_1]
  show ?thesis by (simp add: MD5_Format_ints le_bytes_def uchar_def upt_small(3))
qed

definition X_2 :: "int list" where
  "X_2 = [825833527, 8401714, 0, 0, 0, 0, 0, 0, 0, 0, 0, 0, 0, 0, 48, 0]"

lemma X_2_nth:
  "X_2 ! 0 = 825833527" "X_2 ! Suc 0 = 8401714" "X_2 ! 2 = 0" "X_2 ! 3 = 0"
  "X_2 ! 4 = 0" "X_2 ! 5 = 0" "X_2 ! 6 = 0" "X_2 ! 7 = 0"
  "X_2 ! 8 = 0" "X_2 ! 9 = 0" "X_2 ! 10 = 0" "X_2 ! 11 = 0"
  "X_2 ! 12 = 0" "X_2 ! 13 = 0" "X_2 ! 14 = 48" "X_2 ! 15 = 0"
  by (simp_all add: X_2_def)

lemma rounds_2_0: "fold (round_ints X_2) [0, 1, 2, 3, 4, 5, 6, 7, 8, 9, 10, 11, 12, 13, 14, 15] (1732584193, 4023233417,
    2562383102, 271733878) = (980986886, 600146236, 1688575539, 4239451165)"
  by (simp add: run_simps X_2_nth)

lemma rounds_2_1: "fold (round_ints X_2) [16, 17, 18, 19, 20, 21, 22, 23, 24, 25, 26, 27, 28, 29, 30, 31] (980986886,
    600146236, 1688575539, 4239451165) = (233998685, 3495325202, 3634628395, 164366454)"
  by (simp add: run_simps X_2_nth)

lemma rounds_2_2: "fold (round_ints X_2) [32, 33, 34, 35, 36, 37, 38, 39, 40, 41, 42, 43, 44, 45, 46, 47] (233998685,
    3495325202, 3634628395, 164366454) = (1332553295, 981925699, 4265375653, 2243929762)"
  by (simp add: run_simps X_2_nth)

lemma rounds_2_3: "fold (round_ints X_2) [48, 49, 50, 51, 52, 53, 54, 55, 56, 57, 58, 59, 60, 61, 62, 63] (1332553295,
    981925699, 4265375653, 2243929762) = (632808204, 2414330665, 2958330908, 1167724224)"
  by (simp add: run_simps X_2_nth)

lemma rounds_2: "fold (round_ints X_2) [0..<64] (1732584193, 4023233417, 2562383102, 271733878) = (632808204,
    2414330665, 2958330908, 1167724224)"
  by (simp only: sixty_four fold_append comp_apply rounds_2_0 rounds_2_1 rounds_2_2 rounds_2_3)

lemma bytes_2: "rfc_pad (map uchar ''789123'') = [55, 56, 57, 49, 50, 51, 128, 0, 0, 0, 0, 0, 0, 0, 0, 0, 0, 0, 0, 0, 0,
    0, 0, 0, 0, 0, 0, 0, 0, 0, 0, 0, 0, 0, 0, 0, 0, 0, 0, 0, 0, 0, 0, 0, 0, 0, 0, 0, 0, 0, 0, 0, 0, 0, 0, 0, 48, 0, 0,
    0, 0, 0, 0, 0]"
  by (simp add: rfc_pad_def le_bytes_def uchar_def replicate_numeral upt_eight)

lemma words_2: "map (rfc_word (rfc_pad (map uchar ''789123''))) [0, 1, 2, 3, 4, 5, 6, 7, 8, 9, 10, 11, 12, 13, 14, 15] =
    map W (X_2)"
  unfolding bytes_2 by (simp add: rfc_word_def W_def X_2_def)

lemma md5_test_2: "MD5_Encode (\<lambda>_. []) ''789123'' = ''0D06FD8CB26EB57F1A690F493663CC55''"
proof -
  have len: "length X_2 = 16"
    by (simp_all add: X_2_def)
  have pad: "length (rfc_pad (map uchar ''789123'')) = 64 * 1"
    unfolding bytes_2 by simp
  have up: "[0..<16 * 1] = [0, 1, 2, 3, 4, 5, 6, 7, 8, 9, 10, 11, 12, 13, 14, 15]"
    by code_simp
  have b0: "map (\<lambda>q. map W (X_2) ! (0 * 16 + q)) [0..<16] = map W X_2"
    using block_words [of X_2 "[]" 0 "[]"] len by simp
  have s0: "MD5_IterateFunc (map W X_2) (md5_ints (1732584193, 4023233417, 2562383102, 271733878) l) = md5_ints
      (2365392397, 2142596786, 1225746714, 1439458102) l" for l
    using MD5_block_ints [OF rounds_2 len(1)] by simp
  have "fold (\<lambda>i. MD5_IterateFunc (map (\<lambda>q. map W (X_2) ! (i * 16 + q)) [0..<16])) [0..<1] (md5_ints
      md5_start l) = md5_ints (2365392397, 2142596786, 1225746714, 1439458102) l" for l
    unfolding upt_small fold_simps b0 s0 ..
  from MD5_Encode_ints [OF _ _ pad _ this, unfolded up words_2]
  show ?thesis by (simp add: MD5_Format_ints le_bytes_def uchar_def upt_small(3))
qed

definition X_3 :: "int list" where
  "X_3 = [1919252337, 1769306484, 1935765615, 1751606884, 2053925738, 1651925880, 842100078, 909456435, 1899575351,
      1953654135, 1869182329, 1685283184, 1785227110, 2021289067, 1851946595, 858927469]"

lemma X_3_nth:
  "X_3 ! 0 = 1919252337" "X_3 ! Suc 0 = 1769306484" "X_3 ! 2 = 1935765615" "X_3 ! 3 = 1751606884"
  "X_3 ! 4 = 2053925738" "X_3 ! 5 = 1651925880" "X_3 ! 6 = 842100078" "X_3 ! 7 = 909456435"
  "X_3 ! 8 = 1899575351" "X_3 ! 9 = 1953654135" "X_3 ! 10 = 1869182329" "X_3 ! 11 = 1685283184"
  "X_3 ! 12 = 1785227110" "X_3 ! 13 = 2021289067" "X_3 ! 14 = 1851946595" "X_3 ! 15 = 858927469"
  by (simp_all add: X_3_def)

lemma rounds_3_0: "fold (round_ints X_3) [0, 1, 2, 3, 4, 5, 6, 7, 8, 9, 10, 11, 12, 13, 14, 15] (1732584193, 4023233417,
    2562383102, 271733878) = (1539020053, 2308819492, 597759767, 2567227138)"
  by (simp add: run_simps X_3_nth)

lemma rounds_3_1: "fold (round_ints X_3) [16, 17, 18, 19, 20, 21, 22, 23, 24, 25, 26, 27, 28, 29, 30, 31] (1539020053,
    2308819492, 597759767, 2567227138) = (22139605, 3649054795, 693013378, 2693229663)"
  by (simp add: run_simps X_3_nth)

lemma rounds_3_2: "fold (round_ints X_3) [32, 33, 34, 35, 36, 37, 38, 39, 40, 41, 42, 43, 44, 45, 46, 47] (22139605,
    3649054795, 693013378, 2693229663) = (170102207, 1173188250, 1955877725, 1751536044)"
  by (simp add: run_simps X_3_nth)

lemma rounds_3_3: "fold (round_ints X_3) [48, 49, 50, 51, 52, 53, 54, 55, 56, 57, 58, 59, 60, 61, 62, 63] (170102207,
    1173188250, 1955877725, 1751536044) = (3239218035, 3272219964, 4260515543, 1442505422)"
  by (simp add: run_simps X_3_nth)

lemma rounds_3: "fold (round_ints X_3) [0..<64] (1732584193, 4023233417, 2562383102, 271733878) = (3239218035,
    3272219964, 4260515543, 1442505422)"
  by (simp only: sixty_four fold_append comp_apply rounds_3_0 rounds_3_1 rounds_3_2 rounds_3_3)

definition X_3b :: "int list" where
  "X_3b = [926299444, 8403256, 0, 0, 0, 0, 0, 0, 0, 0, 0, 0, 0, 0, 560, 0]"

lemma X_3b_nth:
  "X_3b ! 0 = 926299444" "X_3b ! Suc 0 = 8403256" "X_3b ! 2 = 0" "X_3b ! 3 = 0"
  "X_3b ! 4 = 0" "X_3b ! 5 = 0" "X_3b ! 6 = 0" "X_3b ! 7 = 0"
  "X_3b ! 8 = 0" "X_3b ! 9 = 0" "X_3b ! 10 = 0" "X_3b ! 11 = 0"
  "X_3b ! 12 = 0" "X_3b ! 13 = 0" "X_3b ! 14 = 560" "X_3b ! 15 = 0"
  by (simp_all add: X_3b_def)

lemma rounds_3b_0: "fold (round_ints X_3b) [0, 1, 2, 3, 4, 5, 6, 7, 8, 9, 10, 11, 12, 13, 14, 15] (676834932,
    3000486085, 2527931349, 1714239300) = (890733267, 1211893244, 789372964, 3716080335)"
  by (simp add: run_simps X_3b_nth)

lemma rounds_3b_1: "fold (round_ints X_3b) [16, 17, 18, 19, 20, 21, 22, 23, 24, 25, 26, 27, 28, 29, 30, 31] (890733267,
    1211893244, 789372964, 3716080335) = (580287953, 2339074522, 977865439, 2740810572)"
  by (simp add: run_simps X_3b_nth)

lemma rounds_3b_2: "fold (round_ints X_3b) [32, 33, 34, 35, 36, 37, 38, 39, 40, 41, 42, 43, 44, 45, 46, 47] (580287953,
    2339074522, 977865439, 2740810572) = (202099186, 46519151, 3480913862, 3852913823)"
  by (simp add: run_simps X_3b_nth)

lemma rounds_3b_3: "fold (round_ints X_3b) [48, 49, 50, 51, 52, 53, 54, 55, 56, 57, 58, 59, 60, 61, 62, 63] (202099186,
    46519151, 3480913862, 3852913823) = (622963889, 1546667647, 2446682617, 2928257170)"
  by (simp add: run_simps X_3b_nth)

lemma rounds_3b: "fold (round_ints X_3b) [0..<64] (676834932, 3000486085, 2527931349, 1714239300) = (622963889,
    1546667647, 2446682617, 2928257170)"
  by (simp only: sixty_four fold_append comp_apply rounds_3b_0 rounds_3b_1 rounds_3b_2 rounds_3b_3)

lemma bytes_3: "rfc_pad (map uchar ''qwertyuiopasdfghjklzxcvbnm123456789qwertyuiopasdfghjklzxcvbnm123456789'') = [113,
    119, 101, 114, 116, 121, 117, 105, 111, 112, 97, 115, 100, 102, 103, 104, 106, 107, 108, 122, 120, 99, 118, 98, 110,
    109, 49, 50, 51, 52, 53, 54, 55, 56, 57, 113, 119, 101, 114, 116, 121, 117, 105, 111, 112, 97, 115, 100, 102, 103,
    104, 106, 107, 108, 122, 120, 99, 118, 98, 110, 109, 49, 50, 51, 52, 53, 54, 55, 56, 57, 128, 0, 0, 0, 0, 0, 0, 0,
    0, 0, 0, 0, 0, 0, 0, 0, 0, 0, 0, 0, 0, 0, 0, 0, 0, 0, 0, 0, 0, 0, 0, 0, 0, 0, 0, 0, 0, 0, 0, 0, 0, 0, 0, 0, 0, 0, 0,
    0, 0, 0, 48, 2, 0, 0, 0, 0, 0, 0]"
  by (simp add: rfc_pad_def le_bytes_def uchar_def replicate_numeral upt_eight)

lemma words_3: "map (rfc_word (rfc_pad (map uchar
    ''qwertyuiopasdfghjklzxcvbnm123456789qwertyuiopasdfghjklzxcvbnm123456789''))) [0, 1, 2, 3, 4, 5, 6, 7, 8, 9, 10, 11,
    12, 13, 14, 15, 16, 17, 18, 19, 20, 21, 22, 23, 24, 25, 26, 27, 28, 29, 30, 31] = map W (X_3 @ X_3b)"
  unfolding bytes_3 by (simp add: rfc_word_def W_def X_3_def X_3b_def)

lemma md5_test_3: "MD5_Encode (\<lambda>_. [])
    ''qwertyuiopasdfghjklzxcvbnm123456789qwertyuiopasdfghjklzxcvbnm123456789'' = ''255B794D440F080FCE958228D6DFB614''"
proof -
  have len: "length X_3 = 16" "length X_3b = 16"
    by (simp_all add: X_3_def X_3b_def)
  have pad: "length (rfc_pad (map uchar ''qwertyuiopasdfghjklzxcvbnm123456789qwertyuiopasdfghjklzxcvbnm123456789'')) = 64 * 2"
    unfolding bytes_3 by simp
  have up: "[0..<16 * 2] = [0, 1, 2, 3, 4, 5, 6, 7, 8, 9, 10, 11, 12, 13, 14, 15, 16, 17, 18, 19, 20, 21, 22, 23, 24,
      25, 26, 27, 28, 29, 30, 31]"
    by code_simp
  have b0: "map (\<lambda>q. map W (X_3 @ X_3b) ! (0 * 16 + q)) [0..<16] = map W X_3"
    using block_words [of X_3 "[]" 0 "X_3b"] len by simp
  have s0: "MD5_IterateFunc (map W X_3) (md5_ints (1732584193, 4023233417, 2562383102, 271733878) l) = md5_ints
      (676834932, 3000486085, 2527931349, 1714239300) l" for l
    using MD5_block_ints [OF rounds_3 len(1)] by simp
  have b1: "map (\<lambda>q. map W (X_3 @ X_3b) ! (1 * 16 + q)) [0..<16] = map W X_3b"
    using block_words [of X_3b "X_3" 1 "[]"] len by simp
  have s1: "MD5_IterateFunc (map W X_3b) (md5_ints (676834932, 3000486085, 2527931349, 1714239300) l) = md5_ints
      (1299798821, 252186436, 679646670, 347529174) l" for l
    using MD5_block_ints [OF rounds_3b len(2)] by simp
  have "fold (\<lambda>i. MD5_IterateFunc (map (\<lambda>q. map W (X_3 @ X_3b) ! (i * 16 + q)) [0..<16])) [0..<2]
      (md5_ints md5_start l) = md5_ints (1299798821, 252186436, 679646670, 347529174) l" for l
    unfolding upt_small fold_simps b0 b1 s0 s1 ..
  from MD5_Encode_ints [OF _ _ pad _ this, unfolded up words_3]
  show ?thesis by (simp add: MD5_Format_ints le_bytes_def uchar_def upt_small(3))
qed

text \<open>The test of the class: the three vectors.\<close>

lemma md5_test_vectors:
  "MD5_Encode (\<lambda>_. []) ''123456'' = ''E10ADC3949BA59ABBE56E057F20F883E'' \<and>
   MD5_Encode (\<lambda>_. []) ''789123'' = ''0D06FD8CB26EB57F1A690F493663CC55'' \<and>
   MD5_Encode (\<lambda>_. []) ''qwertyuiopasdfghjklzxcvbnm123456789qwertyuiopasdfghjklzxcvbnm123456789'' =
     ''255B794D440F080FCE958228D6DFB614''"
  by (simp only: md5_test_1 md5_test_2 md5_test_3 simp_thms)

end
