(* ===== verification/Decimal.thy ===== *)
theory Decimal
  imports Prelude
begin

text \<open>
  Decimal numbers as the C and C++ libraries print and read them: \<open>std::to_string\<close> and
  \<open>operator<<\<close> on integers, \<open>strtol\<close> in base 10 with its saturation at 64 bits, and
  the zero-padded fields of \<open>strftime\<close>; and doubles as far as the program converts them.
\<close>

definition digit :: "nat \<Rightarrow> char" where
  "digit n = char_of (48 + n)"

definition is_digit :: "char \<Rightarrow> bool" where
  "is_digit c \<longleftrightarrow> 48 \<le> uchar c \<and> uchar c \<le> 57"

definition digit_val :: "char \<Rightarrow> nat" where
  "digit_val c = uchar c - 48"

fun dec :: "nat \<Rightarrow> string" where
  "dec n = (if n < 10 then [digit n] else dec (n div 10) @ [digit (n mod 10)])"

declare dec.simps [simp del]

definition dec_int :: "int \<Rightarrow> string" where
  "dec_int i = (if i < 0 then CHR ''-'' # dec (nat (- i)) else dec (nat i))"

definition dec_val :: "string \<Rightarrow> nat" where
  "dec_val s = foldl (\<lambda>a c. a * 10 + digit_val c) 0 s"

text \<open>The white space of \<open>isspace\<close> in the C locale.\<close>

definition is_space :: "char \<Rightarrow> bool" where
  "is_space c \<longleftrightarrow> uchar c = 32 \<or> (9 \<le> uchar c \<and> uchar c \<le> 13)"

definition strtol :: "string \<Rightarrow> int" where
  "strtol s =
     (let t = dropWhile is_space s;
          neg = (case t of [] \<Rightarrow> False | c # _ \<Rightarrow> c = CHR ''-'');
          u = (case t of [] \<Rightarrow> [] | c # r \<Rightarrow> if c = CHR ''-'' \<or> c = CHR ''+'' then r else t);
          v = int (dec_val (takeWhile is_digit u))
      in if neg then max (- (2 ^ 63)) (- v) else min (2 ^ 63 - 1) v)"

section \<open>Doubles\<close>

text \<open>A double by its exact value: sign, mantissa and binary exponent.\<close>

datatype dbl = Finite bool nat int | Infinite bool | NotANumber

fun ilog2 :: "nat \<Rightarrow> nat" where
  "ilog2 n = (if n < 2 then 0 else Suc (ilog2 (n div 2)))"

declare ilog2.simps [simp del]

text \<open>The quotient rounded to the nearest integer, to the even one in the middle.\<close>

definition round_div :: "nat \<Rightarrow> nat \<Rightarrow> nat" where
  "round_div a b =
     (let q = a div b; r = a mod b in if 2 * r > b \<or> (2 * r = b \<and> odd q) then q + 1 else q)"

text \<open>An integer rounded to the 53 bits of a double.\<close>

definition to_double :: "nat \<Rightarrow> nat" where
  "to_double n = (let e = ilog2 n - 52 in round_div n (2 ^ e) * 2 ^ e)"

definition double_of_int :: "int \<Rightarrow> dbl" where
  "double_of_int i = Finite (i < 0) (to_double (nat \<bar>i\<bar>)) 0"

text \<open>\<open>std::to_string\<close>, six decimals.\<close>

definition print_double :: "dbl \<Rightarrow> string" where
  "print_double d =
     (case d of
        Finite neg m e \<Rightarrow>
          (let k = (if 0 \<le> e then m * 2 ^ nat e * 10 ^ 6 else round_div (m * 10 ^ 6) (2 ^ nat (- e)));
               f = dec (k mod 10 ^ 6)
           in (if neg then ''-'' else []) @ dec (k div 10 ^ 6) @ ''.'' @ replicate (6 - length f) CHR ''0'' @ f)
      | Infinite neg \<Rightarrow> if neg then ''-inf'' else ''inf''
      | NotANumber \<Rightarrow> ''nan'')"

text \<open>\<open>static_cast<int>\<close>: the value cut towards zero, undefined when it does not fit.\<close>

definition int_of_double :: "dbl \<Rightarrow> int result" where
  "int_of_double d =
     (case d of
        Finite neg m e \<Rightarrow>
          (let q = int (if 0 \<le> e then m * 2 ^ nat e else m div 2 ^ nat (- e)); v = (if neg then - q else q)
           in if - (2 ^ 31) \<le> v \<and> v < 2 ^ 31 then Inr v else Inl SignedOverflow)
      | _ \<Rightarrow> Inl SignedOverflow)"

text \<open>A field of \<open>strftime\<close> of two or more digits.\<close>

definition pad2 :: "nat \<Rightarrow> string" where
  "pad2 n = (if n < 10 then CHR ''0'' # dec n else dec n)"

section \<open>Digits\<close>

lemma ilog2_bound: "0 < n \<Longrightarrow> n < 2 ^ k \<Longrightarrow> ilog2 n < k"
proof (induction n arbitrary: k rule: ilog2.induct)
  case (1 n)
  show ?case
  proof (cases "n < 2")
    case True
    then show ?thesis using 1(2,3) by (cases k) (auto simp: ilog2.simps [of n])
  next
    case False
    then obtain j where k: "k = Suc j" using 1(3) by (cases k) auto
    then have "ilog2 (n div 2) < j" using 1(1) [OF False, of j] 1(3) False by simp
    then show ?thesis using False k by (simp add: ilog2.simps [of n])
  qed
qed

lemma to_double_small: "n < 2 ^ 53 \<Longrightarrow> to_double n = n"
proof -
  assume n: "n < 2 ^ 53"
  have "ilog2 n \<le> 52"
  proof (cases "n = 0")
    case True
    then show ?thesis by (simp add: ilog2.simps)
  next
    case False
    then show ?thesis using ilog2_bound [OF _ n] by simp
  qed
  then show ?thesis by (simp add: to_double_def round_div_def)
qed

lemma int_of_double_of_int:
  assumes "- (2 ^ 31) \<le> i" "i < 2 ^ 31"
  shows "int_of_double (double_of_int i) = Inr i"
proof -
  have "nat \<bar>i\<bar> < 2 ^ 53" using assms by auto
  then show ?thesis using assms by (auto simp: int_of_double_def double_of_int_def to_double_small Let_def)
qed

lemma uchar_digit [simp]: "n < 10 \<Longrightarrow> uchar (digit n) = 48 + n"
  by (simp add: digit_def)

lemma digit_val_digit [simp]: "n < 10 \<Longrightarrow> digit_val (digit n) = n"
  by (simp add: digit_val_def)

lemma is_digit_digit [simp]: "n < 10 \<Longrightarrow> is_digit (digit n)"
  by (simp add: is_digit_def)

lemma dec_digits: "\<forall>c \<in> set (dec n). is_digit c"
  by (induction n rule: dec.induct) (subst dec.simps, auto)

lemma dec_nonempty [simp]: "dec n \<noteq> []"
  by (subst dec.simps) simp

lemma dec_val_dec [simp]: "dec_val (dec n) = n"
proof (induction n rule: dec.induct)
  case (1 n)
  then show ?case
    by (subst dec.simps) (auto simp: dec_val_def)
qed

lemma dec_inj: "dec m = dec n \<Longrightarrow> m = n"
  by (metis dec_val_dec)

lemma is_digit_not:
  "is_digit c \<Longrightarrow> \<not> is_space c"
  "is_digit c \<Longrightarrow> c \<noteq> CHR ''-''"
  "is_digit c \<Longrightarrow> c \<noteq> CHR ''+''"
  "is_digit c \<Longrightarrow> c \<noteq> CHR ''|''"
  by (auto simp: is_digit_def is_space_def uchar_def)

lemma strtol_digits:
  assumes "s \<noteq> []" and "\<forall>c \<in> set s. is_digit c"
  shows "strtol s = min (2 ^ 63 - 1) (int (dec_val s))"
proof -
  obtain c r where s: "s = c # r" using assms by (cases s) auto
  have "dropWhile is_space s = s" using assms by (simp add: s is_digit_not)
  moreover have "takeWhile is_digit r = r" using assms by (simp add: s takeWhile_eq_all_conv)
  then have "dec_val (c # takeWhile is_digit r) = dec_val (c # r)" by (simp only:)
  ultimately show ?thesis
    using assms is_digit_not [of c] unfolding strtol_def by (simp add: s)
qed

lemma strtol_dec: "n < 2 ^ 63 \<Longrightarrow> strtol (dec n) = int n"
  by (simp add: strtol_digits dec_digits min_def)

lemma strtol_Nil [simp]: "strtol [] = 0"
  by (simp add: strtol_def dec_val_def)

lemma strtol_range: "- (2 ^ 63) \<le> strtol s \<and> strtol s < 2 ^ 63"
  by (auto simp: strtol_def Let_def)

end
