(* ===== verification/Logger.thy ===== *)
theory Logger
  imports Decimal
begin

text \<open>
  The logger of \<^verbatim>\<open>src/include/util/logger.h\<close> and \<^verbatim>\<open>src/util/logger.cpp\<close>.  The file system is
  the map from file names to contents, the clock a function from the number of the reading to
  the broken-down time, so that every \<open>GetNowTime\<close> of the code is a reading of its own.
  The other components see a log as the list of the messages given to \<open>Logger::Log\<close>.
\<close>

section \<open>Clock\<close>

record tm =
  tm_sec :: nat
  tm_min :: nat
  tm_hour :: nat
  tm_mday :: nat
  tm_mon :: nat
  tm_year :: nat

definition strftime_date :: "tm \<Rightarrow> string" where
  "strftime_date t = dec (tm_year t + 1900) @ ''-'' @ pad2 (tm_mon t + 1) @ ''-'' @ pad2 (tm_mday t)"

definition strftime_X :: "tm \<Rightarrow> string" where
  "strftime_X t = pad2 (tm_hour t) @ '':'' @ pad2 (tm_min t) @ '':'' @ pad2 (tm_sec t)"

definition GetTimeStr :: "tm \<Rightarrow> string" where
  "GetTimeStr t = ''['' @ strftime_date t @ '' '' @ strftime_X t @ '']''"

definition log_base_dir :: string where
  "log_base_dir = ''./log/''"

definition GetFileNameByDate :: "tm \<Rightarrow> string" where
  "GetFileNameByDate t = log_base_dir @ strftime_date t @ ''.log''"

section \<open>State\<close>

text \<open>
  \<open>out_file\<close> is the file the stream is open on, \<open>failbit\<close> and \<open>badbit\<close> the state of the stream;
  \<open>tick\<close> counts the readings of the clock, \<open>cerr\<close> is what went to the standard error.
\<close>

record logger =
  today :: int
  out_file :: "string option"
  failbit :: bool
  badbit :: bool
  files :: "string \<rightharpoonup> string"
  tick :: nat
  cerr :: string

definition logger_init :: "(string \<rightharpoonup> string) \<Rightarrow> logger" where
  "logger_init fs = \<lparr>today = -1, out_file = None, failbit = False, badbit = False,
                     files = fs, tick = 0, cerr = ''''\<rparr>"

definition GetNowTime :: "(nat \<Rightarrow> tm) \<Rightarrow> logger \<Rightarrow> tm \<times> logger" where
  "GetNowTime clock l = (clock (tick l), l\<lparr>tick := Suc (tick l)\<rparr>)"

text \<open>\<open>ofstream::close\<close>: closing a stream that is not open sets the fail bit.\<close>

definition ofstream_close :: "logger \<Rightarrow> logger" where
  "ofstream_close l = (case out_file l of
       None \<Rightarrow> l\<lparr>failbit := True\<rparr>
     | Some _ \<Rightarrow> l\<lparr>out_file := None\<rparr>)"

text \<open>
  \<open>ofstream::open(name, ios::out)\<close>: it truncates the file and clears the stream's state when it
  succeeds, which \<open>can_open\<close> decides.
\<close>

definition ofstream_open :: "(string \<Rightarrow> bool) \<Rightarrow> string \<Rightarrow> logger \<Rightarrow> logger" where
  "ofstream_open can_open name l =
     (if out_file l = None \<and> can_open name
      then l\<lparr>out_file := Some name, failbit := False, badbit := False, files := (files l)(name \<mapsto> [])\<rparr>
      else l\<lparr>failbit := True\<rparr>)"

definition ofstream_put :: "string \<Rightarrow> logger \<Rightarrow> logger" where
  "ofstream_put s l = (case out_file l of
       None \<Rightarrow> l\<lparr>badbit := badbit l \<or> \<not> failbit l\<rparr>
     | Some name \<Rightarrow>
         if failbit l \<or> badbit l then l
         else l\<lparr>files := (files l)(name \<mapsto> (case files l name of None \<Rightarrow> [] | Some c \<Rightarrow> c) @ s)\<rparr>)"

section \<open>Operations\<close>

definition log_line :: "tm \<Rightarrow> string \<Rightarrow> string" where
  "log_line t s = GetTimeStr t @ '' '' @ s @ [CHR 0x0A]"

definition Log_write :: "(nat \<Rightarrow> tm) \<Rightarrow> string \<Rightarrow> logger \<Rightarrow> logger" where
  "Log_write clock s l =
     (let (t, l) = GetNowTime clock l in
      if badbit l
      then l\<lparr>cerr := cerr l @ GetTimeStr t @ '' output stream bad, Log failed!'' @ [CHR 0x0A]\<rparr>
      else ofstream_put (log_line t s) l)"

text \<open>
  \<open>Logger::Log\<close>.  Opening the file of a new day logs a line of its own through
  \<open>Logger::System\<close>, a recursive call that reads the clock again: the recursion ends only if two
  readings in a row show the same day, so the definition is partial.
\<close>

partial_function (option) Log :: "(nat \<Rightarrow> tm) \<Rightarrow> (string \<Rightarrow> bool) \<Rightarrow> string \<Rightarrow> logger \<Rightarrow> logger option" where
  "Log clock can_open s l =
     (let (t1, l1) = GetNowTime clock l in
      if today l1 \<noteq> int (tm_mday t1) then
        (let (t2, l2) = GetNowTime clock l1;
             l3 = ofstream_close (l2\<lparr>today := int (tm_mday t2)\<rparr>);
             (t3, l4) = GetNowTime clock l3;
             l5 = ofstream_open can_open (GetFileNameByDate t3) l4
         in Option.bind (Log clock can_open (''SYSTEM  | '' @ ''defined LOGGER_CLEAR_FILE_AT_START'') l5)
              (\<lambda>l6. Some (Log_write clock s l6)))
      else Some (Log_write clock s l1))"

definition Logger_System where "Logger_System s = ''SYSTEM  | '' @ s"
definition Logger_Info where "Logger_Info s = ''INFO    | '' @ s"
definition Logger_Warning where "Logger_Warning s = ''WARNING | '' @ s"
definition Logger_Error where "Logger_Error s = ''ERROR   | '' @ s"

text \<open>\<open>Logger::Error(s, code)\<close> logs and leaves the process with the exit code.\<close>

definition Logger_Error_exit :: "(nat \<Rightarrow> tm) \<Rightarrow> (string \<Rightarrow> bool) \<Rightarrow> string \<Rightarrow> int \<Rightarrow> logger \<Rightarrow> (logger \<times> int) option" where
  "Logger_Error_exit clock can_open s code l =
     Option.bind (Log clock can_open (''ERROR   | '' @ s @ '' exit: '' @ dec_int code) l)
       (\<lambda>l'. Some (l', code))"

definition Logger_destroy :: "logger \<Rightarrow> logger" where
  "Logger_destroy l = (if out_file l \<noteq> None then ofstream_close l else l)"

fun Log_all :: "(nat \<Rightarrow> tm) \<Rightarrow> (string \<Rightarrow> bool) \<Rightarrow> string list \<Rightarrow> logger \<Rightarrow> logger option" where
  "Log_all clock can_open [] l = Some l"
| "Log_all clock can_open (s # ss) l =
     Option.bind (Log clock can_open s l) (Log_all clock can_open ss)"

section \<open>One message\<close>

lemma GetNowTime_simps [simp]: "GetNowTime clock l = (clock (tick l), l\<lparr>tick := Suc (tick l)\<rparr>)"
  by (simp add: GetNowTime_def)

text \<open>A logger whose stream is open and good on the file \<open>name\<close>, with the content \<open>c\<close>.\<close>

definition writing :: "string \<Rightarrow> string \<Rightarrow> logger \<Rightarrow> bool" where
  "writing name c l \<longleftrightarrow> out_file l = Some name \<and> \<not> failbit l \<and> \<not> badbit l \<and> files l name = Some c"

lemma Log_write_writing:
  assumes "writing name c l"
  shows "writing name (c @ log_line (clock (tick l)) s) (Log_write clock s l)"
    and "tick (Log_write clock s l) = Suc (tick l)" and "today (Log_write clock s l) = today l"
  using assms by (auto simp: writing_def Log_write_def ofstream_put_def)

lemma Log_write_others:
  "writing name c l \<Longrightarrow> k \<noteq> name \<Longrightarrow> files (Log_write clock s l) k = files l k"
  by (auto simp: writing_def Log_write_def ofstream_put_def)

lemma Log_same_day:
  "today l = int (tm_mday (clock (tick l))) \<Longrightarrow>
     Log clock can_open s l = Some (Log_write clock s (l\<lparr>tick := Suc (tick l)\<rparr>))"
  by (subst Log.simps) simp

text \<open>The state after the stream has moved to the file of the day.\<close>

definition rolled :: "(nat \<Rightarrow> tm) \<Rightarrow> (string \<Rightarrow> bool) \<Rightarrow> logger \<Rightarrow> logger" where
  "rolled clock can_open l =
     ofstream_open can_open (GetFileNameByDate (clock (tick l + 2)))
       ((ofstream_close (l\<lparr>today := int (tm_mday (clock (tick l + 1)))\<rparr>))\<lparr>tick := tick l + 3\<rparr>)"

lemma Log_new_day:
  assumes "today l \<noteq> int (tm_mday (clock (tick l)))"
  shows "Log clock can_open s l =
     Option.bind (Log clock can_open (''SYSTEM  | '' @ ''defined LOGGER_CLEAR_FILE_AT_START'') (rolled clock can_open l))
       (\<lambda>l'. Some (Log_write clock s l'))"
proof -
  have "ofstream_close (l\<lparr>tick := t, today := d\<rparr>) = (ofstream_close (l\<lparr>today := d\<rparr>))\<lparr>tick := t\<rparr>" for t d
    by (simp add: ofstream_close_def split: option.split)
  with assms show ?thesis
    by (subst Log.simps) (simp add: rolled_def numeral_eq_Suc)
qed

lemma rolled_simps [simp]:
  "tick (rolled clock can_open l) = tick l + 3"
  "today (rolled clock can_open l) = int (tm_mday (clock (tick l + 1)))"
  by (auto simp: rolled_def ofstream_open_def ofstream_close_def split: option.splits)

lemma rolled_writing:
  assumes "can_open (GetFileNameByDate (clock (tick l + 2)))"
  shows "writing (GetFileNameByDate (clock (tick l + 2))) [] (rolled clock can_open l)"
    and "k \<noteq> GetFileNameByDate (clock (tick l + 2)) \<Longrightarrow> files (rolled clock can_open l) k = files l k"
  using assms
  by (auto simp: rolled_def writing_def ofstream_open_def ofstream_close_def split: option.splits)

lemma Log_returns:
  assumes "\<And>n. tick l < n \<Longrightarrow> tm_mday (clock n) = d"
  shows "\<exists>l'. Log clock can_open s l = Some l'"
proof (cases "today l = int (tm_mday (clock (tick l)))")
  case True
  then show ?thesis by (simp add: Log_same_day)
next
  case False
  have "today (rolled clock can_open l) = int (tm_mday (clock (tick (rolled clock can_open l))))"
    using assms [of "tick l + 1"] assms [of "tick l + 3"] by simp
  from Log_same_day [of "rolled clock can_open l" clock, OF this] show ?thesis
    using False by (simp add: Log_new_day)
qed

section \<open>A run of messages\<close>

text \<open>The lines of messages logged on one day, the first at reading \<open>n\<close>: each message takes two readings.\<close>

fun lines_from :: "(nat \<Rightarrow> tm) \<Rightarrow> nat \<Rightarrow> string list \<Rightarrow> string" where
  "lines_from clock n [] = []"
| "lines_from clock n (s # ss) = log_line (clock (Suc n)) s @ lines_from clock (n + 2) ss"

lemma Log_all_writing:
  assumes "writing name c l" "today l = int d" "\<And>n. tick l \<le> n \<Longrightarrow> tm_mday (clock n) = d"
  shows "\<exists>l'. Log_all clock can_open ss l = Some l' \<and>
     writing name (c @ lines_from clock (tick l) ss) l' \<and> (\<forall>k. k \<noteq> name \<longrightarrow> files l' k = files l k)"
  using assms
proof (induction ss arbitrary: c l)
  case Nil
  then show ?case by simp
next
  case (Cons s ss)
  define l1 where "l1 = l\<lparr>tick := Suc (tick l)\<rparr>"
  have w: "writing name c l1" using Cons.prems(1) by (simp add: writing_def l1_def)
  have step: "Log clock can_open s l = Some (Log_write clock s l1)"
    unfolding l1_def using Cons.prems by (intro Log_same_day) simp
  note W = Log_write_writing [OF w, of clock s]
  have t: "tick (Log_write clock s l1) = tick l + 2" by (simp only: W) (simp add: l1_def)
  obtain l' where "Log_all clock can_open ss (Log_write clock s l1) = Some l'"
    "writing name (c @ log_line (clock (tick l1)) s @ lines_from clock (tick l + 2) ss) l'"
    "\<forall>k. k \<noteq> name \<longrightarrow> files l' k = files (Log_write clock s l1) k"
    using Cons.IH [OF W(1)] Cons.prems(2,3) W(3) t by (auto simp: l1_def)
  moreover have "\<forall>k. k \<noteq> name \<longrightarrow> files (Log_write clock s l1) k = files l k"
    using Log_write_others [OF w] by (simp add: l1_def)
  ultimately show ?case by (simp add: step l1_def)
qed

text \<open>
  C38: A logger that starts (its stream not yet open), can open the file of the day and sees one
  calendar day only, logs any sequence of messages: the file then holds the line about the cleared
  file and one line for each message, in order, with the time of its own clock reading; whatever
  the file held before the start is lost, and no other file is touched.
\<close>

theorem logger_fresh_run:
  assumes "\<And>n. tm_mday (clock n) = d"
    and "name = GetFileNameByDate (clock 2)" "can_open name"
  shows "\<exists>l'. Log_all clock can_open (s # ss) (logger_init fs) = Some l' \<and>
     files l' = fs(name \<mapsto>
        log_line (clock 4) (Logger_System ''defined LOGGER_CLEAR_FILE_AT_START'') @
        log_line (clock 5) s @ lines_from clock 6 ss)"
proof -
  define l0 where "l0 = logger_init fs"
  define l1 where "l1 = rolled clock can_open l0"
  define sys where "sys = ''SYSTEM  | '' @ ''defined LOGGER_CLEAR_FILE_AT_START''"
  have z: "tick l0 = 0" "today l0 = -1" "files l0 = fs" by (simp_all add: l0_def logger_init_def)
  have t1: "tick l1 = 3" "today l1 = int d" by (simp_all add: l1_def z assms)
  have w1: "writing name [] l1"
    using rolled_writing(1) [of can_open clock l0] assms(2,3) by (simp add: l1_def z numeral_eq_Suc)
  have f1: "k \<noteq> name \<Longrightarrow> files l1 k = fs k" for k
    using rolled_writing(2) [of can_open clock l0 k] assms(2,3) by (simp add: l1_def z numeral_eq_Suc)
  define l2 where "l2 = Log_write clock sys (l1\<lparr>tick := 4\<rparr>)"
  have w1': "writing name [] (l1\<lparr>tick := 4\<rparr>)" using w1 by (simp add: writing_def)
  note W2 = Log_write_writing [OF w1', of clock sys, folded l2_def]
  define l3 where "l3 = Log_write clock s l2"
  note W3 = Log_write_writing [OF W2(1), of clock s, folded l3_def]
  have "Log clock can_open sys l1 = Some l2"
    using Log_same_day [of l1 clock can_open sys] t1 assms(1) by (simp add: l2_def)
  then have "Log clock can_open s l0 = Some l3"
    using Log_new_day [of l0 clock can_open s] assms(1) z by (simp add: l3_def sys_def flip: l1_def)
  moreover obtain l' where "Log_all clock can_open ss l3 = Some l'"
    "writing name (log_line (clock 4) sys @ log_line (clock 5) s @ lines_from clock 6 ss) l'"
    "\<forall>k. k \<noteq> name \<longrightarrow> files l' k = files l3 k"
    using Log_all_writing [OF W3(1), of d clock can_open ss] assms(1) W2 W3 t1 by auto
  moreover have "files l3 k = fs k" if "k \<noteq> name" for k
    using that Log_write_others [OF W2(1)] Log_write_others [OF w1'] f1
    by (simp add: l3_def l2_def)
  ultimately show ?thesis
    by (auto simp: Logger_System_def sys_def l0_def writing_def intro!: ext)
qed

theorem logger_fresh_run_witness:
  "\<exists>l'. Log_all (\<lambda>_. \<lparr>tm_sec = 1, tm_min = 2, tm_hour = 3, tm_mday = 4, tm_mon = 5, tm_year = 123\<rparr>)
      (\<lambda>n. n = ''./log/2023-06-04.log'') [''hello'', ''world''] (logger_init [''./log/2023-06-04.log'' \<mapsto> ''old'']) = Some l' \<and>
      files l' = [''./log/2023-06-04.log'' \<mapsto>
         ''[2023-06-04 03:02:01] SYSTEM  | defined LOGGER_CLEAR_FILE_AT_START'' @ [CHR 0x0A] @
         ''[2023-06-04 03:02:01] hello'' @ [CHR 0x0A] @ ''[2023-06-04 03:02:01] world'' @ [CHR 0x0A]]"
proof -
  define t :: tm where "t = \<lparr>tm_sec = 1, tm_min = 2, tm_hour = 3, tm_mday = 4, tm_mon = 5, tm_year = 123\<rparr>"
  have "GetFileNameByDate t = ''./log/2023-06-04.log''" by (simp add: t_def) code_simp
  moreover have "GetTimeStr t = ''[2023-06-04 03:02:01]''" by (simp add: t_def) code_simp
  ultimately show ?thesis
    using logger_fresh_run [of "\<lambda>_. t" 4 "''./log/2023-06-04.log''" "\<lambda>n. n = ''./log/2023-06-04.log''"
      "''hello''" "[''world'']" "[''./log/2023-06-04.log'' \<mapsto> ''old'']"]
    by (simp add: t_def log_line_def Logger_System_def)
qed

text \<open>
  The roll-over compares the day of the month only.  When the logger next writes on the same
  day of another month (or year), it goes on in the file of the old date, and the file named after
  the current date is not created.
\<close>

lemma logger_month_ignored:
  assumes "writing name c l" "today l = int (tm_mday (clock (tick l)))"
    and "GetFileNameByDate (clock (tick l)) \<noteq> name"
  shows "\<exists>l'. Log clock can_open s l = Some l' \<and>
     files l' name = Some (c @ log_line (clock (Suc (tick l))) s) \<and>
     files l' (GetFileNameByDate (clock (tick l))) = files l (GetFileNameByDate (clock (tick l)))"
proof -
  have w: "writing name c (l\<lparr>tick := Suc (tick l)\<rparr>)" using assms(1) by (simp add: writing_def)
  show ?thesis
    using Log_same_day [of l clock can_open s] assms(2) Log_write_writing(1) [OF w, of clock s]
      Log_write_others [OF w assms(3), of clock s]
    by (simp add: writing_def)
qed

lemma logger_month_ignored_witness:
  "\<exists>l'. Log (\<lambda>_. \<lparr>tm_sec = 0, tm_min = 0, tm_hour = 0, tm_mday = 4, tm_mon = 6, tm_year = 123\<rparr>) (\<lambda>_. True) ''hi''
     \<lparr>today = 4, out_file = Some ''./log/2023-06-04.log'', failbit = False, badbit = False,
      files = [''./log/2023-06-04.log'' \<mapsto> ''''], tick = 0, cerr = ''''\<rparr> = Some l' \<and>
     files l' ''./log/2023-06-04.log'' = Some (''[2023-07-04 00:00:00] hi'' @ [CHR 0x0A]) \<and>
     files l' ''./log/2023-07-04.log'' = None"
proof -
  define t :: tm where "t = \<lparr>tm_sec = 0, tm_min = 0, tm_hour = 0, tm_mday = 4, tm_mon = 6, tm_year = 123\<rparr>"
  have "GetFileNameByDate t = ''./log/2023-07-04.log''" by (simp add: t_def) code_simp
  moreover have "GetTimeStr t = ''[2023-07-04 00:00:00]''" by (simp add: t_def) code_simp
  ultimately show ?thesis
    using logger_month_ignored [of "''./log/2023-06-04.log''" "''''"
      "\<lparr>today = 4, out_file = Some ''./log/2023-06-04.log'', failbit = False, badbit = False,
        files = [''./log/2023-06-04.log'' \<mapsto> ''''], tick = 0, cerr = ''''\<rparr>" "\<lambda>_. t" "\<lambda>_. True" "''hi''"]
    by (simp add: t_def log_line_def writing_def)
qed

text \<open>
  Logging returns whenever the clock shows the same day from the second reading on, whatever
  the state of the stream and the file system.
\<close>

lemma logger_returns:
  assumes "\<And>n. tick l < n \<Longrightarrow> tm_mday (clock n) = d"
  shows "\<exists>l'. Log clock can_open s l = Some l'"
  using assms by (rule Log_returns)

lemma logger_returns_witness:
  "\<exists>l'. Log (\<lambda>n. \<lparr>tm_sec = 0, tm_min = 0, tm_hour = 0, tm_mday = (if n = 0 then 4 else 5), tm_mon = 6, tm_year = 123\<rparr>)
     (\<lambda>_. False) ''hi'' (logger_init Map.empty) = Some l'"
  by (rule logger_returns [where d = 5]) (simp add: logger_init_def)

end
