(* ===== verification/Token.thy ===== *)
theory Token
  imports Base64 MD5_Spec Logger "HOL-Library.Sublist"
begin

text \<open>
  \<^verbatim>\<open>src/util/token.cpp\<close>: the session token, a user and an expiry time behind an MD5 checksum, XORed
  with a repeated key and encoded in Base64.  Time points are nanoseconds since the epoch in 64
  bits.  The time zone of the host is a parameter: \<open>localtime\<close> and \<open>mktime\<close> between seconds
  since the epoch and broken-down time.
\<close>

section \<open>The cipher\<close>

definition kTokenKey :: string where
  "kTokenKey = ''calabash_token_password''"

definition xor_char :: "char \<Rightarrow> char \<Rightarrow> char" where
  "xor_char a b = char_of (uchar a XOR uchar b)"

text \<open>The loop of both directions; an empty key makes it divide by zero after its first step.\<close>

fun xor_loop :: "string \<Rightarrow> nat \<Rightarrow> string \<Rightarrow> string result" where
  "xor_loop key i [] = Inr []"
| "xor_loop key i (c # cs) =
     (if key = [] then Inl DivByZero
      else res_map (Cons (xor_char c (key ! i))) (xor_loop key ((i + 1) mod length key) cs))"

section \<open>Time\<close>

record broken_time =
  bt_year :: int
  bt_mon :: int
  bt_mday :: int
  bt_hour :: int
  bt_min :: int
  bt_sec :: int

definition broken_of :: "tm \<Rightarrow> broken_time" where
  "broken_of t = \<lparr>bt_year = int (tm_year t), bt_mon = int (tm_mon t), bt_mday = int (tm_mday t),
     bt_hour = int (tm_hour t), bt_min = int (tm_min t), bt_sec = int (tm_sec t)\<rparr>"

definition put_time :: "tm \<Rightarrow> string" where
  "put_time t = ''|'' @ strftime_date t @ '' '' @ strftime_X t"

text \<open>
  \<open>std::get_time\<close> on this format: each field has its number of digits and its range, the first
  field or separator that does not fit ends the reading, and the fields behind it stay zero.
\<close>

definition time_field :: "nat \<Rightarrow> nat \<Rightarrow> nat \<Rightarrow> string \<Rightarrow> nat option" where
  "time_field n a b s =
     (let d = take n s
      in if length d = n \<and> list_all is_digit d \<and> a \<le> dec_val d \<and> dec_val d \<le> b then Some (dec_val d) else None)"

fun read_fields :: "(nat \<times> nat \<times> nat \<times> string) list \<Rightarrow> string \<Rightarrow> nat list" where
  "read_fields [] s = []"
| "read_fields ((n, a, b, sep) # fs) s =
     (case time_field n a b s of
        None \<Rightarrow> []
      | Some v \<Rightarrow> v # (if prefix sep (drop n s) then read_fields fs (drop (n + length sep) s) else []))"

definition time_format :: "(nat \<times> nat \<times> nat \<times> string) list" where
  "time_format = [(4, 0, 9999, ''-''), (2, 1, 12, ''-''), (2, 1, 31, '' ''), (2, 0, 23, '':''), (2, 0, 59, '':''), (2, 0, 60, '''')]"

definition get_time :: "string \<Rightarrow> broken_time" where
  "get_time s =
     (let vs = read_fields time_format s; f = (\<lambda>i off. if i < length vs then int (vs ! i) - off else 0)
      in \<lparr>bt_year = f 0 1900, bt_mon = f 1 1, bt_mday = f 2 0, bt_hour = f 3 0, bt_min = f 4 0, bt_sec = f 5 0\<rparr>)"

definition int64 :: "int \<Rightarrow> int result" where
  "int64 x = (if - (2 ^ 63) \<le> x \<and> x < 2 ^ 63 then Inr x else Inl SignedOverflow)"

definition nanos :: "int \<Rightarrow> int result" where
  "nanos s = int64 (s * 10 ^ 9)"

definition to_time_t :: "int \<Rightarrow> int" where
  "to_time_t t = (if t < 0 then - ((- t) div 10 ^ 9) else t div 10 ^ 9)"

section \<open>The token\<close>

record token =
  is_useful :: bool
  is_in_time :: bool
  user_id :: string
  end_time :: int

definition Token_default :: token where
  "Token_default = \<lparr>is_useful = False, is_in_time = False, user_id = '''', end_time = 0\<rparr>"

text \<open>The two constructors; \<open>stk\<close> is the stack behind the array of \<open>MD5::Format\<close>, \<open>now\<close> the clock.\<close>

definition Token_parse :: "(nat \<Rightarrow> string) \<Rightarrow> (broken_time \<Rightarrow> int) \<Rightarrow> int \<Rightarrow> string \<Rightarrow> string \<Rightarrow> token result" where
  "Token_parse stk mktime now tok key =
     res_bind (Base64_Decode tok) (\<lambda>pass.
     res_bind (xor_loop key 0 pass) (\<lambda>str.
     if length str \<le> 32 then Inr Token_default
     else if take 32 str \<noteq> MD5_Encode stk (drop 32 str) then Inr Token_default
     else
       (let i = 32 + length (takeWhile (\<lambda>c. c \<noteq> CHR ''|'') (drop 32 str)) in
        if i = length str then Inr Token_default
        else
          res_bind (nanos (mktime (get_time (drop (i + 1) str)))) (\<lambda>e.
          Inr \<lparr>is_useful = True, is_in_time = (now \<le> e), user_id = take (i - 32) (drop 32 str), end_time = e\<rparr>))))"

definition Token_new :: "string \<Rightarrow> int \<Rightarrow> int \<Rightarrow> int \<Rightarrow> token result" where
  "Token_new user effective_time now1 now2 =
     res_bind (nanos effective_time) (\<lambda>d.
     res_bind (int64 (now1 + d)) (\<lambda>e.
     Inr \<lparr>is_useful = True, is_in_time = (now2 \<le> e), user_id = user, end_time = e\<rparr>))"

definition Token_ToString :: "(nat \<Rightarrow> string) \<Rightarrow> (int \<Rightarrow> tm) \<Rightarrow> token \<Rightarrow> string" where
  "Token_ToString stk localtime t =
     (if \<not> is_useful t then ''''
      else (let payload = user_id t @ put_time (localtime (to_time_t (end_time t))) in MD5_Encode stk payload @ payload))"

definition Token_Encode :: "(nat \<Rightarrow> string) \<Rightarrow> (int \<Rightarrow> tm) \<Rightarrow> string \<Rightarrow> token \<Rightarrow> string result" where
  "Token_Encode stk localtime key t = res_bind (xor_loop key 0 (Token_ToString stk localtime t)) Base64_Encode"

section \<open>The cipher is a codec\<close>

lemma xor_nat_less:
  fixes x y :: nat
  assumes "x < 2 ^ n" "y < 2 ^ n"
  shows "x XOR y < 2 ^ n"
proof -
  have "take_bit n x = x" "take_bit n y = y" using assms by (simp_all add: take_bit_nat_eq_self)
  then have "take_bit n (x XOR y) = x XOR y" by simp
  then show ?thesis using take_bit_nat_less_exp [of n "x XOR y"] by (simp only:)
qed

lemma uchar_xor_char [simp]: "uchar (xor_char a b) = uchar a XOR uchar b"
proof -
  have "uchar a XOR uchar b < 2 ^ 8" by (rule xor_nat_less) simp_all
  then show ?thesis by (simp add: xor_char_def)
qed

lemma xor_char_cancel [simp]:
  "xor_char (xor_char a b) b = a" "xor_char a (xor_char a b) = b"
  by (simp_all add: xor_char_def [of "xor_char a b"] xor_char_def [of a "xor_char a b"] ac_simps flip: xor.assoc)

lemma xor_char_ascii: "uchar a < 128 \<Longrightarrow> uchar b < 128 \<Longrightarrow> uchar (xor_char a b) < 128"
  using xor_nat_less [of "uchar a" 7 "uchar b"] by simp

text \<open>With a key the loop is the pointwise XOR with the repeated key.\<close>

definition key_stream :: "string \<Rightarrow> nat \<Rightarrow> nat \<Rightarrow> string" where
  "key_stream key i n = map (\<lambda>j. key ! ((i + j) mod length key)) [0..<n]"

lemma key_stream_Suc:
  "key_stream key i (Suc n) = key ! (i mod length key) # key_stream key ((i + 1) mod length key) n"
  by (simp add: key_stream_def map_upt_Suc mod_add_left_eq del: upt_Suc)

lemma xor_loop_stream:
  "key \<noteq> [] \<Longrightarrow> i < length key \<Longrightarrow> xor_loop key i s = Inr (map2 xor_char s (key_stream key i (length s)))"
proof (induction s arbitrary: i)
  case Nil
  then show ?case by (simp add: key_stream_def)
next
  case (Cons c cs)
  then show ?case using Cons.IH [of "(i + 1) mod length key"] by (simp add: key_stream_Suc)
qed

lemma xor_loop_ok: "key \<noteq> [] \<Longrightarrow> xor_loop key 0 s = Inr (map2 xor_char s (key_stream key 0 (length s)))"
  by (simp add: xor_loop_stream)

lemma length_key_stream [simp]: "length (key_stream key i n) = n"
  by (simp add: key_stream_def)

lemma ascii_key_stream: "key \<noteq> [] \<Longrightarrow> ascii key \<Longrightarrow> ascii (key_stream key i n)"
  by (auto simp: ascii_def key_stream_def)

lemma map2_xor_cancel [simp]:
  "length s = length k \<Longrightarrow> map2 xor_char (map2 xor_char s k) k = s"
  by (induction s k rule: list_induct2) simp_all

lemma ascii_map2_xor: "ascii s \<Longrightarrow> ascii k \<Longrightarrow> ascii (map2 xor_char s k)"
proof (induction s arbitrary: k)
  case (Cons c cs)
  then show ?case by (cases k) (auto simp del: uchar_xor_char intro: xor_char_ascii)
qed simp

text \<open>XOR with an ASCII key is a codec, and Base64 around it is one.\<close>

lemma cipher_pair:
  assumes "key \<noteq> []" "ascii key"
  shows "codec_pair Base64_Encode Base64_Decode ascii (xor_loop key 0) (xor_loop key 0) ascii"
proof unfold_locales
  show "\<exists>y. xor_loop key 0 x = Inr y" for x using assms by (simp add: xor_loop_ok)
  show "xor_loop key 0 y = Inr x" if "xor_loop key 0 x = Inr y" for x y
    using that assms by (auto simp: xor_loop_ok)
  show "ascii y" if "ascii x" "xor_loop key 0 x = Inr y" for x y
    using that assms by (auto simp: xor_loop_ok intro: ascii_map2_xor ascii_key_stream)
qed

section \<open>Reading a printed time\<close>

definition tm_ok :: "tm \<Rightarrow> bool" where
  "tm_ok t \<longleftrightarrow> tm_year t \<le> 8099 \<and> tm_mon t \<le> 11 \<and> 1 \<le> tm_mday t \<and> tm_mday t \<le> 31 \<and>
     tm_hour t \<le> 23 \<and> tm_min t \<le> 59 \<and> tm_sec t \<le> 60"

lemma dec_val_append: "dec_val (s @ [c]) = dec_val s * 10 + digit_val c"
  by (simp add: dec_val_def)

lemma pad2_field:
  assumes "n < 100"
  shows "length (pad2 n) = 2 \<and> list_all is_digit (pad2 n) \<and> dec_val (pad2 n) = n"
proof (cases "n < 10")
  case True
  then show ?thesis by (simp add: pad2_def dec.simps [of n] dec_val_def digit_val_def is_digit_def uchar_def digit_def)
next
  case False
  then have "dec n = [digit (n div 10), digit (n mod 10)]" "n div 10 < 10"
    using assms by (simp_all add: dec.simps [of n] dec.simps [of "n div 10"])
  then show ?thesis using False by (simp add: pad2_def dec_val_def)
qed

lemma dec_year_field:
  assumes "1000 \<le> n" "n \<le> 9999"
  shows "length (dec n) = 4 \<and> list_all is_digit (dec n) \<and> dec_val (dec n) = n"
proof -
  have step: "dec m = dec (m div 10) @ [digit (m mod 10)]" if "\<not> m < 10" for m
    using that by (subst dec.simps) simp
  have c: "\<not> n < 10" "\<not> n div 10 < 10" "\<not> n div 100 < 10" and lt: "n div 1000 < 10" using assms by auto
  have e: "n div 10 div 10 = n div 100" "n div 100 div 10 = n div 1000" by (simp_all add: div_mult2_eq [symmetric])
  have "dec (n div 1000) = [digit (n div 1000)]" using lt by (subst dec.simps) simp
  then have d: "dec n = [digit (n div 1000), digit (n div 100 mod 10), digit (n div 10 mod 10), digit (n mod 10)]"
    unfolding step [OF c(1)] step [OF c(2)] e(1) step [OF c(3)] e(2) by (simp only: append.simps)
  have "n div 1000 * 10 + n div 100 mod 10 = n div 100" "n div 100 * 10 + n div 10 mod 10 = n div 10"
    using div_mult_mod_eq [of "n div 100" 10] div_mult_mod_eq [of "n div 10" 10] e by simp_all
  then have "((n div 1000 * 10 + n div 100 mod 10) * 10 + n div 10 mod 10) * 10 + n mod 10 = n"
    by simp
  then show ?thesis using d lt by (simp add: dec_val_def)
qed

lemma time_field_read:
  "length d = n \<Longrightarrow> list_all is_digit d \<Longrightarrow> a \<le> dec_val d \<Longrightarrow> dec_val d \<le> b \<Longrightarrow> time_field n a b (d @ r) = Some (dec_val d)"
  by (simp add: time_field_def)

lemma get_time_put_time:
  assumes "tm_ok t"
  shows "get_time (strftime_date t @ '' '' @ strftime_X t) = broken_of t"
proof -
  have y: "length (dec (tm_year t + 1900)) = 4 \<and> list_all is_digit (dec (tm_year t + 1900)) \<and> dec_val (dec (tm_year t + 1900)) = tm_year t + 1900"
    using assms by (intro dec_year_field) (simp_all add: tm_ok_def)
  note f = pad2_field [of "tm_mon t + 1"] pad2_field [of "tm_mday t"] pad2_field [of "tm_hour t"] pad2_field [of "tm_min t"]
    pad2_field [of "tm_sec t"]
  have "read_fields time_format (strftime_date t @ '' '' @ strftime_X t) =
      [tm_year t + 1900, tm_mon t + 1, tm_mday t, tm_hour t, tm_min t, tm_sec t]"
    using assms y f time_field_read [of "pad2 (tm_sec t)" 2 0 60 "[]"]
    by (simp add: strftime_date_def strftime_X_def time_format_def tm_ok_def time_field_read)
  then show ?thesis by (simp add: get_time_def broken_of_def)
qed

section \<open>Reading a token\<close>

interpretation token_cipher: codec_pair Base64_Encode Base64_Decode ascii "xor_loop kTokenKey 0" "xor_loop kTokenKey 0" ascii
  by (rule cipher_pair) (simp_all add: kTokenKey_def uchar_def)


text \<open>The stack on which the digest has its 32 characters.\<close>

abbreviation no_junk :: "nat \<Rightarrow> string" where
  "no_junk \<equiv> \<lambda>_. []"

lemma str16_ascii: "list_all (\<lambda>c. uchar c < 128) str16" "length str16 = 16"
  by code_simp+

lemma MD5_Format_ascii: "ascii (MD5_Format no_junk n)"
proof -
  have "uchar (str16 ! i) < 128" if "i < 16" for i
    using str16_ascii that by (metis list_all_length)
  then show ?thesis by (auto simp: MD5_Format_def ascii_def Let_def)
qed

lemma digest [simp]: "ascii (MD5_Encode no_junk s)" "length (MD5_Encode no_junk s) = 32"
  by (simp_all add: MD5_Encode_def MD5_Format_ascii Let_def case_prod_unfold)
     (simp add: MD5_Encode_length [of no_junk s, simplified MD5_Encode_def Let_def case_prod_unfold, simplified])

lemma ascii_put_time: "ascii (put_time t)"
proof -
  have "uchar c < 128" if "is_digit c" for c using that by (simp add: is_digit_def)
  then have "ascii (dec n)" "ascii (pad2 n)" for n
    using dec_digits [of n] by (auto simp: ascii_def pad2_def uchar_def)
  then show ?thesis by (simp add: put_time_def strftime_date_def strftime_X_def) (simp add: uchar_def)
qed

lemma put_time_bar: "put_time t = CHR ''|'' # strftime_date t @ '' '' @ strftime_X t"
  by (simp add: put_time_def)

text \<open>What the constructor makes of an encoded text that has its checksum.\<close>

lemma Token_parse_text:
  assumes "key \<noteq> []" "ascii key" "ascii (u @ CHR ''|'' # x)" "CHR ''|'' \<notin> set u"
    and "res_bind (xor_loop key 0 (MD5_Encode no_junk (u @ CHR ''|'' # x) @ u @ CHR ''|'' # x)) Base64_Encode = Inr tok"
  shows "Token_parse no_junk mktime now tok key =
     res_bind (nanos (mktime (get_time x))) (\<lambda>e. Inr \<lparr>is_useful = True, is_in_time = (now \<le> e), user_id = u, end_time = e\<rparr>)"
proof -
  define payload where "payload = u @ CHR ''|'' # x"
  define str where "str = MD5_Encode no_junk payload @ payload"
  have a: "ascii str" using assms(3) by (simp add: str_def payload_def)
  have "res_bind (xor_loop key 0 str) Base64_Encode = Inr tok" using assms(5) by (simp only: str_def payload_def)
  then have "res_bind (res_bind (Inr tok) Base64_Decode) (xor_loop key 0) = Inr str"
    using codec_pair.pair_roundtrip [OF cipher_pair [OF assms(1,2)] a] by (simp only:)
  then obtain pass where pass: "Base64_Decode tok = Inr pass" "xor_loop key 0 pass = Inr str"
    by (auto simp: res_bind_eq_Inr)
  have tw: "takeWhile (\<lambda>c. c \<noteq> CHR ''|'') payload = u"
    using assms(4) unfolding payload_def by (induction u) auto
  have len: "length str = 33 + length u + length x" by (simp add: str_def payload_def)
  have cut: "take 32 str = MD5_Encode no_junk payload" "drop 32 str = payload" by (simp_all add: str_def)
  have "drop (Suc (32 + length u)) str = x" by (simp add: str_def payload_def)
  moreover have "take (length u) payload = u" by (simp add: payload_def)
  ultimately show ?thesis
    using pass tw cut len by (simp add: Token_parse_def)
qed

lemma Token_Encode_text:
  assumes "is_useful t"
  shows "Token_Encode no_junk localtime key t =
     res_bind (xor_loop key 0 (MD5_Encode no_junk (user_id t @ put_time (localtime (to_time_t (end_time t)))) @
       user_id t @ put_time (localtime (to_time_t (end_time t))))) Base64_Encode"
  using assms by (simp add: Token_Encode_def Token_ToString_def Let_def)

lemma encode_ok:
  assumes "key \<noteq> []" "ascii key" "ascii s"
  shows "\<exists>tok. res_bind (xor_loop key 0 s) Base64_Encode = Inr tok"
  using assms base64.enc_ok [of "map2 xor_char s (key_stream key 0 (length s))"]
  by (simp add: xor_loop_ok ascii_map2_xor ascii_key_stream)


section \<open>Properties of the tokens\<close>

lemma Token_new_fields:
  "Token_new user eff now1 now2 = Inr t \<Longrightarrow> is_useful t \<and> user_id t = user \<and> is_in_time t = (now2 \<le> end_time t) \<and>
     end_time t = now1 + eff * 10 ^ 9 \<and> - (2 ^ 63) \<le> end_time t \<and> end_time t < 2 ^ 63"
  by (auto simp: Token_new_def nanos_def int64_def res_bind_eq_Inr split: if_splits)

lemma to_time_t_bounds: "- (2 ^ 63) \<le> t \<Longrightarrow> t < 2 ^ 63 \<Longrightarrow> - (2 ^ 63) \<le> to_time_t t * 10 ^ 9 \<and> to_time_t t * 10 ^ 9 < 2 ^ 63"
proof -
  assume t: "- (2 ^ 63) \<le> t" "t < 2 ^ 63"
  define c :: int where "c = 10 ^ 9"
  have c: "0 \<le> x mod c" "x mod c \<le> x" "x div c * c = x - x mod c" if "0 \<le> x" for x
    using that by (simp_all add: c_def zmod_le_nonneg_dividend minus_mod_eq_div_mult)
  show ?thesis
  proof (cases "t < 0")
    case True
    then show ?thesis using c [of "- t"] t unfolding to_time_t_def c_def [symmetric] by simp
  next
    case False
    then show ?thesis using c [of t] t unfolding to_time_t_def c_def [symmetric] by simp
  qed
qed

lemma token_comes_back:
  assumes "key \<noteq> []" "ascii key" "ascii user" "CHR ''|'' \<notin> set user"
    and "Token_new user effective_time now1 now2 = Inr t"
    and "tm_ok (localtime (to_time_t (end_time t)))"
    and "mktime (broken_of (localtime (to_time_t (end_time t)))) = to_time_t (end_time t)"
  shows "\<exists>tok. Token_Encode no_junk localtime key t = Inr tok \<and>
     Token_parse no_junk mktime now tok key =
       Inr \<lparr>is_useful = True, is_in_time = (now \<le> to_time_t (end_time t) * 10 ^ 9), user_id = user,
         end_time = to_time_t (end_time t) * 10 ^ 9\<rparr>"
proof -
  define tm where "tm = localtime (to_time_t (end_time t))"
  define x where "x = strftime_date tm @ '' '' @ strftime_X tm"
  note t = Token_new_fields [OF assms(5)]
  have p: "user_id t @ put_time tm = user @ CHR ''|'' # x" using t by (simp add: put_time_bar x_def)
  have a: "ascii (user @ CHR ''|'' # x)" using assms(3) ascii_put_time [of tm] by (simp add: put_time_bar x_def)
  have "ascii (MD5_Encode no_junk (user @ CHR ''|'' # x) @ user @ CHR ''|'' # x)" using a by simp
  then obtain tok where tok: "res_bind (xor_loop key 0 (MD5_Encode no_junk (user @ CHR ''|'' # x) @ user @ CHR ''|'' # x)) Base64_Encode = Inr tok"
    using encode_ok [OF assms(1,2)] by blast
  have "Token_Encode no_junk localtime key t = Inr tok"
    using Token_Encode_text [of t localtime key] t tok p by (simp add: tm_def)
  moreover have "mktime (get_time x) = to_time_t (end_time t)"
    using get_time_put_time [of tm] assms(6,7) by (simp add: x_def tm_def)
  then have "nanos (mktime (get_time x)) = Inr (to_time_t (end_time t) * 10 ^ 9)"
    using to_time_t_bounds [of "end_time t"] t by (simp add: nanos_def int64_def)
  ultimately show ?thesis using Token_parse_text [OF assms(1,2) a assms(4) tok] by auto
qed


text \<open>
  A bar in a user name forges the rest: whoever gets a token for the name \<open>u|x\<close> holds a token that
  the constructor reads as one of the user \<open>u\<close>, with the expiry that \<open>x\<close> spells, whatever time the
  program put behind it.
\<close>

lemma token_bar_injection:
  assumes "key \<noteq> []" "ascii key" "ascii u" "ascii x" "CHR ''|'' \<notin> set u"
    and "Token_new (u @ ''|'' @ x) effective_time now1 now2 = Inr t"
    and "nanos (mktime (get_time (x @ put_time (localtime (to_time_t (end_time t)))))) = Inr e"
  shows "\<exists>tok. Token_Encode no_junk localtime key t = Inr tok \<and>
     Token_parse no_junk mktime now tok key = Inr \<lparr>is_useful = True, is_in_time = (now \<le> e), user_id = u, end_time = e\<rparr>"
proof -
  define y where "y = x @ put_time (localtime (to_time_t (end_time t)))"
  note t = Token_new_fields [OF assms(6)]
  have p: "user_id t @ put_time (localtime (to_time_t (end_time t))) = u @ CHR ''|'' # y" using t by (simp add: y_def)
  have a: "ascii (u @ CHR ''|'' # y)" using assms(3,4) ascii_put_time by (simp add: y_def uchar_def)
  then have "ascii (MD5_Encode no_junk (u @ CHR ''|'' # y) @ u @ CHR ''|'' # y)" by simp
  then obtain tok where tok: "res_bind (xor_loop key 0 (MD5_Encode no_junk (u @ CHR ''|'' # y) @ u @ CHR ''|'' # y)) Base64_Encode = Inr tok"
    using encode_ok [OF assms(1,2)] by blast
  have "Token_Encode no_junk localtime key t = Inr tok"
    using Token_Encode_text [of t localtime key] t tok p by simp
  then show ?thesis
    using Token_parse_text [OF assms(1,2) a assms(5) tok, of mktime now] assms(7) by (simp add: y_def)
qed

text \<open>
  What one token tells: the repeated key over its length is its bytes XORed with its text, and the
  text is known to its user (his name, the time he got it, and a checksum without a secret).
\<close>

definition forge :: "string \<Rightarrow> string \<Rightarrow> string \<Rightarrow> string result" where
  "forge known tok wanted =
     res_bind (Base64_Decode tok) (\<lambda>pass. Base64_Encode (map2 xor_char wanted (map2 xor_char pass known)))"

lemma key_stream_take: "n \<le> m \<Longrightarrow> take n (key_stream key i m) = key_stream key i n"
  by (simp add: key_stream_def take_map)

lemma map2_xor_commute: "length s = length k \<Longrightarrow> map2 xor_char (map2 xor_char s k) s = k"
proof (induction s k rule: list_induct2)
  case (Cons a s b k)
  moreover have "xor_char (xor_char a b) a = xor_char (xor_char b a) a" by (simp add: xor_char_def xor.commute)
  ultimately show ?case by simp
qed simp

lemma map2_take: "map2 f s k = map2 f s (take (length s) k)"
  by (induction s arbitrary: k) (case_tac k; simp)+




section \<open>Examples\<close>

text \<open>A clock that stands on one day.\<close>

definition one_day :: "int \<Rightarrow> tm" where
  "one_day _ = \<lparr>tm_sec = 5, tm_min = 4, tm_hour = 3, tm_mday = 2, tm_mon = 0, tm_year = 124\<rparr>"

lemma kTokenKey_ok: "kTokenKey \<noteq> []" "ascii kTokenKey"
  by (simp_all add: kTokenKey_def uchar_def)

lemma Token_new_day:
  "Token_new user 86400 0 0 = Inr \<lparr>is_useful = True, is_in_time = True, user_id = user, end_time = 86400 * 10 ^ 9\<rparr>"
  by (simp add: Token_new_def nanos_def int64_def)

lemma one_day_ok: "tm_ok (one_day s)"
  by (simp add: tm_ok_def one_day_def)


lemma token_bar_injection_witness:
  "\<exists>t tok. Token_new ''admin|2100-01-01 00:00:00'' 86400 0 0 = Inr t \<and> Token_Encode no_junk one_day kTokenKey t = Inr tok \<and>
     Token_parse no_junk (\<lambda>b. (bt_year b - 70) * 31556952) 0 tok kTokenKey =
       Inr \<lparr>is_useful = True, is_in_time = True, user_id = ''admin'', end_time = 4102403760 * 10 ^ 9\<rparr>"
proof -
  have a: "ascii ''admin''" "ascii ''2100-01-01 00:00:00''" "CHR ''|'' \<notin> set ''admin''" by (simp_all add: uchar_def)
  define t where "t = \<lparr>is_useful = True, is_in_time = True, user_id = ''admin|2100-01-01 00:00:00'', end_time = 86400 * 10 ^ 9\<rparr>"
  have n: "Token_new (''admin'' @ ''|'' @ ''2100-01-01 00:00:00'') 86400 0 0 = Inr t"
    using Token_new_day by (simp add: t_def)
  have "bt_year (get_time (''2100-01-01 00:00:00'' @ put_time (one_day s))) = 200" for s
    unfolding one_day_def by code_simp
  then have "nanos ((bt_year (get_time (''2100-01-01 00:00:00'' @ put_time (one_day s))) - 70) * 31556952) = Inr (4102403760 * 10 ^ 9)" for s
    by (simp add: nanos_def int64_def)
  from token_bar_injection [where mktime = "\<lambda>b. (bt_year b - 70) * 31556952" and now = 0, OF kTokenKey_ok a n this] n
  show ?thesis by auto
qed


end
