(* ===== verification/Test_Codec.thy ===== *)
theory Test_Codec
  imports Token
begin

text \<open>
  The functions of \<^verbatim>\<open>src/test.cpp\<close>: the cipher of the tokens by itself, an exclusive or with the repeated
  key inside Base64.  Its \<open>main\<close> only returns 0.
\<close>

fun XOR_loop :: "string \<Rightarrow> nat \<Rightarrow> string \<Rightarrow> string \<Rightarrow> string result" where
  "XOR_loop key i ret [] = Inr ret"
| "XOR_loop key i ret (th # val) =
     (if key = [] then Inl DivByZero
      else XOR_loop key ((i + 1) mod length key) (ret @ [xor_char th (key ! i)]) val)"

definition XOR_string :: "string \<Rightarrow> string \<Rightarrow> string result" where
  "XOR_string val key = XOR_loop key 0 [] val"

definition test_Encode :: "string \<Rightarrow> string \<Rightarrow> string result" where
  "test_Encode val key = res_bind (XOR_string val key) Base64_Encode"

definition test_Decode :: "string \<Rightarrow> string \<Rightarrow> string result" where
  "test_Decode val key = res_bind (Base64_Decode val) (\<lambda>s. XOR_string s key)"

text \<open>The function and the loop in the class \<open>Token\<close> do the same.\<close>

lemma XOR_loop_xor_loop: "XOR_loop key i ret val = res_map (\<lambda>s. ret @ s) (xor_loop key i val)"
proof (induction key i ret val rule: XOR_loop.induct)
  case (2 key i ret th val)
  then show ?case by (cases "xor_loop key ((i + 1) mod length key) val") auto
qed simp

lemma XOR_string_xor_loop: "XOR_string val key = xor_loop key 0 val"
  by (cases "xor_loop key 0 val") (simp_all add: XOR_string_def XOR_loop_xor_loop)

lemma test_roundtrip:
  assumes "key \<noteq> []" "ascii key" "ascii val"
  shows "res_bind (test_Encode val key) (\<lambda>s. test_Decode s key) = Inr val"
proof -
  have "res_bind (res_bind (res_bind (xor_loop key 0 val) Base64_Encode) Base64_Decode) (xor_loop key 0) = Inr val"
    by (rule codec_pair.pair_roundtrip [OF cipher_pair [OF assms(1,2)] assms(3)])
  then show ?thesis
    by (cases "xor_loop key 0 val") (auto simp: test_Encode_def test_Decode_def XOR_string_xor_loop res_bind_eq_Inr)
qed

lemma test_empty_key: "test_Encode (c # val) [] = Inl DivByZero"
  by (simp add: test_Encode_def XOR_string_def)

end
