(* ===== verification/Socket.thy ===== *)
theory Socket
  imports Logger "HOL-Library.Sublist"
begin

text \<open>
  \<^verbatim>\<open>src/socket/socket.cpp\<close> and \<^verbatim>\<open>server_socket.cpp\<close>: a socket is a record of address, port and
  descriptor, and every method a system call with its error branch.  The system calls are
  parameters, collected in the record \<open>sys\<close> over a state \<open>'k\<close> of the kernel; the messages given
  to the logger are kept in order beside that state.
\<close>

section \<open>The system calls\<close>

type_synonym u16 = "16 word"

datatype sockopt =
    SO_SNDBUF int
  | SO_RCVBUF int
  | SO_LINGER int int
  | SO_KEEPALIVE int
  | SO_REUSEADDR int
  | SO_REUSEPORT int

record sockaddr_in =
  sin_addr :: u32
  sin_port :: u16

text \<open>
  Each call takes its arguments and gives the value it returns; a received buffer is \<open>None\<close>
  when \<open>recv\<close> returns \<open>-1\<close>, and its bytes otherwise (none of them at the end of the stream).
\<close>

record 'k sys =
  sys_socket :: "'k \<Rightarrow> int \<times> 'k"
  sys_bind :: "int \<Rightarrow> sockaddr_in \<Rightarrow> 'k \<Rightarrow> int \<times> 'k"
  sys_listen :: "int \<Rightarrow> int \<Rightarrow> 'k \<Rightarrow> int \<times> 'k"
  sys_connect :: "int \<Rightarrow> sockaddr_in \<Rightarrow> 'k \<Rightarrow> int \<times> 'k"
  sys_accept :: "int \<Rightarrow> 'k \<Rightarrow> (int \<times> u32) \<times> 'k"
  sys_close :: "int \<Rightarrow> 'k \<Rightarrow> 'k"
  sys_recv :: "int \<Rightarrow> nat \<Rightarrow> 'k \<Rightarrow> string option \<times> 'k"
  sys_send :: "int \<Rightarrow> string \<Rightarrow> 'k \<Rightarrow> int \<times> 'k"
  sys_getfl :: "int \<Rightarrow> 'k \<Rightarrow> int \<times> 'k"
  sys_setfl :: "int \<Rightarrow> int \<Rightarrow> 'k \<Rightarrow> int \<times> 'k"
  sys_setsockopt :: "int \<Rightarrow> sockopt \<Rightarrow> 'k \<Rightarrow> int \<times> 'k"
  sys_inet_addr :: "string \<Rightarrow> u32"
  sys_inet_ntoa :: "u32 \<Rightarrow> string"
  sys_strerror :: "'k \<Rightarrow> string"

record 'k world =
  kern :: 'k
  logged :: "string list"

definition ERROR :: "string \<Rightarrow> 'k world \<Rightarrow> 'k world" where
  "ERROR s w = w\<lparr>logged := logged w @ [Logger_Error s]\<rparr>"

definition INFO :: "string \<Rightarrow> 'k world \<Rightarrow> 'k world" where
  "INFO s w = w\<lparr>logged := logged w @ [Logger_Info s]\<rparr>"

definition SYSTEM :: "string \<Rightarrow> 'k world \<Rightarrow> 'k world" where
  "SYSTEM s w = w\<lparr>logged := logged w @ [Logger_System s]\<rparr>"

text \<open>A call that returns a negative number logs its name and fails; any other result is success.\<close>

definition checked :: "string \<Rightarrow> ('k \<Rightarrow> int \<times> 'k) \<Rightarrow> 'k world \<Rightarrow> bool \<times> 'k world" where
  "checked name call w =
     (let (r, k) = call (kern w); w = w\<lparr>kern := k\<rparr> in if r < 0 then (False, ERROR name w) else (True, w))"

section \<open>The socket\<close>

record socket =
  m_ip :: string
  m_port :: int
  m_sockfd :: int

definition Socket_default :: socket where
  "Socket_default = \<lparr>m_ip = '''', m_port = 0, m_sockfd = 0\<rparr>"

definition Socket_at :: "string \<Rightarrow> int \<Rightarrow> socket" where
  "Socket_at ip port = \<lparr>m_ip = ip, m_port = port, m_sockfd = 0\<rparr>"

text \<open>\<open>htons\<close> takes the low sixteen bits of the port; \<open>INADDR_ANY\<close> is 0.\<close>

definition Socket_bind :: "'k sys \<Rightarrow> socket \<Rightarrow> string \<Rightarrow> int \<Rightarrow> 'k world \<Rightarrow> bool \<times> 'k world" where
  "Socket_bind os s ip port =
     checked ''bind'' (sys_bind os (m_sockfd s)
       \<lparr>sin_addr = (if ip \<noteq> '''' then sys_inet_addr os ip else 0), sin_port = word_of_int port\<rparr>)"

definition Socket_listen :: "'k sys \<Rightarrow> socket \<Rightarrow> int \<Rightarrow> 'k world \<Rightarrow> bool \<times> 'k world" where
  "Socket_listen os s backlog = checked ''listen'' (sys_listen os (m_sockfd s) backlog)"

definition Socket_connect :: "'k sys \<Rightarrow> socket \<Rightarrow> string \<Rightarrow> int \<Rightarrow> 'k world \<Rightarrow> bool \<times> 'k world" where
  "Socket_connect os s ip port =
     checked ''connect'' (sys_connect os (m_sockfd s)
       \<lparr>sin_addr = sys_inet_addr os ip, sin_port = word_of_int port\<rparr>)"

definition Socket_close :: "'k sys \<Rightarrow> socket \<Rightarrow> 'k world \<Rightarrow> (bool \<times> socket) \<times> 'k world" where
  "Socket_close os s w =
     (if m_sockfd s > 0
      then ((True, s\<lparr>m_sockfd := 0\<rparr>), w\<lparr>kern := sys_close os (m_sockfd s) (kern w)\<rparr>)
      else ((True, s), w))"

text \<open>The destructor closes.\<close>

definition Socket_destroy :: "'k sys \<Rightarrow> socket \<Rightarrow> 'k world \<Rightarrow> 'k world" where
  "Socket_destroy os s w = snd (Socket_close os s w)"

definition Socket_accept :: "'k sys \<Rightarrow> socket \<Rightarrow> 'k world \<Rightarrow> (int \<times> u32) \<times> 'k world" where
  "Socket_accept os s w =
     (let ((fd, addr), k) = sys_accept os (m_sockfd s) (kern w); w = w\<lparr>kern := k\<rparr> in
      if fd < 0 then ((-1, addr), ERROR ''accept'' w) else ((fd, addr), w))"

definition Socket_recv :: "'k sys \<Rightarrow> socket \<Rightarrow> nat \<Rightarrow> 'k world \<Rightarrow> string option \<times> 'k world" where
  "Socket_recv os s len w =
     (let (r, k) = sys_recv os (m_sockfd s) len (kern w) in (r, w\<lparr>kern := k\<rparr>))"

text \<open>\<open>send\<close> calls the kernel again for as long as it answers \<open>-1\<close>.\<close>

partial_function (option) Socket_send :: "'k sys \<Rightarrow> socket \<Rightarrow> string \<Rightarrow> 'k world \<Rightarrow> (nat \<times> 'k world) option" where
  "Socket_send os s buf w =
     (let (r, k) = sys_send os (m_sockfd s) buf (kern w); w = w\<lparr>kern := k\<rparr> in
      if r = -1 then Socket_send os s buf w else Some (nat (r mod 2 ^ 64), w))"

definition O_NONBLOCK :: int where "O_NONBLOCK = 2048"

definition set_non_blocking :: "'k sys \<Rightarrow> socket \<Rightarrow> 'k world \<Rightarrow> bool \<times> 'k world" where
  "set_non_blocking os s w =
     (let (flags, k) = sys_getfl os (m_sockfd s) (kern w); w = w\<lparr>kern := k\<rparr> in
      if flags < 0 then (False, ERROR ''non_blocking'' w)
      else checked ''non_blocking'' (sys_setfl os (m_sockfd s) (flags OR O_NONBLOCK)) w)"

definition set_send_buffer :: "'k sys \<Rightarrow> socket \<Rightarrow> int \<Rightarrow> 'k world \<Rightarrow> bool \<times> 'k world" where
  "set_send_buffer os s sz = checked ''send_buf'' (sys_setsockopt os (m_sockfd s) (SO_SNDBUF sz))"

definition set_recv_buffer :: "'k sys \<Rightarrow> socket \<Rightarrow> int \<Rightarrow> 'k world \<Rightarrow> bool \<times> 'k world" where
  "set_recv_buffer os s sz = checked ''recv_buf'' (sys_setsockopt os (m_sockfd s) (SO_RCVBUF sz))"

definition set_linger :: "'k sys \<Rightarrow> socket \<Rightarrow> bool \<Rightarrow> int \<Rightarrow> 'k world \<Rightarrow> bool \<times> 'k world" where
  "set_linger os s active seconds =
     checked ''linger'' (sys_setsockopt os (m_sockfd s) (SO_LINGER (if active then 1 else 0) seconds))"

definition set_keep_alive :: "'k sys \<Rightarrow> socket \<Rightarrow> 'k world \<Rightarrow> bool \<times> 'k world" where
  "set_keep_alive os s = checked ''keep_alive'' (sys_setsockopt os (m_sockfd s) (SO_KEEPALIVE 1))"

definition set_reuse_addr :: "'k sys \<Rightarrow> socket \<Rightarrow> 'k world \<Rightarrow> bool \<times> 'k world" where
  "set_reuse_addr os s = checked ''reuse_addr'' (sys_setsockopt os (m_sockfd s) (SO_REUSEADDR 1))"

definition set_reuse_port :: "'k sys \<Rightarrow> socket \<Rightarrow> 'k world \<Rightarrow> bool \<times> 'k world" where
  "set_reuse_port os s = checked ''reuse_port'' (sys_setsockopt os (m_sockfd s) (SO_REUSEPORT 1))"

section \<open>The listening socket\<close>

text \<open>
  The constructor of \<open>ServerSocket\<close> goes through all its calls and drops their results: a
  failing \<open>bind\<close> or \<open>listen\<close> is logged and nothing else.
\<close>

definition ServerSocket_new :: "'k sys \<Rightarrow> string \<Rightarrow> int \<Rightarrow> 'k world \<Rightarrow> socket \<times> 'k world" where
  "ServerSocket_new os ip port w =
     (let (fd, k) = sys_socket os (kern w);
          w = w\<lparr>kern := k\<rparr>;
          s = (Socket_at ip port)\<lparr>m_sockfd := fd\<rparr> in
      if fd < 0 then (s, ERROR (''create server socket error '' @ sys_strerror os (kern w)) w)
      else
        (let w = snd (set_non_blocking os s w);
             w = snd (set_recv_buffer os s (10 * 1024) w);
             w = snd (set_send_buffer os s (10 * 1024) w);
             w = snd (set_linger os s True 0 w);
             w = snd (set_keep_alive os s w);
             w = snd (set_reuse_addr os s w);
             w = snd (Socket_bind os s ip port w);
             w = snd (Socket_listen os s 1024 w)
         in (s, w)))"

text \<open>The other constructor, and the destructor: it closes, and the one of the base class closes again.\<close>

definition ServerSocket_default :: socket where
  "ServerSocket_default = Socket_default"

definition ServerSocket_destroy :: "'k sys \<Rightarrow> socket \<Rightarrow> 'k world \<Rightarrow> 'k world" where
  "ServerSocket_destroy os s w = (let ((_, s), w) = Socket_close os s w in Socket_destroy os s w)"

section \<open>Properties of the operations\<close>

text \<open>A second close finds no descriptor, so a destructor closes the descriptor once.\<close>

lemma close_twice:
  "Socket_destroy os (snd (fst (Socket_close os s w))) (snd (Socket_close os s w)) =
     (if 0 < m_sockfd s then w\<lparr>kern := sys_close os (m_sockfd s) (kern w)\<rparr> else w)"
  by (simp add: Socket_destroy_def Socket_close_def)

lemma server_closed_once: "ServerSocket_destroy os s w = Socket_destroy os s w"
  using close_twice [of os s w] by (simp add: ServerSocket_destroy_def case_prod_unfold) (simp add: Socket_destroy_def Socket_close_def)

text \<open>\<open>logs names w w'\<close>: between the two worlds errors with some of these names were logged, in this order.\<close>

definition logs :: "string list \<Rightarrow> 'k world \<Rightarrow> 'k world \<Rightarrow> bool" where
  "logs names w w' \<longleftrightarrow> (\<exists>fails. subseq fails names \<and> logged w' = logged w @ map Logger_Error fails)"

lemma logs_trans: "logs ns w w' \<Longrightarrow> logs ms w' w'' \<Longrightarrow> logs (ns @ ms) w w''"
  unfolding logs_def by (metis append.assoc list_emb_append_mono map_append)

lemma logs_checked: "logs [name] w (snd (checked name call w))"
proof (cases "fst (call (kern w)) < 0")
  case True
  then show ?thesis
    unfolding logs_def
    by (intro exI [of _ "[name]"]) (simp add: checked_def ERROR_def Let_def case_prod_unfold)
next
  case False
  then show ?thesis
    unfolding logs_def
    by (intro exI [of _ "[]"]) (simp add: checked_def Let_def case_prod_unfold)
qed

lemma logs_kern [simp]: "logs ns (w\<lparr>kern := k\<rparr>) w' = logs ns w w'"
  by (simp add: logs_def)

lemma logs_set_non_blocking: "logs [''non_blocking''] w (snd (set_non_blocking os s w))"
proof -
  obtain f k where fk: "sys_getfl os (m_sockfd s) (kern w) = (f, k)" by force
  have "logs [''non_blocking''] (w\<lparr>kern := k\<rparr>) (ERROR ''non_blocking'' (w\<lparr>kern := k\<rparr>))"
    unfolding logs_def by (intro exI [of _ "[''non_blocking'']"]) (simp add: ERROR_def)
  with logs_checked [of "''non_blocking''" "w\<lparr>kern := k\<rparr>"] fk show ?thesis
    by (simp add: set_non_blocking_def Let_def)
qed

lemmas logs_calls =
  logs_set_non_blocking
  logs_checked [of "''bind''"] logs_checked [of "''listen''"] logs_checked [of "''send_buf''"]
  logs_checked [of "''recv_buf''"] logs_checked [of "''linger''"] logs_checked [of "''keep_alive''"]
  logs_checked [of "''reuse_addr''"]

text \<open>
  Closing a socket asks the kernel to close its descriptor at most once: after \<open>close\<close> a
  further \<open>close\<close> and the destructor change nothing and make no system call, so the descriptor
  cannot be closed again after the kernel has given it to another socket.
\<close>

lemma socket_close_once:
  assumes "Socket_close os s w = ((b, s'), w')"
  shows "b \<and> Socket_close os s' w2 = ((True, s'), w2) \<and> Socket_destroy os s' w2 = w2 \<and>
     kern w' = (if 0 < m_sockfd s then sys_close os (m_sockfd s) (kern w) else kern w)"
  using assms by (auto simp: Socket_close_def Socket_destroy_def split: if_splits)

text \<open>The kernel's state after \<open>n\<close> sends of the same buffer.\<close>

definition sends :: "'k sys \<Rightarrow> int \<Rightarrow> string \<Rightarrow> nat \<Rightarrow> 'k \<Rightarrow> 'k" where
  "sends os fd buf n = (\<lambda>k. snd (sys_send os fd buf k)) ^^ n"

lemma sends_Suc: "sends os fd buf (Suc n) k = sends os fd buf n (snd (sys_send os fd buf k))"
  by (simp add: sends_def funpow_Suc_right del: funpow.simps)

lemma Socket_send_step:
  "Socket_send os s buf w =
     (if fst (sys_send os (m_sockfd s) buf (kern w)) = -1
      then Socket_send os s buf (w\<lparr>kern := snd (sys_send os (m_sockfd s) buf (kern w))\<rparr>)
      else Some (nat (fst (sys_send os (m_sockfd s) buf (kern w)) mod 2 ^ 64),
             w\<lparr>kern := snd (sys_send os (m_sockfd s) buf (kern w))\<rparr>))"
  by (subst Socket_send.simps) (simp add: Let_def split: prod.splits)

lemma Socket_send_after:
  assumes "\<forall>i<n. fst (sys_send os (m_sockfd s) buf (sends os (m_sockfd s) buf i (kern w))) = -1"
  shows "Socket_send os s buf w = Socket_send os s buf (w\<lparr>kern := sends os (m_sockfd s) buf n (kern w)\<rparr>)"
  using assms
proof (induction n arbitrary: w)
  case 0
  then show ?case by (simp add: sends_def)
next
  case (Suc n)
  define w1 where "w1 = w\<lparr>kern := snd (sys_send os (m_sockfd s) buf (kern w))\<rparr>"
  have "fst (sys_send os (m_sockfd s) buf (kern w)) = -1"
    using Suc.prems by (auto simp: sends_def dest: spec [of _ 0])
  then have "Socket_send os s buf w = Socket_send os s buf w1"
    by (subst Socket_send_step) (simp add: w1_def)
  also have "\<dots> = Socket_send os s buf (w1\<lparr>kern := sends os (m_sockfd s) buf n (kern w1)\<rparr>)"
    using Suc.prems by (intro Suc.IH) (auto simp: w1_def simp flip: sends_Suc)
  finally show ?case by (simp add: w1_def sends_Suc)
qed

lemma Socket_send_answered:
  "Socket_send os s buf w = Some y \<Longrightarrow>
     \<exists>n. fst (sys_send os (m_sockfd s) buf (sends os (m_sockfd s) buf n (kern w))) \<noteq> -1"
proof (induction rule: Socket_send.raw_induct [where
      P = "\<lambda>os s buf w y. \<exists>n. fst (sys_send os (m_sockfd s) buf (sends os (m_sockfd s) buf n (kern w))) \<noteq> -1",
      rotated, consumes 1])
  case (1 send os s buf w y)
  define w1 where "w1 = w\<lparr>kern := snd (sys_send os (m_sockfd s) buf (kern w))\<rparr>"
  show ?case
  proof (cases "fst (sys_send os (m_sockfd s) buf (kern w)) = -1")
    case True
    then have "send os s buf w1 = Some y"
      using 1(2) by (simp add: w1_def Let_def case_prod_unfold)
    from 1(1) [OF this] show ?thesis
      by (auto simp: w1_def simp flip: sends_Suc)
  next
    case False
    then show ?thesis by (intro exI [of _ 0]) (simp add: sends_def)
  qed
qed

text \<open>
  C37: \<open>Socket::send\<close> returns exactly when some later call of the kernel's \<open>send\<close> answers something
  other than \<open>-1\<close>; it then gives the answer of the first such call.  On a descriptor on which every
  call fails, as on a closed connection, it never returns.
\<close>

theorem socket_send_retries:
  "Socket_send os s buf w = Some (r, w') \<longleftrightarrow>
     (\<exists>n. (\<forall>i<n. fst (sys_send os (m_sockfd s) buf (sends os (m_sockfd s) buf i (kern w))) = -1) \<and>
        fst (sys_send os (m_sockfd s) buf (sends os (m_sockfd s) buf n (kern w))) \<noteq> -1 \<and>
        r = nat (fst (sys_send os (m_sockfd s) buf (sends os (m_sockfd s) buf n (kern w))) mod 2 ^ 64) \<and>
        w' = w\<lparr>kern := sends os (m_sockfd s) buf (Suc n) (kern w)\<rparr>)" (is "?l \<longleftrightarrow> (\<exists>n. ?r n)")
proof -
  define f where "f i = fst (sys_send os (m_sockfd s) buf (sends os (m_sockfd s) buf i (kern w)))" for i
  have first: "Socket_send os s buf w =
      Some (nat (f n mod 2 ^ 64), w\<lparr>kern := sends os (m_sockfd s) buf (Suc n) (kern w)\<rparr>)"
    if "\<forall>i<n. f i = -1" "f n \<noteq> -1" for n
    using that Socket_send_after [of n os s buf w]
      Socket_send_step [of os s buf "w\<lparr>kern := sends os (m_sockfd s) buf n (kern w)\<rparr>"]
    by (simp add: f_def sends_def)
  have "?r n" if l: ?l and n: "n = (LEAST n. f n \<noteq> -1)" for n
  proof -
    have "\<exists>n. f n \<noteq> -1" using Socket_send_answered [OF l] by (simp add: f_def)
    then have "f n \<noteq> -1" unfolding n by (rule LeastI_ex)
    moreover have "\<forall>i<n. f i = -1" unfolding n using not_less_Least by blast
    ultimately show ?thesis using first [of n] l by (auto simp: f_def)
  qed
  moreover have "?r n \<Longrightarrow> ?l" for n using first [of n] by (auto simp: f_def)
  ultimately show ?thesis by blast
qed
  

text \<open>
  A small kernel to run the model on: scripted answers of \<open>recv\<close> and \<open>send\<close>, with every byte
  sent kept.  Once the script of \<open>send\<close> is used up, a send takes its whole buffer, up to the
  limit Linux has for one call.
\<close>

record net =
  net_recv :: "string option list"
  net_send :: "int list"
  net_sent :: string
  net_closed :: "int list"

definition net_taken :: "int \<Rightarrow> string \<Rightarrow> int" where
  "net_taken a buf = min a (min (int (length buf)) 0x7ffff000)"

definition net_sys :: "net sys" where
  "net_sys = \<lparr>
     sys_socket = (\<lambda>k. (3, k)),
     sys_bind = (\<lambda>_ _ k. (-1, k)),
     sys_listen = (\<lambda>_ _ k. (0, k)),
     sys_connect = (\<lambda>_ _ k. (0, k)),
     sys_accept = (\<lambda>_ k. ((-1, 0), k)),
     sys_close = (\<lambda>fd k. k\<lparr>net_closed := net_closed k @ [fd]\<rparr>),
     sys_recv = (\<lambda>_ n k. case net_recv k of
        [] \<Rightarrow> (None, k) | a # as \<Rightarrow> (map_option (take n) a, k\<lparr>net_recv := as\<rparr>)),
     sys_send = (\<lambda>_ buf k. case net_send k of
        [] \<Rightarrow> (net_taken (2 ^ 31) buf, k\<lparr>net_sent := net_sent k @ take (nat (net_taken (2 ^ 31) buf)) buf\<rparr>)
      | a # as \<Rightarrow> (net_taken a buf, k\<lparr>net_send := as, net_sent := net_sent k @ take (nat (net_taken a buf)) buf\<rparr>)),
     sys_getfl = (\<lambda>_ k. (0, k)),
     sys_setfl = (\<lambda>_ _ k. (0, k)),
     sys_setsockopt = (\<lambda>_ _ k. (0, k)),
     sys_inet_addr = (\<lambda>_. 0),
     sys_inet_ntoa = (\<lambda>_. ''127.0.0.1''),
     sys_strerror = (\<lambda>_. ''error'')\<rparr>"

definition net_world :: "string option list \<Rightarrow> int list \<Rightarrow> net world" where
  "net_world rs ss =
     \<lparr>kern = \<lparr>net_recv = rs, net_send = ss, net_sent = '''', net_closed = []\<rparr>, logged = []\<rparr>"

lemma socket_close_once_witness:
  "Socket_close net_sys \<lparr>m_ip = '''', m_port = 0, m_sockfd = 7\<rparr> (net_world [] []) =
     ((True, Socket_default), (net_world [] [])\<lparr>kern := (kern (net_world [] []))\<lparr>net_closed := [7]\<rparr>\<rparr>) \<and>
   Socket_destroy net_sys Socket_default (net_world [] []) = net_world [] []"
proof -
  have "Socket_close net_sys \<lparr>m_ip = '''', m_port = 0, m_sockfd = 7\<rparr> (net_world [] []) =
     ((True, Socket_default), (net_world [] [])\<lparr>kern := (kern (net_world [] []))\<lparr>net_closed := [7]\<rparr>\<rparr>)"
    by (simp add: Socket_close_def Socket_default_def net_sys_def net_world_def)
  with socket_close_once [OF this] show ?thesis by simp
qed

theorem socket_send_retries_witness:
  "\<exists>w'. Socket_send net_sys \<lparr>m_ip = '''', m_port = 0, m_sockfd = 7\<rparr> ''data'' (net_world [] [-1, -1, 3]) = Some (3, w') \<and>
     net_sent (kern w') = ''dat''"
proof -
  define k where "k = kern (net_world [] [-1, -1, 3])"
  have "sends net_sys 7 ''data'' 1 k = k\<lparr>net_send := [-1, 3]\<rparr>"
    "sends net_sys 7 ''data'' 2 k = k\<lparr>net_send := [3]\<rparr>"
    "sends net_sys 7 ''data'' 3 k = k\<lparr>net_send := [], net_sent := ''dat''\<rparr>"
    "sends net_sys 7 ''data'' 0 k = k"
    by (simp_all add: sends_def net_sys_def net_taken_def net_world_def k_def eval_nat_numeral)
  moreover have "fst (sys_send net_sys 7 ''data'' k) = -1"
    "fst (sys_send net_sys 7 ''data'' (k\<lparr>net_send := [-1, 3]\<rparr>)) = -1"
    "fst (sys_send net_sys 7 ''data'' (k\<lparr>net_send := [3]\<rparr>)) = 3"
    by (simp_all add: net_sys_def net_taken_def k_def net_world_def)
  ultimately have "Socket_send net_sys \<lparr>m_ip = '''', m_port = 0, m_sockfd = 7\<rparr> ''data'' (net_world [] [-1, -1, 3]) =
      Some (3, (net_world [] [-1, -1, 3])\<lparr>kern := k\<lparr>net_send := [], net_sent := ''dat''\<rparr>\<rparr>)"
    by (intro socket_send_retries [THEN iffD2] exI [of _ 2])
      (auto simp: k_def [symmetric] less_Suc_eq numeral_eq_Suc)
  then show ?thesis by simp
qed

text \<open>
  The constructor of the listening socket drops the results of its calls: whatever fails after
  the descriptor was created, the caller gets the same socket, with the address it asked for and
  the kernel's descriptor, and all that is seen of the failures is at most one logged error for
  each call, in the order of the calls.
\<close>

lemma server_socket_ignores_failures:
  assumes "ServerSocket_new os ip port w = (s, w')"
  shows "s = \<lparr>m_ip = ip, m_port = port, m_sockfd = fst (sys_socket os (kern w))\<rparr> \<and>
     (0 \<le> fst (sys_socket os (kern w)) \<longrightarrow>
       logs [''non_blocking'', ''recv_buf'', ''send_buf'', ''linger'', ''keep_alive'', ''reuse_addr'', ''bind'', ''listen''] w w')"
proof -
  obtain fd k where fd: "sys_socket os (kern w) = (fd, k)" by force
  define sk where "sk = \<lparr>m_ip = ip, m_port = port, m_sockfd = fd\<rparr>"
  define w0 where "w0 = w\<lparr>kern := k\<rparr>"
  define w1 where "w1 = snd (set_non_blocking os sk w0)"
  define w2 where "w2 = snd (set_recv_buffer os sk (10 * 1024) w1)"
  define w3 where "w3 = snd (set_send_buffer os sk (10 * 1024) w2)"
  define w4 where "w4 = snd (set_linger os sk True 0 w3)"
  define w5 where "w5 = snd (set_keep_alive os sk w4)"
  define w6 where "w6 = snd (set_reuse_addr os sk w5)"
  define w7 where "w7 = snd (Socket_bind os sk ip port w6)"
  define w8 where "w8 = snd (Socket_listen os sk 1024 w7)"
  have steps: "logs [''non_blocking''] w0 w1" "logs [''recv_buf''] w1 w2" "logs [''send_buf''] w2 w3"
    "logs [''linger''] w3 w4" "logs [''keep_alive''] w4 w5" "logs [''reuse_addr''] w5 w6"
    "logs [''bind''] w6 w7" "logs [''listen''] w7 w8"
    unfolding w1_def w2_def w3_def w4_def w5_def w6_def w7_def w8_def
      set_recv_buffer_def set_send_buffer_def set_linger_def set_keep_alive_def set_reuse_addr_def
      Socket_bind_def Socket_listen_def
    by (rule logs_calls)+
  have all: "logs [''non_blocking'', ''recv_buf'', ''send_buf'', ''linger'', ''keep_alive'', ''reuse_addr'', ''bind'', ''listen''] w0 w8"
    using logs_trans [OF logs_trans [OF logs_trans [OF logs_trans [OF steps(1,2)] logs_trans [OF steps(3,4)]]
      logs_trans [OF steps(5,6)]] logs_trans [OF steps(7,8)]] by simp
  have res: "ServerSocket_new os ip port w =
      (if fd < 0 then (sk, ERROR (''create server socket error '' @ sys_strerror os (kern w0)) w0) else (sk, w8))"
    by (simp add: ServerSocket_new_def fd Socket_at_def Let_def sk_def w0_def w1_def w2_def w3_def w4_def
        w5_def w6_def w7_def w8_def)
  show ?thesis
    using assms all by (auto simp: res fd w0_def sk_def split: if_splits)
qed

lemma server_socket_ignores_failures_witness:
  "\<exists>w'. ServerSocket_new net_sys ''127.0.0.1'' 8080 (net_world [] []) =
      (\<lparr>m_ip = ''127.0.0.1'', m_port = 8080, m_sockfd = 3\<rparr>, w') \<and> logged w' = [''ERROR   | bind'']"
proof -
  obtain s w' where sw: "ServerSocket_new net_sys ''127.0.0.1'' 8080 (net_world [] []) = (s, w')" by force
  moreover have "logged (snd (ServerSocket_new net_sys ''127.0.0.1'' 8080 (net_world [] []))) = [''ERROR   | bind'']"
    by (simp add: ServerSocket_new_def net_sys_def net_world_def Let_def Socket_at_def set_non_blocking_def
        set_recv_buffer_def set_send_buffer_def set_linger_def set_keep_alive_def set_reuse_addr_def
        Socket_bind_def Socket_listen_def checked_def ERROR_def Logger_Error_def)
  ultimately show ?thesis
    using server_socket_ignores_failures [OF sw] by (simp add: net_sys_def)
qed

end
