(* ===== verification/Data_Reader.thy ===== *)
theory Data_Reader
  imports Socket
begin

text \<open>
  \<^verbatim>\<open>src/util/data_reader.cpp\<close>: a string and a file stream that are written, one after the other,
  to a sink function.  The loops repeat until the counted size is reached, so they are partial;
  the contract of the sink is the locale \<open>sink\<close>, which \<open>Socket::send\<close> fulfils on a kernel that
  keeps taking bytes.
\<close>

section \<open>Input file streams\<close>

text \<open>
  An \<open>ifstream\<close>: the content of the file it is open on, the position and the fail bit.  The
  files of the system are a function from paths to the content a successful \<open>open\<close> sees.
\<close>

record ifstream =
  if_content :: "string option"
  if_pos :: nat
  if_fail :: bool

type_synonym filesystem = "string \<Rightarrow> string option"

definition ifstream_default :: ifstream where
  "ifstream_default = \<lparr>if_content = None, if_pos = 0, if_fail = False\<rparr>"

definition ifstream_open :: "filesystem \<Rightarrow> string \<Rightarrow> ifstream" where
  "ifstream_open fs p = \<lparr>if_content = fs p, if_pos = 0, if_fail = (fs p = None)\<rparr>"

text \<open>\<open>seekg(0, end)\<close> and \<open>seekg(0, beg)\<close>: nothing on a failed stream, a failure on a closed one.\<close>

definition seek_end :: "ifstream \<Rightarrow> ifstream" where
  "seek_end st = (if if_fail st then st else
     (case if_content st of None \<Rightarrow> st\<lparr>if_fail := True\<rparr> | Some c \<Rightarrow> st\<lparr>if_pos := length c\<rparr>))"

definition seek_beg :: "ifstream \<Rightarrow> ifstream" where
  "seek_beg st = (if if_fail st then st else
     (case if_content st of None \<Rightarrow> st\<lparr>if_fail := True\<rparr> | Some c \<Rightarrow> st\<lparr>if_pos := 0\<rparr>))"

definition tellg :: "ifstream \<Rightarrow> int" where
  "tellg st = (if if_fail st \<or> if_content st = None then -1 else int (if_pos st))"

definition size_t :: "int \<Rightarrow> nat" where
  "size_t i = nat (i mod 2 ^ 64)"

text \<open>\<open>readsome\<close> takes what is available without blocking: the rest of the file, up to the limit.\<close>

definition readsome :: "nat \<Rightarrow> ifstream \<Rightarrow> string \<times> ifstream" where
  "readsome n st = (if if_fail st then ([], st) else
     (case if_content st of
        None \<Rightarrow> ([], st)
      | Some c \<Rightarrow> (let d = take n (drop (if_pos st) c) in (d, st\<lparr>if_pos := if_pos st + length d\<rparr>))))"

definition ifstream_close :: "ifstream \<Rightarrow> ifstream" where
  "ifstream_close st = (case if_content st of
     None \<Rightarrow> st\<lparr>if_fail := True\<rparr> | Some _ \<Rightarrow> st\<lparr>if_content := None\<rparr>)"

section \<open>The reader\<close>

record data_reader =
  input_file_stream :: ifstream
  begin_data :: string
  stream_size :: nat

definition DataReader_default :: data_reader where
  "DataReader_default = \<lparr>input_file_stream = ifstream_default, begin_data = [], stream_size = 0\<rparr>"

definition kReadBufSize :: nat where
  "kReadBufSize = 4 * 1024"

definition measured :: "ifstream \<Rightarrow> data_reader \<Rightarrow> data_reader" where
  "measured st r =
     (let st = seek_end st; sz = size_t (tellg st); st = seek_beg st
      in r\<lparr>input_file_stream := st, stream_size := sz\<rparr>)"

definition SetFileStream_path :: "filesystem \<Rightarrow> string \<Rightarrow> data_reader \<Rightarrow> data_reader" where
  "SetFileStream_path fs p r = measured (ifstream_open fs p) r"

definition SetFileStream :: "ifstream \<Rightarrow> data_reader \<Rightarrow> data_reader" where
  "SetFileStream st r = measured st r"

definition SetBeginData :: "string \<Rightarrow> data_reader \<Rightarrow> data_reader" where
  "SetBeginData s r = r\<lparr>begin_data := s\<rparr>"

definition ClearFileStream :: "data_reader \<Rightarrow> data_reader" where
  "ClearFileStream r = r\<lparr>stream_size := 0, input_file_stream := ifstream_close (input_file_stream r)\<rparr>"

definition DataReader_Size :: "data_reader \<Rightarrow> nat" where
  "DataReader_Size r = (stream_size r + length (begin_data r)) mod 2 ^ 64"

text \<open>
  The move constructor and assignment: the source is left with a default stream and an empty
  string, but keeps its \<open>stream_size\<close>.
\<close>

definition DataReader_move :: "data_reader \<Rightarrow> data_reader \<times> data_reader" where
  "DataReader_move r =
     (\<lparr>input_file_stream = input_file_stream r, begin_data = begin_data r, stream_size = stream_size r\<rparr>,
      r\<lparr>input_file_stream := ifstream_default, begin_data := []\<rparr>)"

text \<open>
  A sink gets the bytes from the current position to the end of the block and tells how many it
  took; a sink that does not return is \<open>None\<close>.
\<close>

type_synonym 'w sink_fun = "string \<Rightarrow> 'w \<Rightarrow> (nat \<times> 'w) option"

partial_function (option) write_loop :: "'w sink_fun \<Rightarrow> string \<Rightarrow> nat \<Rightarrow> 'w \<Rightarrow> (nat \<times> 'w) option" where
  "write_loop f dat real w =
     (if real < length dat
      then Option.bind (f (drop real dat) w) (\<lambda>(th, w). write_loop f dat ((real + th) mod 2 ^ 64) w)
      else Some (real, w))"

partial_function (option) stream_loop :: "'w sink_fun \<Rightarrow> nat \<Rightarrow> nat \<Rightarrow> ifstream \<Rightarrow> 'w \<Rightarrow> (ifstream \<times> 'w) option" where
  "stream_loop f sz real st w =
     (if real < sz
      then Option.bind (write_loop f (fst (readsome kReadBufSize st)) 0 w)
             (\<lambda>(sent, w). stream_loop f sz ((real + sent) mod 2 ^ 64) (snd (readsome kReadBufSize st)) w)
      else Some (st, w))"

definition BufferRead :: "'w sink_fun \<Rightarrow> data_reader \<Rightarrow> 'w \<Rightarrow> (data_reader \<times> 'w) option" where
  "BufferRead f r w =
     Option.bind (if begin_data r \<noteq> [] then write_loop f (begin_data r) 0 w else Some (0, w)) (\<lambda>(_, w).
     Option.bind (stream_loop f (stream_size r) 0 (input_file_stream r) w) (\<lambda>(st, w).
     Some (r\<lparr>input_file_stream := seek_beg st\<rparr>, w)))"

section \<open>The contract of a sink\<close>

text \<open>
  \<open>out\<close> is what the sink has taken so far and \<open>ready\<close> the states in which it works: it then
  takes at least one and at most all of the bytes it is given, and stays ready.
\<close>

locale sink =
  fixes f :: "'w sink_fun"
    and out :: "'w \<Rightarrow> string"
    and ready :: "'w \<Rightarrow> bool"
  assumes takes: "ready w \<Longrightarrow> dat \<noteq> [] \<Longrightarrow>
      \<exists>n w'. f dat w = Some (n, w') \<and> 0 < n \<and> n \<le> length dat \<and> ready w' \<and> out w' = out w @ take n dat"
begin

lemma write_loop_all:
  assumes "ready w" "real \<le> length dat" "length dat < 2 ^ 64"
  shows "\<exists>w'. write_loop f dat real w = Some (length dat, w') \<and> ready w' \<and> out w' = out w @ drop real dat"
  using assms
proof (induction "length dat - real" arbitrary: real w rule: less_induct)
  case less
  show ?case
  proof (cases "real < length dat")
    case True
    then obtain n w1 where n: "f (drop real dat) w = Some (n, w1)" "0 < n" "n \<le> length dat - real"
      "ready w1" "out w1 = out w @ take n (drop real dat)"
      using takes [OF less.prems(1), of "drop real dat"] by auto
    have m: "(real + n) mod 2 ^ 64 = real + n"
      using n True less.prems(3) by (intro mod_less) simp
    have dec: "length dat - (real + n) < length dat - real" "real + n \<le> length dat"
      using n True by linarith+
    obtain w2 where "write_loop f dat (real + n) w1 = Some (length dat, w2)" "ready w2"
      "out w2 = out w1 @ drop (real + n) dat"
      using less.hyps [OF dec(1) n(4) dec(2) less.prems(3)] by auto
    moreover have "take n (drop real dat) @ drop (real + n) dat = drop real dat"
      by (metis add.commute append_take_drop_id drop_drop)
    ultimately show ?thesis
      using True n m by (subst write_loop.simps) simp
  next
    case False
    then show ?thesis using less.prems by (subst write_loop.simps) simp
  qed
qed

lemma stream_loop_all:
  assumes "ready w" "if_content st = Some c" "\<not> if_fail st" "if_pos st \<le> length c" "length c < 2 ^ 64"
  shows "\<exists>w'. stream_loop f (length c) (if_pos st) st w = Some (st\<lparr>if_pos := length c\<rparr>, w') \<and>
     ready w' \<and> out w' = out w @ drop (if_pos st) c"
  using assms
proof (induction "length c - if_pos st" arbitrary: st w rule: less_induct)
  case less
  show ?case
  proof (cases "if_pos st < length c")
    case True
    define d where "d = take kReadBufSize (drop (if_pos st) c)"
    define st1 where "st1 = st\<lparr>if_pos := if_pos st + length d\<rparr>"
    have rs: "readsome kReadBufSize st = (d, st1)"
      using less.prems by (simp add: readsome_def d_def st1_def)
    have ld: "0 < length d" "if_pos st + length d \<le> length c"
      using True by (auto simp: d_def kReadBufSize_def)
    have "length d < 2 ^ 64" using ld less.prems(5) by simp
    then obtain w1 where w1: "write_loop f d 0 w = Some (length d, w1)" "ready w1" "out w1 = out w @ d"
      using write_loop_all [of w 0 d] less.prems(1) by auto
    have m: "(if_pos st + length d) mod 2 ^ 64 = if_pos st + length d"
      using ld less.prems(5) by (intro mod_less) simp
    have dec: "length c - if_pos st1 < length c - if_pos st"
    proof -
      have "if_pos st1 = if_pos st + length d" by (simp add: st1_def)
      with ld(1) True show ?thesis by linarith
    qed
    have st1: "if_content st1 = Some c" "\<not> if_fail st1" "if_pos st1 \<le> length c"
      using less.prems ld by (simp_all add: st1_def)
    obtain w2 where "stream_loop f (length c) (if_pos st1) st1 w1 = Some (st1\<lparr>if_pos := length c\<rparr>, w2)" "ready w2"
      "out w2 = out w1 @ drop (if_pos st1) c"
      using less.hyps [OF dec w1(2) st1 less.prems(5)] by auto
    moreover have "d @ drop (if_pos st + length d) c = drop (if_pos st) c"
      by (metis add.commute append_eq_conv_conj append_take_drop_id d_def drop_drop)
    ultimately show ?thesis
      using True w1 m by (subst stream_loop.simps) (simp add: rs st1_def)
  next
    case False
    then show ?thesis using less.prems by (subst stream_loop.simps) simp
  qed
qed

text \<open>A reader whose stream is open at its start delivers its data and the whole file.\<close>

lemma BufferRead_all:
  assumes "ready w" "length (begin_data r) < 2 ^ 64" "length c < 2 ^ 64"
    and "input_file_stream r = \<lparr>if_content = Some c, if_pos = 0, if_fail = False\<rparr>" "stream_size r = length c"
  shows "\<exists>w'. BufferRead f r w = Some (r, w') \<and> ready w' \<and> out w' = out w @ begin_data r @ c"
proof -
  obtain w1 where 1: "(if begin_data r \<noteq> [] then write_loop f (begin_data r) 0 w else Some (0, w)) = Some (length (begin_data r), w1)"
    "ready w1" "out w1 = out w @ begin_data r"
    using write_loop_all [of w 0 "begin_data r"] assms(1,2) by (cases "begin_data r = []") auto
  obtain w2 where 2: "stream_loop f (length c) 0 (input_file_stream r) w1 = Some ((input_file_stream r)\<lparr>if_pos := length c\<rparr>, w2)"
    "ready w2" "out w2 = out w1 @ c"
    using stream_loop_all [OF 1(2), of "input_file_stream r" c] assms(3,4) by auto
  have "r\<lparr>input_file_stream := seek_beg ((input_file_stream r)\<lparr>if_pos := length c\<rparr>)\<rparr> = r"
    using assms(4) by (cases r) (simp add: seek_beg_def)
  then show ?thesis
    using 1 2 assms(5) by (auto simp: BufferRead_def)
qed

text \<open>Without a stream it delivers its data.\<close>

lemma BufferRead_begin:
  assumes "ready w" "length (begin_data r) < 2 ^ 64" "stream_size r = 0"
  shows "\<exists>w'. BufferRead f r w = Some (r\<lparr>input_file_stream := seek_beg (input_file_stream r)\<rparr>, w') \<and>
     ready w' \<and> out w' = out w @ begin_data r"
proof -
  obtain w1 where 1: "(if begin_data r \<noteq> [] then write_loop f (begin_data r) 0 w else Some (0, w)) = Some (length (begin_data r), w1)"
    "ready w1" "out w1 = out w @ begin_data r"
    using write_loop_all [of w 0 "begin_data r"] assms(1,2) by (cases "begin_data r = []") auto
  show ?thesis
    using 1 assms(3) by (auto simp: BufferRead_def stream_loop.simps [of _ "0 :: nat"])
qed

end

lemma write_loop_Nil [simp]: "write_loop f [] 0 w = Some (0, w)"
  by (subst write_loop.simps) simp

section \<open>Sending on a socket as a sink\<close>

text \<open>
  What the documentation of \<open>send\<close> says of a connection that stays up: a call takes between one
  byte and the whole buffer, or fails without taking any, and only finitely many calls in a row
  fail; \<open>tries\<close> bounds their number.
\<close>

locale sending_kernel =
  fixes os :: "'k sys" and s :: socket
    and kout :: "'k \<Rightarrow> string" and kready :: "'k \<Rightarrow> bool" and tries :: "'k \<Rightarrow> nat"
  assumes send_law: "kready k \<Longrightarrow> buf \<noteq> [] \<Longrightarrow> sys_send os (m_sockfd s) buf k = (r, k') \<Longrightarrow>
      kready k' \<and>
      (r = -1 \<and> kout k' = kout k \<and> tries k' < tries k \<or>
       0 < r \<and> r \<le> int (length buf) \<and> r < 2 ^ 63 \<and> kout k' = kout k @ take (nat r) buf)"
begin

lemma Socket_send_takes:
  assumes "kready (kern w)" "buf \<noteq> []"
  shows "\<exists>n w'. Socket_send os s buf w = Some (n, w') \<and> 0 < n \<and> n \<le> length buf \<and> kready (kern w') \<and>
     kout (kern w') = kout (kern w) @ take n buf \<and> logged w' = logged w"
  using assms
proof (induction "tries (kern w)" arbitrary: w rule: less_induct)
  case less
  obtain r k where rk: "sys_send os (m_sockfd s) buf (kern w) = (r, k)" by force
  note law = send_law [OF less.prems rk]
  show ?case
  proof (cases "r = -1")
    case True
    with law less.hyps [of "w\<lparr>kern := k\<rparr>"] less.prems show ?thesis
      by (subst Socket_send_step) (simp add: rk)
  next
    case False
    then have r: "0 < r" "r \<le> int (length buf)" "r < 2 ^ 63" using law by auto
    then have "r mod 2 ^ 64 = r" by (intro mod_pos_pos_trivial) auto
    with False law r show ?thesis
      by (subst Socket_send_step) (auto simp: rk)
  qed
qed

end

sublocale sending_kernel \<subseteq> sink "Socket_send os s" "\<lambda>w. kout (kern w)" "\<lambda>w. kready (kern w)"
  using Socket_send_takes by unfold_locales blast

text \<open>The scripted kernel is one of these as long as its script has failures and positive answers only.\<close>

definition net_ready :: "net \<Rightarrow> bool" where
  "net_ready k \<longleftrightarrow> (\<forall>a \<in> set (net_send k). a = -1 \<or> 0 < a)"

interpretation net: sending_kernel net_sys s net_sent net_ready "\<lambda>k. length (net_send k)" for s
proof
  fix k buf r k'
  assume "net_ready k" "buf \<noteq> []" and c: "sys_send net_sys (m_sockfd s) buf k = (r, k')"
  then show "net_ready k' \<and>
     (r = -1 \<and> net_sent k' = net_sent k \<and> length (net_send k') < length (net_send k) \<or>
      0 < r \<and> r \<le> int (length buf) \<and> r < 2 ^ 63 \<and> net_sent k' = net_sent k @ take (nat r) buf)"
    by (cases "net_send k") (auto simp: net_sys_def net_taken_def net_ready_def)
qed

section \<open>What the reader does\<close>

text \<open>
  C27: A reader that was given begin data and a file sends exactly the begin data followed by the
  whole file over a connection that stays up, however the kernel cuts the sends, and returns with
  the stream back at its start; its reported size is the number of bytes sent.
\<close>

theorem reader_delivers:
  assumes "sending_kernel os s kout kready tries" "kready (kern w)"
    and "fs p = Some c" "length b + length c < 2 ^ 64"
  shows "\<exists>w'. BufferRead (Socket_send os s) (SetBeginData b (SetFileStream_path fs p r)) w =
       Some (SetBeginData b (SetFileStream_path fs p r), w') \<and>
     kout (kern w') = kout (kern w) @ b @ c \<and>
     DataReader_Size (SetBeginData b (SetFileStream_path fs p r)) = length (b @ c)"
proof -
  define r' where "r' = SetBeginData b (SetFileStream_path fs p r)"
  have "int (length c) < 2 ^ 64" using assms(4) by simp
  then have r': "input_file_stream r' = \<lparr>if_content = Some c, if_pos = 0, if_fail = False\<rparr>"
    "stream_size r' = length c" "begin_data r' = b"
    by (simp_all add: r'_def SetBeginData_def SetFileStream_path_def measured_def ifstream_open_def assms(3)
        seek_end_def seek_beg_def tellg_def size_t_def)
  have sk: "sink (Socket_send os s) (\<lambda>w. kout (kern w)) (\<lambda>w. kready (kern w))"
    using sending_kernel.Socket_send_takes [OF assms(1)] by (intro sink.intro) blast
  have "\<exists>w'. BufferRead (Socket_send os s) r' w = Some (r', w') \<and> kready (kern w') \<and>
      kout (kern w') = kout (kern w) @ begin_data r' @ c"
    using r' assms(2,4) by (intro sink.BufferRead_all [OF sk]) simp_all
  then show ?thesis
    using r' assms(4) by (auto simp: DataReader_Size_def simp flip: r'_def)
qed

theorem reader_delivers_witness:
  "\<exists>r' w'. BufferRead (Socket_send net_sys Socket_default)
      (SetBeginData ''head '' (SetFileStream_path [''f'' \<mapsto> ''file''] ''f'' DataReader_default)) (net_world [] [-1, 2, 4]) =
     Some (r', w') \<and> net_sent (kern w') = ''head file''"
proof -
  have "net_ready (kern (net_world [] [-1, 2, 4]))" by (simp add: net_ready_def net_world_def)
  from reader_delivers [OF net.sending_kernel_axioms [of Socket_default] this, of "[''f'' \<mapsto> ''file'']" "''f''" "''file''" "''head ''" DataReader_default]
  show ?thesis by (auto simp: net_world_def)
qed

section \<open>Streams that are too short\<close>

definition available :: "ifstream \<Rightarrow> nat" where
  "available st = (if if_fail st then 0 else case if_content st of None \<Rightarrow> 0 | Some c \<Rightarrow> length c - if_pos st)"

lemma readsome_available:
  "length (fst (readsome n st)) + available (snd (readsome n st)) = available st"
  by (auto simp: readsome_def available_def Let_def split: option.splits)

text \<open>A sink that never claims more than it was given.\<close>

definition honest :: "'w sink_fun \<Rightarrow> bool" where
  "honest f \<longleftrightarrow> (\<forall>dat w n w'. f dat w = Some (n, w') \<longrightarrow> n \<le> length dat)"

lemma write_loop_honest:
  "write_loop f dat real w = Some y \<Longrightarrow> honest f \<longrightarrow> real \<le> length dat \<longrightarrow> length dat < 2 ^ 64 \<longrightarrow> fst y = length dat"
proof (induction rule: write_loop.raw_induct [where
      P = "\<lambda>f dat real w y. honest f \<longrightarrow> real \<le> length dat \<longrightarrow> length dat < 2 ^ 64 \<longrightarrow> fst y = length dat",
      rotated, consumes 1])
  case (1 loop f dat real w y)
  show ?case
  proof (intro impI)
    assume pre: "honest f" "real \<le> length dat" "length dat < 2 ^ 64"
    show "fst y = length dat"
    proof (cases "real < length dat")
    case True
    then obtain n w1 where n: "f (drop real dat) w = Some (n, w1)" "loop f dat ((real + n) mod 2 ^ 64) w1 = Some y"
      using 1(2) by (auto split: Option.bind_splits)
    then have "n \<le> length dat - real" using pre(1) by (force simp: honest_def)
    then have "real + n \<le> length dat" "(real + n) mod 2 ^ 64 = real + n" using True pre(3) by auto
    then show ?thesis using 1(1) [OF n(2)] pre by simp
  next
    case False
    then show ?thesis using 1(2) pre by auto
    qed
  qed
qed

lemma stream_loop_honest:
  "stream_loop f sz real st w = Some y \<Longrightarrow> honest f \<longrightarrow> real + available st < 2 ^ 64 \<longrightarrow> sz \<le> real + available st"
proof (induction rule: stream_loop.raw_induct [where
      P = "\<lambda>f sz real st w y. honest f \<longrightarrow> real + available st < 2 ^ 64 \<longrightarrow> sz \<le> real + available st",
      rotated, consumes 1])
  case (1 loop f sz real st w y)
  show ?case
  proof (intro impI)
    assume pre: "honest f" "real + available st < 2 ^ 64"
    show "sz \<le> real + available st"
    proof (cases "real < sz")
    case True
    define d where "d = fst (readsome kReadBufSize st)"
    define st1 where "st1 = snd (readsome kReadBufSize st)"
    have a: "length d + available st1 = available st"
      unfolding d_def st1_def by (rule readsome_available)
    obtain n w1 where n: "write_loop f d 0 w = Some (n, w1)" "loop f sz ((real + n) mod 2 ^ 64) st1 w1 = Some y"
      using 1(2) True by (auto split: Option.bind_splits simp: d_def st1_def)
    have "n = length d" using write_loop_honest [OF n(1)] pre a by simp
    then have "(real + n) mod 2 ^ 64 = real + n" "real + n + available st1 = real + available st"
      using a pre by simp_all
    then show ?thesis using 1(1) [OF n(2)] pre by simp
    qed simp
  qed
qed

text \<open>
  C39: A reader never returns from a stream that holds fewer bytes than it counted: whatever the
  sink does (as long as it claims no more than it was given), a \<open>BufferRead\<close> that returns had at
  least \<open>stream_size\<close> bytes available.  In particular a file that could not be opened is counted
  as \<open>2^64 - 1\<close> bytes (\<open>tellg\<close> gives \<open>-1\<close>), and reading it never ends.
\<close>

theorem reader_stuck_on_short_stream:
  assumes "honest f" "available (input_file_stream r) < 2 ^ 64"
  shows "(BufferRead f r w = Some y \<longrightarrow> stream_size r \<le> available (input_file_stream r)) \<and>
     (fs p = None \<longrightarrow> BufferRead f (SetBeginData b (SetFileStream_path fs p r)) w = None)"
proof -
  have ret: "stream_size r' \<le> available (input_file_stream r')"
    if "BufferRead f r' w = Some y" "available (input_file_stream r') < 2 ^ 64" for r' y
    using that assms(1) stream_loop_honest [of f "stream_size r'" 0 "input_file_stream r'"]
    by (auto simp: BufferRead_def split: Option.bind_splits)
  have "BufferRead f (SetBeginData b (SetFileStream_path fs p r)) w = None" if "fs p = None"
  proof -
    define r' where "r' = SetBeginData b (SetFileStream_path fs p r)"
    have "stream_size r' = 2 ^ 64 - 1" "available (input_file_stream r') = 0"
      using that by (simp_all add: r'_def SetBeginData_def SetFileStream_path_def measured_def ifstream_open_def
          seek_end_def seek_beg_def tellg_def size_t_def available_def)
    then show ?thesis using ret [of r'] by (cases "BufferRead f r' w") (auto simp flip: r'_def)
  qed
  with ret [of r y] assms(2) show ?thesis by blast
qed

theorem reader_stuck_on_short_stream_witness:
  "BufferRead (\<lambda>dat (n :: nat). Some (length dat, n + length dat))
     (SetBeginData ''head'' (SetFileStream_path (\<lambda>_. None) ''missing'' DataReader_default)) 0 = None"
proof -
  have "honest (\<lambda>dat (n :: nat). Some (length dat, n + length dat))" by (simp add: honest_def)
  moreover have "available (input_file_stream DataReader_default) < 2 ^ 64"
    by (simp add: DataReader_default_def ifstream_default_def available_def)
  ultimately show ?thesis
    using reader_stuck_on_short_stream [of "\<lambda>dat (n :: nat). Some (length dat, n + length dat)" DataReader_default
        0 _ "\<lambda>_. None" "''missing''" "''head''"] by blast
qed

end
