(* ===== verification/Request.thy ===== *)
theory Request
  imports Decimal
begin

text \<open>
  The request object of \<^verbatim>\<open>src/include/web/request.h\<close> and \<^verbatim>\<open>src/web/request.cpp\<close>, and the JSON
  values it can carry.  Parsing and printing JSON is the work of a library and appears in the
  components that use it as a parameter.
\<close>

datatype json =
    JNull
  | JBool bool
  | JInt int
  | JDouble dbl
  | JStr string
  | JArr "json list"
  | JObj "(string \<times> json) list"

record request =
  req_is_json :: bool
  req_method :: string
  req_url :: string
  req_version :: string
  req_path :: string
  req_body :: string
  req_body_size :: nat
  req_from_ip :: string
  req_body_json :: json
  req_params :: "string \<rightharpoonup> string"
  req_headers :: "string \<rightharpoonup> string"
  req_cookies :: "string \<rightharpoonup> string"

definition Request_default :: request where
  "Request_default = \<lparr>req_is_json = False, req_method = '''', req_url = '''', req_version = '''',
     req_path = '''', req_body = '''', req_body_size = 0, req_from_ip = '''', req_body_json = JNull,
     req_params = Map.empty, req_headers = Map.empty, req_cookies = Map.empty\<rparr>"

definition header :: "request \<Rightarrow> string \<Rightarrow> string" where
  "header req name = (case req_headers req name of Some v \<Rightarrow> v | None \<Rightarrow> '''')"

definition cookie :: "request \<Rightarrow> string \<Rightarrow> string" where
  "cookie req name = (case req_cookies req name of Some v \<Rightarrow> v | None \<Rightarrow> '''')"

definition path :: "request \<Rightarrow> string" where
  "path req = req_path req"

text \<open>\<open>std::map::emplace\<close> keeps the first value of a key.\<close>

definition emplace :: "'a \<Rightarrow> 'b \<Rightarrow> ('a \<rightharpoonup> 'b) \<Rightarrow> ('a \<rightharpoonup> 'b)" where
  "emplace k v m = (if m k = None then m(k \<mapsto> v) else m)"

lemma emplace_map_add: "emplace k v m = [k \<mapsto> v] ++ m"
  by (auto simp: emplace_def map_add_def fun_eq_iff split: option.splits)

lemma emplace_all: "foldl (\<lambda>m (k, v). emplace k v m) m kvs = map_of kvs ++ m"
proof (induction kvs arbitrary: m)
  case (Cons kv kvs)
  obtain k v where "kv = (k, v)" by force
  moreover have "map_of kvs ++ ([k \<mapsto> v] ++ m) = (map_of kvs)(k \<mapsto> v) ++ m"
    by (simp only: map_add_assoc map_add_upd map_add_empty)
  ultimately show ?case using Cons by (simp add: emplace_map_add fun_upd_def)
qed simp

end
