(* ===== verification/Url.thy ===== *)
theory Url
  imports Prelude
begin

text \<open>
  The URL coding of \<^verbatim>\<open>src/web/request_maker.cpp\<close>: \<open>RequestMaker::UrlEncode\<close>, \<open>UrlDecode\<close>
  and \<open>UrlCodeGetHEX\<close> with their two character tables.
\<close>

definition kNumMap :: string where
  "kNumMap = ''0123456789ABCDEF''"

text \<open>The raw string \<^verbatim>\<open>"%<>[\]^_`{|}\<close>, with its double quote.\<close>

definition kAsciiMap :: string where
  "kAsciiMap = [CHR 0x22, CHR ''%'', CHR ''<'', CHR ''>'', CHR ''['', CHR 0x5C, CHR '']'',
                CHR 0x5E, CHR ''_'', CHR 0x60, CHR ''{'', CHR ''|'', CHR ''}'']"

text \<open>\<open>std::find(begin, end, c) - begin\<close>: the size of the range when nothing is found.\<close>

definition find_pos :: "char \<Rightarrow> string \<Rightarrow> nat" where
  "find_pos c s = length (takeWhile (\<lambda>d. d \<noteq> c) s)"

definition UrlCodeGetHEX :: "char \<Rightarrow> char \<Rightarrow> char" where
  "UrlCodeGetHEX l r =
     (let ll = find_pos l kNumMap; rr = find_pos r kNumMap in to_char (int (push_bit 4 ll + rr)))"

definition UrlEncode_char :: "char \<Rightarrow> string" where
  "UrlEncode_char it =
     (if drop_bit 7 (schar it) AND 1 \<noteq> 0 \<or> it \<in> set kAsciiMap
      then [CHR ''%'', kNumMap ! nat (drop_bit 4 (schar it) AND 0x0F), kNumMap ! nat (schar it AND 0x0F)]
      else [it])"

definition UrlEncode :: "string \<Rightarrow> string" where
  "UrlEncode url = concat (map UrlEncode_char url)"

text \<open>
  After a percent sign the loop needs two more characters.  With one left, the decoder first
  reads the terminating zero as the second digit and then throws, so both short cases end in
  the same exception.
\<close>

fun UrlDecode :: "string \<Rightarrow> string result" where
  "UrlDecode [] = Inr []"
| "UrlDecode (c # rest) =
     (if c = CHR ''%'' then
        (case rest of
           l # r # rest' \<Rightarrow> res_map (\<lambda>ret. UrlCodeGetHEX l r # ret) (UrlDecode rest')
         | _ \<Rightarrow> Inl (InvalidArgument ''url is invalid''))
      else res_map (\<lambda>ret. c # ret) (UrlDecode rest))"

section \<open>Hexadecimal digits\<close>

lemma length_kNumMap [simp]: "length kNumMap = 16"
  by (simp add: kNumMap_def)

lemma find_pos_nth: "distinct s \<Longrightarrow> n < length s \<Longrightarrow> find_pos (s ! n) s = n"
proof (induction s arbitrary: n)
  case (Cons a s)
  then show ?case by (cases n) (auto simp: find_pos_def)
qed simp

lemma find_pos_absent: "c \<notin> set s \<Longrightarrow> find_pos c s = length s"
  unfolding find_pos_def by (induction s) auto

lemma find_pos_le: "find_pos c s \<le> length s"
  unfolding find_pos_def by (rule length_takeWhile_le)

lemma distinct_kNumMap: "distinct kNumMap"
  by (simp add: kNumMap_def)

lemma UrlCodeGetHEX_digits:
  assumes "h < 16" "l < 16"
  shows "UrlCodeGetHEX (kNumMap ! h) (kNumMap ! l) = char_of (h * 16 + l)"
  using assms
  by (simp add: UrlCodeGetHEX_def find_pos_nth [OF distinct_kNumMap] push_bit_eq_mult to_char_nat
      del: of_nat_add of_nat_mult)

lemma nibbles:
  "nat (drop_bit 4 (schar c) AND 0x0F) = uchar c div 16" "nat (schar c AND 0x0F) = uchar c mod 16"
proof -
  have m: "x AND 0x0F = x mod 16" for x :: int
    using take_bit_eq_mask [of 4 x] by (simp add: mask_eq_exp_minus_1 take_bit_eq_mod)
  have lo: "schar c mod 16 = int (uchar c) mod 16"
    unfolding mod_eq_dvd_iff by (simp add: schar_def)
  then show "nat (schar c AND 0x0F) = uchar c mod 16"
    by (simp add: m nat_mod_distrib)
  have "schar c div 16 mod 16 = schar c mod 256 div 16"
    using zmod_zmult2_eq [of 16 "schar c" 16] by simp
  then show "nat (drop_bit 4 (schar c) AND 0x0F) = uchar c div 16"
    by (simp add: m drop_bit_eq_div schar_mod nat_div_distrib)
qed

lemma UrlCodeGetHEX_nibbles:
  "UrlCodeGetHEX (kNumMap ! nat (drop_bit 4 (schar c) AND 0x0F)) (kNumMap ! nat (schar c AND 0x0F)) = c"
proof -
  have "uchar c div 16 < 16" by (simp add: less_mult_imp_div_less)
  then have "UrlCodeGetHEX (kNumMap ! (uchar c div 16)) (kNumMap ! (uchar c mod 16)) = char_of (uchar c)"
    by (subst UrlCodeGetHEX_digits) simp_all
  then show ?thesis by (simp only: nibbles char_of_uchar)
qed

section \<open>Round trip\<close>

lemma UrlEncode_Cons: "UrlEncode (c # s) = UrlEncode_char c @ UrlEncode s"
  by (simp add: UrlEncode_def)

lemma UrlDecode_UrlEncode: "UrlDecode (UrlEncode s) = Inr s"
proof (induction s)
  case Nil
  show ?case by (simp add: UrlEncode_def)
next
  case (Cons c s)
  have "CHR ''%'' \<in> set kAsciiMap" by (simp add: kAsciiMap_def)
  with Cons show ?case
    by (auto simp: UrlEncode_Cons UrlEncode_char_def UrlCodeGetHEX_nibbles)
qed

interpretation url: codec "\<lambda>s. Inr (UrlEncode s)" UrlDecode "\<lambda>_. True"
  by unfold_locales (auto simp: UrlDecode_UrlEncode)

lemma UrlDecode_plain: "CHR ''%'' \<notin> set s \<Longrightarrow> UrlDecode s = Inr s"
  by (induction s) auto

text \<open>What the encoder may leave in its output.\<close>

definition url_safe :: "char \<Rightarrow> bool" where
  "url_safe c \<longleftrightarrow> uchar c < 128 \<and> (c \<notin> set kAsciiMap \<or> c = CHR ''%'')"

lemma kNumMap_safe: "n < 16 \<Longrightarrow> url_safe (kNumMap ! n)"
proof -
  have "list_all url_safe kNumMap"
    by (simp add: kNumMap_def url_safe_def uchar_def kAsciiMap_def)
  then show "n < 16 \<Longrightarrow> url_safe (kNumMap ! n)" by (simp add: list_all_length)
qed

lemma schar_sign_bit: "drop_bit 7 (schar c) AND 1 \<noteq> 0 \<longleftrightarrow> 128 \<le> uchar c"
proof -
  have "drop_bit 7 (schar c) = (if uchar c < 128 then 0 else - 1)"
    using uchar_less [of c] by (auto simp: drop_bit_eq_div schar_def div_pos_pos_trivial int_div_less_self
        zdiv_eq_0_iff simp del: uchar_less intro!: div_eq_minus1)
  then show ?thesis by simp
qed

lemma UrlEncode_char_safe: "x \<in> set (UrlEncode_char c) \<Longrightarrow> url_safe x"
proof -
  have p: "url_safe (CHR ''%'')" by (simp add: url_safe_def uchar_def)
  have n: "nat (drop_bit 4 (schar c) AND 0x0F) < 16" "nat (schar c AND 0x0F) < 16"
    by (simp_all only: nibbles) (simp_all add: less_mult_imp_div_less)
  show "x \<in> set (UrlEncode_char c) \<Longrightarrow> url_safe x"
    unfolding UrlEncode_char_def schar_sign_bit
    using p n [THEN kNumMap_safe] by (auto simp: url_safe_def [of c] split: if_splits)
qed

lemma UrlEncode_safe: "\<forall>c \<in> set (UrlEncode s). url_safe c"
  by (auto simp: UrlEncode_def UrlEncode_char_safe)

text \<open>
  A digit that is not one of the sixteen upper-case ones counts as 16: an escape in lower-case
  letters decodes to the byte 16, whatever it stands for.
\<close>

lemma UrlDecode_other_digits:
  assumes "l \<notin> set kNumMap" "r \<notin> set kNumMap"
  shows "UrlDecode (CHR ''%'' # l # r # s) = res_map (\<lambda>t. CHR 0x10 # t) (UrlDecode s)"
proof -
  have "char_of (16 :: nat) = CHR 0x10" by code_simp
  then show ?thesis
    using assms by (simp add: UrlCodeGetHEX_def find_pos_absent push_bit_eq_mult to_char_def)
qed

text \<open>The five shapes of input.\<close>

lemma UrlDecode_simps:
  "UrlDecode [CHR ''%''] = Inl (InvalidArgument ''url is invalid'')"
  "UrlDecode [CHR ''%'', l] = Inl (InvalidArgument ''url is invalid'')"
  "UrlDecode (CHR ''%'' # l # r # s) = res_map (\<lambda>ret. UrlCodeGetHEX l r # ret) (UrlDecode s)"
  "c \<noteq> CHR ''%'' \<Longrightarrow> UrlDecode (c # s) = res_map (\<lambda>ret. c # ret) (UrlDecode s)"
  by simp_all

lemma url_cases:
  obtains "s = []" | c t where "s = c # t" "c \<noteq> CHR ''%''" | "s = [CHR ''%'']"
    | l where "s = [CHR ''%'', l]" | l r t where "s = CHR ''%'' # l # r # t"
  by (metis neq_Nil_conv)

lemma UrlDecode_length: "UrlDecode s = Inr t \<Longrightarrow> length t \<le> length s"
proof (induction s arbitrary: t rule: length_induct)
  case (1 s)
  have IH: "UrlDecode s' = Inr t' \<Longrightarrow> length s' < length s \<Longrightarrow> length t' \<le> length s'" for s' t'
    using "1.IH" by blast
  from "1.prems" show ?case
    by (cases s rule: url_cases)
      (auto simp: res_map_eq_Inr UrlDecode_simps simp del: UrlDecode.simps(2) dest!: IH)
qed

lemma UrlDecode_error: "UrlDecode s = Inl e \<Longrightarrow> e = InvalidArgument ''url is invalid''"
proof (induction s rule: length_induct)
  case (1 s)
  have IH: "UrlDecode s' = Inl e \<Longrightarrow> length s' < length s \<Longrightarrow> e = InvalidArgument ''url is invalid''" for s'
    using "1.IH" by blast
  from "1.prems" show ?case
    by (cases s rule: url_cases)
      (auto simp: res_map_eq_Inl UrlDecode_simps simp del: UrlDecode.simps(2) dest!: IH)
qed

section \<open>Properties\<close>


text \<open>
  an escape whose digits are not among the sixteen upper-case ones is not refused: it always
  decodes to the byte 16, and the rest of the string is decoded as usual.
\<close>

lemma url_decode_lower_case:
  assumes "l \<notin> set kNumMap" and "r \<notin> set kNumMap"
  shows "UrlDecode (CHR ''%'' # l # r # s) = res_map (\<lambda>t. CHR 0x10 # t) (UrlDecode s)"
  using assms by (rule UrlDecode_other_digits)

lemma url_decode_lower_case_witness: "UrlDecode ''%ab!'' = Inr [CHR 0x10, CHR ''!'']"
  using url_decode_lower_case [of "CHR ''a''" "CHR ''b''" "''!''"] by (simp add: kNumMap_def)

end
