(* ===== verification/Request_Maker.thy ===== *)
theory Request_Maker
  imports Request Url Socket
begin

text \<open>
  The request parser of \<^verbatim>\<open>src/include/web/request_maker.h\<close> and \<^verbatim>\<open>src/web/request_maker.cpp\<close>.  A
  pointer into the receive buffer is a position in the list of the buffer's bytes, and every read
  at or behind the end of that list is the error \<open>OutOfBounds\<close>.  No call passes an end pointer, so
  the scanning loops have no other bound.
\<close>

section \<open>Scanning\<close>

definition kReqBufSize :: nat where
  "kReqBufSize = 512 * 1024"

definition is_ws :: "char \<Rightarrow> bool" where
  "is_ws c \<longleftrightarrow> c = CHR '' '' \<or> c = CHR 0x0D \<or> c = CHR 0x0A \<or> c = CHR 0x09"

definition is_eol :: "char \<Rightarrow> bool" where
  "is_eol c \<longleftrightarrow> c = CHR 0x0D \<or> c = CHR 0x0A"

text \<open>\<open>while (P(*ptr)) ptr++\<close>\<close>

function skip_while :: "(char \<Rightarrow> bool) \<Rightarrow> string \<Rightarrow> nat \<Rightarrow> nat result" where
  "skip_while P mem ptr =
     (if ptr < length mem
      then if P (mem ! ptr) then skip_while P mem (Suc ptr) else Inr ptr
      else Inl OutOfBounds)"
  by auto
termination by (relation "measure (\<lambda>(_, mem, ptr). length mem - ptr)") auto

declare skip_while.simps [simp del]

text \<open>\<open>std::string(buf, n)\<close>: a negative length is a huge \<open>size_t\<close>.\<close>

definition string_from :: "string \<Rightarrow> nat \<Rightarrow> int \<Rightarrow> string result" where
  "string_from mem buf n = (if n < 0 then Inl LengthError else Inr (take (nat n) (drop buf mem)))"

definition GetNextWord :: "string \<Rightarrow> nat \<Rightarrow> (nat \<times> string) result" where
  "GetNextWord mem buf =
     res_bind (skip_while is_ws mem buf) (\<lambda>bg.
     res_bind (skip_while (\<lambda>c. \<not> is_ws c) mem buf) (\<lambda>ptr.
     res_bind (string_from mem bg (int ptr - int bg)) (\<lambda>str.
     res_bind (skip_while is_ws mem ptr) (\<lambda>ptr. Inr (ptr, str)))))"

definition GetNextLine :: "string \<Rightarrow> nat \<Rightarrow> (nat \<times> string) result" where
  "GetNextLine mem buf =
     res_bind (skip_while (\<lambda>c. \<not> is_eol c) mem buf) (\<lambda>ptr.
     res_bind (string_from mem buf (int ptr - int buf)) (\<lambda>str.
     Inr ((if mem ! ptr = CHR 0x0D then ptr + 1 else ptr) + 1, str)))"

function Split :: "string \<Rightarrow> char \<Rightarrow> string list" where
  "Split s ch =
     (if s = [] then []
      else takeWhile (\<lambda>c. c \<noteq> ch) s # Split (drop (Suc (length (takeWhile (\<lambda>c. c \<noteq> ch) s))) s) ch)"
  by auto
termination by (relation "measure (\<lambda>(s, _). length s)") auto

declare Split.simps [simp del]

text \<open>
  The comparison loop of \<open>TestContentTypeMultipart\<close> and \<open>TestContentTypeJson\<close>, with the index
  into the string and its terminating zero.
\<close>

fun test_text :: "string \<Rightarrow> string \<Rightarrow> nat \<Rightarrow> bool result" where
  "test_text [] str i = Inr True"
| "test_text (c # text) str i =
     res_bind (array_at (str @ [CHR 0x00]) (int i)) (\<lambda>d.
       if c \<noteq> d then Inr False else test_text text str (Suc i))"

definition TestContentTypeMultipart :: "string \<Rightarrow> bool result" where
  "TestContentTypeMultipart str = test_text ''multipart'' str 0"

definition TestContentTypeJson :: "string \<Rightarrow> bool result" where
  "TestContentTypeJson str = test_text ''application/json'' str 0"

section \<open>The head of a request\<close>

text \<open>
  One header line: its text, a line feed and the terminating zero of the string are the memory
  the two scans work on; \<open>key.pop_back()\<close> drops the colon.
\<close>

definition parse_header_line :: "string \<Rightarrow> (string \<times> string) result" where
  "parse_header_line line =
     (let mem = line @ [CHR 0x0A, CHR 0x00] in
      res_bind (GetNextWord mem 0) (\<lambda>(ptr, key).
      res_bind (GetNextLine mem ptr) (\<lambda>(_, val).
      if key = [] then Inl EmptyPop else Inr (butlast key, val))))"

lemma skip_while_bounds:
  "skip_while P mem p = Inr q \<Longrightarrow> p \<le> q \<and> q < length mem"
proof (induction P mem p rule: skip_while.induct)
  case (1 P mem ptr)
  then show ?case by (subst (asm) (2) skip_while.simps) (auto split: if_splits)
qed

lemma GetNextLine_bounds:
  "GetNextLine mem p = Inr (q, s) \<Longrightarrow> p < q \<and> q \<le> Suc (length mem) \<and> p < length mem"
  unfolding GetNextLine_def by (auto simp: res_eq_iffs split: if_splits dest!: skip_while_bounds)

function header_loop :: "string \<Rightarrow> nat \<Rightarrow> string \<Rightarrow> request \<Rightarrow> (nat \<times> request) result" where
  "header_loop mem buf headers req =
     (if headers = [] then Inr (buf, req)
      else case parse_header_line headers of
          Inl e \<Rightarrow> Inl e
        | Inr (key, val) \<Rightarrow>
            (let req = req\<lparr>req_headers := emplace key val (req_headers req)\<rparr> in
             case GetNextLine mem buf of
               Inl e \<Rightarrow> Inl e
             | Inr (buf, headers) \<Rightarrow> header_loop mem buf headers req))"
  by auto
termination
  by (relation "measure (\<lambda>(mem, buf, _, _). length mem + 2 - buf)")
    (auto dest!: GetNextLine_bounds)

declare header_loop.simps [simp del]

text \<open>
  One parameter of the query.  The loop for the equals sign has no bound but the string's zero;
  the value is taken from behind as many bytes as the decoded key has.
\<close>

definition parse_param :: "string \<Rightarrow> (string \<times> string) result" where
  "parse_param th_parm =
     res_bind (skip_while (\<lambda>c. c \<noteq> CHR ''='') (th_parm @ [CHR 0x00]) 0) (\<lambda>index.
     res_bind (UrlDecode (take index th_parm)) (\<lambda>param_key.
     let index = max (Suc index) (length th_parm) in
     res_bind (string_from th_parm (length param_key) (int index - int (length param_key))) (\<lambda>raw.
     res_bind (UrlDecode raw) (\<lambda>param_val. Inr (param_key, param_val)))))"

fun param_loop :: "string list \<Rightarrow> request \<Rightarrow> request result" where
  "param_loop [] req = Inr req"
| "param_loop (th_parm # rest) req =
     res_bind (parse_param th_parm) (\<lambda>(k, v).
       param_loop rest (req\<lparr>req_params := emplace k v (req_params req)\<rparr>))"

definition parse_target :: "request \<Rightarrow> request result" where
  "parse_target req =
     (let path_strings = Split (req_path req) (CHR ''?'') in
      res_bind (array_at path_strings 0) (\<lambda>raw.
      res_bind (UrlDecode raw) (\<lambda>p.
      let req = req\<lparr>req_path := p\<rparr> in
      if length path_strings = 2 then param_loop (Split (path_strings ! 1) (CHR ''&'')) req
      else Inr req)))"

definition ParseHttpHeader :: "string \<Rightarrow> request \<Rightarrow> (nat \<times> request) result" where
  "ParseHttpHeader mem req =
     res_bind (GetNextWord mem 0) (\<lambda>(buf, m).
     let req = req\<lparr>req_method := m\<rparr> in
     res_bind (GetNextWord mem buf) (\<lambda>(buf, p).
     let req = req\<lparr>req_path := p\<rparr> in
     res_bind (GetNextWord mem buf) (\<lambda>(buf, v).
     let req = req\<lparr>req_version := v\<rparr> in
     res_bind (GetNextLine mem buf) (\<lambda>(buf, headers).
     res_bind (header_loop mem buf headers req) (\<lambda>(buf, req).
     res_bind (parse_target req) (\<lambda>req. Inr (buf, req)))))))"

section \<open>Receiving a request\<close>

text \<open>\<open>SaveMultipartFile\<close> has an empty body.\<close>

definition SaveMultipartFile :: "request \<Rightarrow> request" where
  "SaveMultipartFile req = req"

function body_loop :: "'k sys \<Rightarrow> socket \<Rightarrow> nat \<Rightarrow> nat \<Rightarrow> string \<Rightarrow> 'k world \<Rightarrow> (bool \<times> string) \<times> 'k world" where
  "body_loop os s body_size real_read body w =
     (if real_read < body_size then
        (case Socket_recv os s kReqBufSize w of
           (None, w') \<Rightarrow> ((False, body), w')
         | (Some d, w') \<Rightarrow>
             if d = [] then ((False, body), w')
             else body_loop os s body_size (real_read + length d) (body @ d) w')
      else ((True, body), w))"
  by auto
termination
  by (relation "measure (\<lambda>(_, _, n, r, _, _). n - r)") (auto simp: diff_less_mono2)

declare body_loop.simps [simp del]

text \<open>\<open>std::string::c_str\<close> as a C string, and the assignment of a \<open>long\<close> to a \<open>size_t\<close>.\<close>

definition c_str :: "string \<Rightarrow> string" where
  "c_str s = takeWhile (\<lambda>c. c \<noteq> CHR 0x00) s"

definition content_length :: "request \<Rightarrow> nat" where
  "content_length req = nat (strtol (c_str (header req ''Content-Length'')) mod 2 ^ 64)"

text \<open>The branch of \<open>Parse\<close> on the content type: nothing for multipart, else the body's receive loop.\<close>

definition read_body :: "'k sys \<Rightarrow> socket \<Rightarrow> string \<Rightarrow> nat \<Rightarrow> request \<Rightarrow> 'k world \<Rightarrow> ((bool \<times> request) \<times> 'k world) result" where
  "read_body os s dat head_size req w =
     res_bind (TestContentTypeMultipart (header req ''Content-Type'')) (\<lambda>multipart.
     if multipart then Inr ((True, SaveMultipartFile req), w)
     else
       res_bind (string_from dat head_size (int (length dat) - int head_size)) (\<lambda>body.
       case body_loop os s (req_body_size req) (length dat - head_size) body w of
         ((b, body), w) \<Rightarrow> Inr ((b, req\<lparr>req_body := body\<rparr>), w)))"

text \<open>
  \<open>RequestMaker::Parse\<close>.  \<open>stk\<close> is what the uninitialised buffer holds before the first \<open>recv\<close>
  fills its beginning.
\<close>

definition Parse :: "'k sys \<Rightarrow> string \<Rightarrow> socket \<Rightarrow> request \<Rightarrow> 'k world \<Rightarrow> ((bool \<times> request) \<times> 'k world) result" where
  "Parse os stk s req w =
     (case Socket_recv os s kReqBufSize w of
        (None, w) \<Rightarrow> Inr ((False, req), w)
      | (Some dat, w) \<Rightarrow>
          if dat = [] then Inr ((False, req), w)
          else
            res_bind (ParseHttpHeader (dat @ drop (length dat) stk) req) (\<lambda>(head_size, req).
            if head_size = 0 then Inr ((False, req), w)
            else
              (let req = req\<lparr>req_body_size := content_length req, req_from_ip := m_ip s\<rparr> in
               res_bind (read_body os s dat head_size req w) (\<lambda>((b, req), w).
               if \<not> b then Inr ((False, req), w)
               else
                 res_bind (TestContentTypeJson (header req ''Content-Type'')) (\<lambda>j.
                 Inr ((True, if j then req\<lparr>req_is_json := True\<rparr> else req), w))))))"

end
