(* ===== verification/Sqlite.thy ===== *)
theory Sqlite
  imports Socket "HOL-Library.List_Lexorder" "HOL-Library.Char_ord"
begin

text \<open>
  \<^verbatim>\<open>src/database/sqlite3.cpp\<close> and \<^verbatim>\<open>src/include/database/sqlite3.h\<close>: the wrapper of the SQLite
  library with its map of named statements.  The library's calls are parameters over a state \<open>'d\<close>
  of the database; the messages to the logger are kept beside it, as for the sockets.  An error
  that leaves the process is the value \<open>None\<close> where it can happen.
\<close>

section \<open>The library\<close>

text \<open>A column of the current row, an argument of a statement; \<open>stmt\<close> is a pointer, \<open>None\<close> the null pointer.\<close>

datatype sql_value = SInteger int | SDouble dbl | SText string | SBlob string | SNull

datatype sql_param = PInt int | PDouble dbl | PText string | PPtr bool

type_synonym stmt = "nat option"

definition SQLITE_OK :: int where "SQLITE_OK = 0"
definition SQLITE_ROW :: int where "SQLITE_ROW = 100"
definition SQLITE_DONE :: int where "SQLITE_DONE = 101"

record column_meta =
  cm_type :: "string option"
  cm_rule :: string
  cm_not_null :: int
  cm_primary_key :: int
  cm_auto_inc :: int

record 'd sqlite_api =
  sq_open :: "string \<Rightarrow> 'd \<Rightarrow> int \<times> 'd"
  sq_close :: "'d \<Rightarrow> int \<times> 'd"
  sq_errmsg :: "'d \<Rightarrow> string"
  sq_prepare :: "string \<Rightarrow> 'd \<Rightarrow> (int \<times> stmt) \<times> 'd"
  sq_finalize :: "stmt \<Rightarrow> 'd \<Rightarrow> int \<times> 'd"
  sq_step :: "stmt \<Rightarrow> 'd \<Rightarrow> int \<times> 'd"
  sq_reset :: "stmt \<Rightarrow> 'd \<Rightarrow> int \<times> 'd"
  sq_row :: "stmt \<Rightarrow> 'd \<Rightarrow> sql_value list"
  sq_bind :: "stmt \<Rightarrow> int \<Rightarrow> sql_value \<Rightarrow> 'd \<Rightarrow> int \<times> 'd"
  sq_metadata :: "string option \<Rightarrow> string \<Rightarrow> string \<Rightarrow> 'd \<Rightarrow> (int \<times> column_meta) \<times> 'd"

section \<open>Values\<close>

datatype DataType = INTEGER | DOUBLE | BLOB | DAT_NULL | TEXT

record sqlite3_data =
  text_data :: string
  double_data :: dbl
  int_data :: int
  dat_type :: DataType

definition column_type :: "sql_value \<Rightarrow> DataType" where
  "column_type v = (case v of SInteger _ \<Rightarrow> INTEGER | SDouble _ \<Rightarrow> DOUBLE | SText _ \<Rightarrow> TEXT | SBlob _ \<Rightarrow> BLOB | SNull \<Rightarrow> DAT_NULL)"

text \<open>\<open>sqlite3_column_int\<close> keeps the low 32 bits of the 64-bit integer.\<close>

definition int32 :: "int \<Rightarrow> int" where
  "int32 i = sint (word_of_int i :: 32 word)"

definition FmtData :: "sql_value \<Rightarrow> sqlite3_data" where
  "FmtData v =
     (let dat = \<lparr>text_data = [], double_data = Finite False 0 0, int_data = 0, dat_type = column_type v\<rparr> in
      case v of
        SBlob s \<Rightarrow> dat\<lparr>text_data := s\<rparr>
      | SInteger i \<Rightarrow> dat\<lparr>int_data := int32 i\<rparr>
      | SDouble d \<Rightarrow> dat\<lparr>double_data := d\<rparr>
      | SText s \<Rightarrow> dat\<lparr>text_data := s\<rparr>
      | SNull \<Rightarrow> dat)"

definition Sqlite3Data_to_string :: "sqlite3_data \<Rightarrow> string" where
  "Sqlite3Data_to_string d =
     (case dat_type d of
        INTEGER \<Rightarrow> dec_int (int_data d)
      | DOUBLE \<Rightarrow> print_double (double_data d)
      | TEXT \<Rightarrow> text_data d
      | BLOB \<Rightarrow> text_data d
      | DAT_NULL \<Rightarrow> ''null'')"

section \<open>The map of statements\<close>

text \<open>
  \<open>std::multimap\<close>, ordered by its keys; equal keys keep the order of insertion, and \<open>find\<close> gives
  the first of them.
\<close>

type_synonym sql_map = "(string \<times> stmt) list"

fun multimap_insert :: "string \<Rightarrow> stmt \<Rightarrow> sql_map \<Rightarrow> sql_map" where
  "multimap_insert k v [] = [(k, v)]"
| "multimap_insert k v ((k', v') # m) = (if k < k' then (k, v) # (k', v') # m else (k', v') # multimap_insert k v m)"

definition multimap_find :: "string \<Rightarrow> sql_map \<Rightarrow> stmt option" where
  "multimap_find k m = map_of m k"

section \<open>Sqlite3\<close>

record sqlite =
  sql_map :: sql_map

definition sq_error :: "'d sqlite_api \<Rightarrow> string \<Rightarrow> int \<Rightarrow> 'd world \<Rightarrow> 'd world" where
  "sq_error api msg code w = ERROR (msg @ sq_errmsg api (kern w) @ '' '' @ dec_int code) w"

text \<open>The constructor leaves the process when the database cannot be opened.\<close>

definition Sqlite3_new :: "'d sqlite_api \<Rightarrow> string \<Rightarrow> 'd world \<Rightarrow> sqlite option \<times> 'd world" where
  "Sqlite3_new api database_path w =
     (let (r, d) = sq_open api database_path (kern w); w = w\<lparr>kern := d\<rparr> in
      if r \<noteq> SQLITE_OK
      then (None, ERROR (''Can't open database: '' @ sq_errmsg api d @ '' exit: '' @ dec_int (-1)) w)
      else (Some \<lparr>sql_map = []\<rparr>, INFO ''Open database successful!'' w))"

fun finalize_all :: "'d sqlite_api \<Rightarrow> sql_map \<Rightarrow> 'd world \<Rightarrow> 'd world" where
  "finalize_all api [] w = w"
| "finalize_all api ((th, st) # m) w =
     (let (r, d) = sq_finalize api st (kern w); w = w\<lparr>kern := d\<rparr> in
      finalize_all api m (if r \<noteq> SQLITE_OK then sq_error api (''Sql del err :'' @ th @ '' '') r w else w))"

definition Sqlite3_destroy :: "'d sqlite_api \<Rightarrow> sqlite \<Rightarrow> 'd world \<Rightarrow> bool \<times> 'd world" where
  "Sqlite3_destroy api s w =
     (let w = finalize_all api (sql_map s) w; (r, d) = sq_close api (kern w); w = w\<lparr>kern := d\<rparr> in
      if r \<noteq> SQLITE_OK
      then (False, ERROR (''Can't close database: '' @ sq_errmsg api d @ '' exit: '' @ dec_int (-1)) w)
      else (True, w))"

definition CompileSQL :: "'d sqlite_api \<Rightarrow> string \<Rightarrow> 'd world \<Rightarrow> stmt \<times> 'd world" where
  "CompileSQL api sql w =
     (let ((r, st), d) = sq_prepare api sql (kern w); w = w\<lparr>kern := d\<rparr> in
      if r \<noteq> SQLITE_OK
      then (None, w\<lparr>logged := logged w @ [Logger_Warning (''SQL compilation failed: '' @ [CHR 0x0A] @ sql @ [CHR 0x0A] @ sq_errmsg api d)]\<rparr>)
      else (st, w))"

text \<open>The rows of a statement; the loop need not end.\<close>

partial_function (option) step_loop :: "'d sqlite_api \<Rightarrow> stmt \<Rightarrow> sqlite3_data list list \<Rightarrow> 'd world \<Rightarrow>
    (int \<times> sqlite3_data list list \<times> 'd world) option" where
  "step_loop api st ret w =
     (let (r, d) = sq_step api st (kern w); w = w\<lparr>kern := d\<rparr> in
      if r = SQLITE_ROW then step_loop api st (ret @ [map FmtData (sq_row api st d)]) w
      else Some (r, ret, w))"

definition GetDataFromStmt :: "'d sqlite_api \<Rightarrow> stmt \<Rightarrow> 'd world \<Rightarrow> (sqlite3_data list list \<times> 'd world) option" where
  "GetDataFromStmt api st w =
     Option.bind (step_loop api st [] w) (\<lambda>(r, ret, w).
     if r \<noteq> SQLITE_DONE then Some ([], sq_error api ''Sql data err :'' r w) else Some (ret, w))"

definition SQL :: "'d sqlite_api \<Rightarrow> string \<Rightarrow> 'd world \<Rightarrow> (sqlite3_data list list \<times> 'd world) option" where
  "SQL api sql w =
     (let (st, w) = CompileSQL api sql w in
      if st = None then Some ([], w)
      else
        Option.bind (GetDataFromStmt api st w) (\<lambda>(ret, w).
        let (r, d) = sq_finalize api st (kern w); w = w\<lparr>kern := d\<rparr> in
        Some (ret, if r \<noteq> SQLITE_OK then sq_error api ''Sql del err :'' r w else w)))"

text \<open>A statement that does not compile is put into the map as well, as a null pointer.\<close>

definition BindCompiledSQL :: "'d sqlite_api \<Rightarrow> string \<Rightarrow> string \<Rightarrow> sqlite \<Rightarrow> 'd world \<Rightarrow> sqlite \<times> 'd world" where
  "BindCompiledSQL api sql_name sql s w =
     (let ((r, st), d) = sq_prepare api sql (kern w); w = w\<lparr>kern := d\<rparr>;
          w = (if r \<noteq> SQLITE_OK
               then w\<lparr>logged := logged w @ [Logger_Warning (''SQL compilation failed: '' @ sql_name @ '' '' @ sq_errmsg api d)]\<rparr>
               else INFO (''SQL bind '' @ sql_name @ '' successful!'') w)
      in (s\<lparr>sql_map := multimap_insert sql_name st (sql_map s)\<rparr>, w))"

text \<open>The overloads of \<open>BindCompiledSQLParam\<close>; a pointer other than null binds nothing.\<close>

definition bound_value :: "sql_param \<Rightarrow> sql_value option" where
  "bound_value p = (case p of PInt i \<Rightarrow> Some (SInteger i) | PDouble d \<Rightarrow> Some (SDouble d) | PText s \<Rightarrow> Some (SText s)
     | PPtr null \<Rightarrow> if null then Some SNull else None)"

fun BindCompiledSQLParam :: "'d sqlite_api \<Rightarrow> stmt \<Rightarrow> int \<Rightarrow> sql_param list \<Rightarrow> 'd world \<Rightarrow> 'd world" where
  "BindCompiledSQLParam api st index [] w = w"
| "BindCompiledSQLParam api st index (p # ps) w =
     BindCompiledSQLParam api st (index + 1) ps
       (case bound_value p of
          None \<Rightarrow> w
        | Some v \<Rightarrow>
            (let (r, d) = sq_bind api st index v (kern w); w = w\<lparr>kern := d\<rparr>
             in if r \<noteq> SQLITE_OK then sq_error api ''Sql bind err :'' r w else w))"

definition CallCompiledSQL :: "'d sqlite_api \<Rightarrow> sqlite \<Rightarrow> string \<Rightarrow> sql_param list \<Rightarrow> 'd world \<Rightarrow>
    (sqlite3_data list list \<times> 'd world) option" where
  "CallCompiledSQL api s sql_name params w =
     (case multimap_find sql_name (sql_map s) of
        None \<Rightarrow> Some ([], w\<lparr>logged := logged w @ [Logger_Warning (''Not found such SQL name like: '' @ sql_name)]\<rparr>)
      | Some st \<Rightarrow>
          Option.bind (GetDataFromStmt api st (BindCompiledSQLParam api st 1 params w)) (\<lambda>(res, w).
          let (r, d) = sq_reset api st (kern w); w = w\<lparr>kern := d\<rparr> in
          Some (res, if r \<noteq> SQLITE_OK then sq_error api ''Sql reset err :'' r w
                     else INFO (''Call SQL '' @ sql_name @ '' Successful! Result rows '' @ dec (length res)) w)))"

section \<open>Metadata\<close>

text \<open>
  The flags are four bytes of the result, at the offsets 0 to 3, and three of them are passed to the
  library as if they were integers: three little-endian stores of four bytes one byte apart.  The
  declared type of a column can be the null pointer.
\<close>

definition store32 :: "nat \<Rightarrow> int \<Rightarrow> nat list \<Rightarrow> nat list" where
  "store32 off v m = fold (\<lambda>i m. m[off + i := nat (v div 256 ^ i mod 256)]) [0..<4] m"

record sqlite3_column_metadata =
  md_exist :: bool
  md_not_null :: bool
  md_primary_key :: bool
  md_auto_inc :: bool
  md_type :: string
  md_sort_rule :: string
  md_column_name :: string

definition TestColumn :: "'d sqlite_api \<Rightarrow> nat list \<Rightarrow> string \<Rightarrow> string \<Rightarrow> string \<Rightarrow> 'd world \<Rightarrow>
    (sqlite3_column_metadata \<times> 'd world) result" where
  "TestColumn api mem table_name column_name database_name w =
     (let ((r, cm), d) = sq_metadata api (if database_name = [] then None else Some database_name) table_name column_name (kern w);
          mem = store32 3 (cm_auto_inc cm) (store32 2 (cm_primary_key cm) (store32 1 (cm_not_null cm) mem));
          md = \<lparr>md_exist = False, md_not_null = (mem ! 1 \<noteq> 0), md_primary_key = (mem ! 2 \<noteq> 0),
            md_auto_inc = (mem ! 3 \<noteq> 0), md_type = [], md_sort_rule = [], md_column_name = column_name\<rparr>;
          w = w\<lparr>kern := d\<rparr>
      in if r \<noteq> SQLITE_OK then Inr (md, w)
         else
           (case cm_type cm of
              None \<Rightarrow> Inl (LogicError ''basic_string: construction from null is not valid'')
            | Some t \<Rightarrow> Inr (md\<lparr>md_exist := True, md_sort_rule := cm_rule cm, md_type := t\<rparr>, w)))"


section \<open>The named statements\<close>

lemma multimap_find_insert:
  "multimap_find k' (multimap_insert k v m) =
     (if k' = k then Some (case multimap_find k m of None \<Rightarrow> v | Some u \<Rightarrow> u) else multimap_find k' m)"
  if "sorted (map fst m)"
  using that
proof (induction m)
  case Nil
  then show ?case by (simp add: multimap_find_def)
next
  case (Cons x m)
  obtain a u where x: "x = (a, u)" by force
  have "map_of m k = None" if "k < a"
  proof -
    have "k \<notin> fst ` set m" using Cons.prems that by (force simp: x)
    then show ?thesis by (simp add: map_of_eq_None_iff)
  qed
  then show ?case using Cons x by (auto simp: multimap_find_def)
qed

lemma multimap_insert_set [simp]: "set (multimap_insert k v m) = insert (k, v) (set m)"
  by (induction k v m rule: multimap_insert.induct) auto

lemma multimap_insert_sorted: "sorted (map fst m) \<Longrightarrow> sorted (map fst (multimap_insert k v m))"
  by (induction k v m rule: multimap_insert.induct) (auto simp: image_iff intro: order_trans less_imp_le)


text \<open>
  The first statement of a name stays: binding a name again adds its new statement to the map but
  no call finds it, and if the first did not compile every call of the name goes through the null
  statement from then on; other names are found as before, and the map stays sorted.
\<close>

lemma rebinding_ignored:
  assumes "sorted (map fst (sql_map s))" "BindCompiledSQL api n sql s w = (s', w')"
  shows "sorted (map fst (sql_map s')) \<and>
     multimap_find k (sql_map s') =
       (if k = n then Some (case multimap_find n (sql_map s) of Some st \<Rightarrow> st | None \<Rightarrow> snd (fst (sq_prepare api sql (kern w))))
        else multimap_find k (sql_map s))"
  using assms multimap_find_insert [OF assms(1)] multimap_insert_sorted [OF assms(1)]
  by (auto simp: BindCompiledSQL_def Let_def case_prod_unfold split: option.splits)

section \<open>Running a statement\<close>

text \<open>
  What the documentation of the library says of a statement that is run: \<open>pending\<close> are the rows it
  still has to give, and \<open>bound\<close> its arguments, which survive the run and the reset.
\<close>

locale sql_engine =
  fixes api :: "'d sqlite_api"
    and pending :: "stmt \<Rightarrow> 'd \<Rightarrow> sql_value list list"
    and bound :: "stmt \<Rightarrow> 'd \<Rightarrow> int \<rightharpoonup> sql_value"
  assumes step_row: "pending st d = row # rows \<Longrightarrow> \<exists>d'. sq_step api st d = (SQLITE_ROW, d') \<and> sq_row api st d' = row \<and>
      pending st d' = rows \<and> bound st d' = bound st d"
    and step_done: "pending st d = [] \<Longrightarrow> \<exists>d'. sq_step api st d = (SQLITE_DONE, d') \<and> bound st d' = bound st d"
    and bind_ok: "sq_bind api st i v d = (SQLITE_OK, d') \<Longrightarrow> bound st d' = (bound st d)(i \<mapsto> v)"
    and bind_fails: "sq_bind api st i v d = (r, d') \<Longrightarrow> r \<noteq> SQLITE_OK \<Longrightarrow> bound st d' = bound st d"
    and reset_bound: "bound st (snd (sq_reset api st d)) = bound st d"
begin

lemma step_loop_rows:
  "\<exists>w'. step_loop api st ret w = Some (SQLITE_DONE, ret @ map (map FmtData) (pending st (kern w)), w') \<and>
     bound st (kern w') = bound st (kern w) \<and> logged w' = logged w"
proof (induction "pending st (kern w)" arbitrary: ret w)
  case Nil
  then show ?case
    using step_done [of st "kern w"] by (subst step_loop.simps) (auto simp: SQLITE_DONE_def SQLITE_ROW_def)
next
  case (Cons v vs)
  obtain d where d: "sq_step api st (kern w) = (SQLITE_ROW, d)" "sq_row api st d = v" "pending st d = vs"
    "bound st d = bound st (kern w)"
    using step_row [OF Cons.hyps(2) [symmetric]] by blast
  then show ?case
    using Cons.hyps(1) [of "w\<lparr>kern := d\<rparr>" "ret @ [map FmtData v]"] Cons.hyps(2) [symmetric]
    by (subst step_loop.simps) simp
qed

lemma GetDataFromStmt_rows:
  "\<exists>w'. GetDataFromStmt api st w = Some (map (map FmtData) (pending st (kern w)), w') \<and>
     bound st (kern w') = bound st (kern w)"
  using step_loop_rows [of st "[]" w] by (auto simp: GetDataFromStmt_def)

fun bind_all :: "stmt \<Rightarrow> int \<Rightarrow> sql_param list \<Rightarrow> 'd \<Rightarrow> 'd" where
  "bind_all st i [] d = d"
| "bind_all st i (p # ps) d =
     bind_all st (i + 1) ps (case bound_value p of None \<Rightarrow> d | Some v \<Rightarrow> snd (sq_bind api st i v d))"

lemma BindCompiledSQLParam_kern: "kern (BindCompiledSQLParam api st i ps w) = bind_all st i ps (kern w)"
  by (induction ps arbitrary: i w)
     (auto simp: sq_error_def ERROR_def Let_def case_prod_unfold split: option.splits)

lemma bind_all_bound: "bound st (bind_all st i ps d) j \<noteq> bound st d j \<Longrightarrow> i \<le> j \<and> j < i + int (length ps)"
proof (induction ps arbitrary: i d)
  case (Cons p ps)
  define d' where "d' = (case bound_value p of None \<Rightarrow> d | Some v \<Rightarrow> snd (sq_bind api st i v d))"
  have b: "bound st d' k = bound st d k" if "k \<noteq> i" for k
  proof (cases "bound_value p")
    case None
    then show ?thesis by (simp add: d'_def)
  next
    case (Some v)
    obtain r e where "sq_bind api st i v d = (r, e)" by force
    then show ?thesis
      using Some that bind_ok [of st i v d e] bind_fails [of st i v d r e] by (cases "r = SQLITE_OK") (auto simp: d'_def)
  qed
  show ?case
  proof (cases "bound st (bind_all st (i + 1) ps d') j = bound st d' j")
    case True
    then have "bound st d' j \<noteq> bound st d j" using Cons.prems by (simp add: d'_def)
    then have "j = i" using b by blast
    then show ?thesis by simp
  next
    case False
    from Cons.IH [OF this] show ?thesis by simp
  qed
qed simp

end



section \<open>Metadata\<close>

text \<open>
  The three overlapping stores of the flags stay inside the flags and the padding behind them, and
  because the library writes them in the order of its arguments and their high bytes are zero, the
  flags come out right: every flag is the one the library gave, and a column without a declared
  type makes the function throw.
\<close>

lemma test_column_flags:
  assumes "sq_metadata api (if db = [] then None else Some db) t c (kern w) = ((r, cm), d)"
    and "{cm_not_null cm, cm_primary_key cm, cm_auto_inc cm} \<subseteq> {0, 1}" "length mem = 8"
  shows "TestColumn api mem t c db w =
     (if r \<noteq> SQLITE_OK \<or> cm_type cm \<noteq> None then
        Inr (\<lparr>md_exist = (r = SQLITE_OK), md_not_null = (cm_not_null cm = 1), md_primary_key = (cm_primary_key cm = 1),
          md_auto_inc = (cm_auto_inc cm = 1), md_type = (if r = SQLITE_OK then the (cm_type cm) else []),
          md_sort_rule = (if r = SQLITE_OK then cm_rule cm else []), md_column_name = c\<rparr>, w\<lparr>kern := d\<rparr>)
      else Inl (LogicError ''basic_string: construction from null is not valid'')) \<and>
     (\<forall>i. i = 0 \<or> i = 7 \<longrightarrow>
        store32 3 (cm_auto_inc cm) (store32 2 (cm_primary_key cm) (store32 1 (cm_not_null cm) mem)) ! i = mem ! i)"
proof -
  obtain a0 a1 a2 a3 a4 a5 a6 a7 where mem: "mem = [a0, a1, a2, a3, a4, a5, a6, a7]"
    using assms(3) by (auto simp: eval_nat_numeral length_Suc_conv)
  have four: "[0..<4] = [0, 1, 2, 3 :: nat]" by code_simp
  have bytes: "nat (v div 256 ^ 0 mod 256) = nat v \<and> nat (v div 256 ^ 1 mod 256) = 0 \<and> nat (v div 256 ^ 2 mod 256) = 0 \<and>
      nat (v div 256 ^ 3 mod 256) = 0" if "v \<in> {0, 1}" for v :: int
    using that by auto
  have store: "store32 off v m = m[off := nat v, off + 1 := 0, off + 2 := 0, off + 3 := 0]" if "v \<in> {0, 1}" for off v m
    using bytes [OF that] by (simp add: store32_def four)
  have st: "store32 3 z (store32 2 y (store32 1 x mem)) = [a0, nat x, nat y, nat z, 0, 0, 0, a7]"
    if "x \<in> {0, 1}" "y \<in> {0, 1}" "z \<in> {0, 1}" for x y z
    unfolding store [OF that(1)] store [OF that(2)] store [OF that(3)] mem by (simp add: eval_nat_numeral)
  have m: "store32 3 (cm_auto_inc cm) (store32 2 (cm_primary_key cm) (store32 1 (cm_not_null cm) mem)) =
      [a0, nat (cm_not_null cm), nat (cm_primary_key cm), nat (cm_auto_inc cm), 0, 0, 0, a7]"
    using assms(2) by (intro st) auto
  have "(nat x \<noteq> 0) = (x = 1)" if "x \<in> {0, 1}" for x :: int using that by auto
  then have b: "(nat (cm_not_null cm) \<noteq> 0) = (cm_not_null cm = 1)" "(nat (cm_primary_key cm) \<noteq> 0) = (cm_primary_key cm = 1)"
    "(nat (cm_auto_inc cm) \<noteq> 0) = (cm_auto_inc cm = 1)"
    using assms(2) by blast+
  define bytes where "bytes = [a0, nat (cm_not_null cm), nat (cm_primary_key cm), nat (cm_auto_inc cm), 0, 0, 0, a7]"
  have n: "bytes ! 0 = a0" "bytes ! 1 = nat (cm_not_null cm)" "bytes ! 2 = nat (cm_primary_key cm)"
    "bytes ! 3 = nat (cm_auto_inc cm)" "bytes ! 7 = a7" "mem ! 0 = a0" "mem ! 7 = a7"
    by (simp_all add: bytes_def mem)
  show ?thesis
    unfolding TestColumn_def assms(1) Let_def prod.case m [folded bytes_def] n b
    by (cases "cm_type cm") (auto simp: n)
qed

section \<open>A small engine\<close>

text \<open>Every statement is \<open>SELECT ?1\<close>: one row with its first argument.\<close>

record memdb =
  mem_bound :: "stmt \<Rightarrow> int \<rightharpoonup> sql_value"
  mem_done :: "stmt \<Rightarrow> bool"

definition mem_row :: "stmt \<Rightarrow> memdb \<Rightarrow> sql_value list" where
  "mem_row st d = [case mem_bound d st 1 of None \<Rightarrow> SNull | Some v \<Rightarrow> v]"

definition mem_pending :: "stmt \<Rightarrow> memdb \<Rightarrow> sql_value list list" where
  "mem_pending st d = (if mem_done d st then [] else [mem_row st d])"

definition mem_api :: "memdb sqlite_api" where
  "mem_api = \<lparr>sq_open = (\<lambda>_ d. (SQLITE_OK, d)), sq_close = (\<lambda>d. (SQLITE_OK, d)), sq_errmsg = (\<lambda>_. ''error''),
     sq_prepare = (\<lambda>sql d. if sql = ''SELECT ?1'' then ((SQLITE_OK, Some 1), d) else ((1, None), d)),
     sq_finalize = (\<lambda>_ d. (SQLITE_OK, d)),
     sq_step = (\<lambda>st d. if mem_done d st then (SQLITE_DONE, d) else (SQLITE_ROW, d\<lparr>mem_done := (mem_done d)(st := True)\<rparr>)),
     sq_reset = (\<lambda>st d. (SQLITE_OK, d\<lparr>mem_done := (mem_done d)(st := False)\<rparr>)),
     sq_row = mem_row,
     sq_bind = (\<lambda>st i v d. (SQLITE_OK, d\<lparr>mem_bound := (mem_bound d)(st := (mem_bound d st)(i \<mapsto> v))\<rparr>)),
     sq_metadata = (\<lambda>_ _ _ d. ((SQLITE_OK, \<lparr>cm_type = Some ''TEXT'', cm_rule = ''BINARY'', cm_not_null = 1, cm_primary_key = 1,
       cm_auto_inc = 0\<rparr>), d))\<rparr>"

interpretation mem: sql_engine mem_api mem_pending "\<lambda>st d. mem_bound d st"
  by unfold_locales (auto simp: mem_api_def mem_pending_def mem_row_def SQLITE_OK_def SQLITE_ROW_def SQLITE_DONE_def split: if_splits)

definition mem_w0 :: "memdb world" where
  "mem_w0 = \<lparr>kern = \<lparr>mem_bound = (\<lambda>_. Map.empty), mem_done = (\<lambda>_. False)\<rparr>, logged = []\<rparr>"

lemma rebinding_ignored_witness:
  "\<exists>s w. BindCompiledSQL mem_api ''q'' ''SELECT ?1'' \<lparr>sql_map = [(''q'', None)]\<rparr> mem_w0 = (s, w) \<and>
     multimap_find ''q'' (sql_map s) = Some None"
proof -
  obtain s w where b: "BindCompiledSQL mem_api ''q'' ''SELECT ?1'' \<lparr>sql_map = [(''q'', None)]\<rparr> mem_w0 = (s, w)" by force
  show ?thesis using rebinding_ignored [OF _ b, of "''q''"] b by (simp add: multimap_find_def)
qed


lemma test_column_flags_witness:
  "\<exists>r. TestColumn mem_api [9, 9, 9, 9, 9, 9, 9, 9] ''t'' ''c'' [] mem_w0 = Inr r \<and> md_primary_key (fst r) \<and> \<not> md_auto_inc (fst r)"
proof -
  define cm where "cm = \<lparr>cm_type = Some ''TEXT'', cm_rule = ''BINARY'', cm_not_null = 1, cm_primary_key = 1, cm_auto_inc = 0\<rparr>"
  have m: "sq_metadata mem_api (if [] = ([] :: char list) then None else Some []) ''t'' ''c'' (kern mem_w0) = ((SQLITE_OK, cm), kern mem_w0)"
    by (simp add: mem_api_def cm_def)
  from test_column_flags [OF m, of "[9, 9, 9, 9, 9, 9, 9, 9]"] show ?thesis by (simp add: cm_def)
qed

end
