(* ===== verification/Console.thy ===== *)
theory Console
  imports Data_Reader Request_Maker Sqlite
begin

text \<open>
  The tools of \<^verbatim>\<open>src/include/util/logger.h\<close> beside the logger: the literals for sizes, the message to the
  console, the assertion, and the printing of rows and tables.  What goes to the standard output is
  a string, and how an element is printed is a parameter.
\<close>

section \<open>Sizes\<close>

text \<open>\<open>unsigned long long\<close> and \<open>size_t\<close> have 64 bits; the products wrap around.\<close>

definition size_GB :: "64 word \<Rightarrow> 64 word" where "size_GB n = n * 1024 * 1024 * 1024"
definition size_MB :: "64 word \<Rightarrow> 64 word" where "size_MB n = n * 1024 * 1024"
definition size_KB :: "64 word \<Rightarrow> 64 word" where "size_KB n = n * 1024"
definition size_B :: "64 word \<Rightarrow> 64 word" where "size_B n = n"
definition size_b :: "64 word \<Rightarrow> 64 word" where "size_b n = n div 8"

lemma unat_scaled: "unat (n * of_nat m :: 64 word) = unat n * m" if "unat n * m < 2 ^ 64"
proof -
  have "n * of_nat m = (of_nat (unat n * m) :: 64 word)" by simp
  moreover have "unat (of_nat (unat n * m) :: 64 word) = unat n * m"
    using that by (simp only: unsigned_of_nat) (simp add: take_bit_nat_def)
  ultimately show ?thesis by (simp only:)
qed

text \<open>The sizes are exact up to \<open>2 ^ 34\<close> gigabytes, where the product is zero; bits are rounded down to bytes.\<close>

lemma size_exact:
  "unat n * 2 ^ 30 < 2 ^ 64 \<Longrightarrow> unat (size_GB n) = unat n * 2 ^ 30"
  "unat n * 2 ^ 20 < 2 ^ 64 \<Longrightarrow> unat (size_MB n) = unat n * 2 ^ 20"
  "unat n * 2 ^ 10 < 2 ^ 64 \<Longrightarrow> unat (size_KB n) = unat n * 2 ^ 10"
  "unat (size_b n) = unat n div 8"
  "size_GB (2 ^ 34) = 0"
proof -
  show "unat (size_GB n) = unat n * 2 ^ 30" if "unat n * 2 ^ 30 < 2 ^ 64"
    using unat_scaled [of n "2 ^ 30"] that by (simp add: size_GB_def mult.assoc)
  show "unat (size_MB n) = unat n * 2 ^ 20" if "unat n * 2 ^ 20 < 2 ^ 64"
    using unat_scaled [of n "2 ^ 20"] that by (simp add: size_MB_def mult.assoc)
  show "unat (size_KB n) = unat n * 2 ^ 10" if "unat n * 2 ^ 10 < 2 ^ 64"
    using unat_scaled [of n "2 ^ 10"] that by (simp add: size_KB_def)
  show "unat (size_b n) = unat n div 8" by (simp add: size_b_def unat_div_distrib)
  show "size_GB (2 ^ 34) = 0" by (simp add: size_GB_def)
qed

text \<open>The sizes of the buffers of the library.\<close>

lemma buffer_sizes: "unat (size_KB 512) = kReqBufSize" "unat (size_KB 4) = kReadBufSize"
  by (simp_all add: size_KB_def kReqBufSize_def kReadBufSize_def)

section \<open>The console\<close>

definition Logger_Console :: "string \<Rightarrow> string \<Rightarrow> nat \<Rightarrow> string" where
  "Logger_Console s file line = ''INFO '' @ file @ '':'' @ dec line @ '' '' @ c_str s @ [CHR 0x0A]"

text \<open>
  A failing assertion writes to the standard error, logs and leaves the process with the exit code -1;
  the result is the logger the program goes on with, or the one it ends with and the exit code.
\<close>

definition ASSERT :: "(nat \<Rightarrow> tm) \<Rightarrow> (string \<Rightarrow> bool) \<Rightarrow> bool \<Rightarrow> string \<Rightarrow> nat \<Rightarrow> logger \<Rightarrow> (logger + logger \<times> int) option" where
  "ASSERT clock can_open t file line l =
     (if t then Some (Inl l)
      else map_option Inr (Logger_Error_exit clock can_open (''assert false: File: '' @ file @ '' '' @ dec line) (-1)
        (l\<lparr>cerr := cerr l @ ''assert false: File:'' @ file @ '' Line:'' @ dec line\<rparr>)))"

lemma ASSERT_stops: "ASSERT clock can_open False file line l = Some r \<Longrightarrow> \<exists>l'. r = Inr (l', -1)"
  by (auto simp: ASSERT_def Logger_Error_exit_def split: Option.bind_splits)

section \<open>Rows and tables\<close>

definition print_row :: "('a \<Rightarrow> string) \<Rightarrow> 'a list \<Rightarrow> string" where
  "print_row sh arr = concat (map (\<lambda>th. sh th @ '' '') arr) @ [CHR 0x0A]"

fun print_lines :: "('a \<Rightarrow> string) \<Rightarrow> nat \<Rightarrow> 'a list list \<Rightarrow> string" where
  "print_lines sh lines [] = ''''"
| "print_lines sh lines (arr # arrs) = dec lines @ '' : '' @ print_row sh arr @ print_lines sh (lines + 1) arrs"

definition print_table :: "('a \<Rightarrow> string) \<Rightarrow> 'a list list \<Rightarrow> string" where
  "print_table sh arr = print_lines sh 1 arr"

text \<open>\<open>operator<<\<close> of \<^verbatim>\<open>sqlite3.h\<close>: the result of a statement is a table that can be printed.\<close>

definition put_data :: "string \<Rightarrow> sqlite3_data \<Rightarrow> string" where
  "put_data os dat = os @ Sqlite3Data_to_string dat"

lemma print_nothing: "print_table (put_data []) [[FmtData SNull]] = ''1 : null '' @ [CHR 0x0A]"
proof -
  have "dec 1 = ''1''" by code_simp
  then show ?thesis by (simp add: print_table_def print_row_def put_data_def FmtData_def Sqlite3Data_to_string_def column_type_def)
qed

text \<open>Every row is printed once, in order, with its number.\<close>

lemma print_lines_rows:
  "print_lines sh k arr = concat (map (\<lambda>i. dec (k + i) @ '' : '' @ print_row sh (arr ! i)) [0..<length arr])"
proof (induction arr arbitrary: k)
  case (Cons a arr)
  have "[0..<length (a # arr)] = 0 # map Suc [0..<length arr]"
    by (simp add: upt_conv_Cons map_Suc_upt del: upt_Suc)
  then show ?case by (simp add: Cons.IH comp_def)
qed simp

lemma print_table_append: "print_table sh (xs @ ys) = print_table sh xs @ print_lines sh (length xs + 1) ys"
proof -
  have "print_lines sh k (xs @ ys) = print_lines sh k xs @ print_lines sh (length xs + k) ys" for k
    by (induction xs arbitrary: k) simp_all
  then show ?thesis by (simp add: print_table_def)
qed

end
