(* ===== verification/Client_Socket.thy ===== *)
theory Client_Socket
  imports Socket
begin

text \<open>
  \<^verbatim>\<open>src/socket/ClientSocket.cpp\<close>: the socket of a client over the class \<open>Socket\<close>.  No target builds the
  file, and the function \<open>error\<close> it reports with is not in the repository: it is a parameter, given
  the format, the number of the error and its text; \<open>errno\<close> is a reading of the kernel.
\<close>

type_synonym 'k error_fun = "string \<Rightarrow> int \<Rightarrow> string \<Rightarrow> 'k world \<Rightarrow> 'k world"

definition client_error :: "'k error_fun \<Rightarrow> ('k \<Rightarrow> int) \<Rightarrow> 'k sys \<Rightarrow> 'k world \<Rightarrow> 'k world" where
  "client_error err errno os w =
     err ''create client socket error: errno=%d errstr=%s'' (errno (kern w)) (sys_strerror os (kern w)) w"

definition ClientSocket_new :: "'k error_fun \<Rightarrow> ('k \<Rightarrow> int) \<Rightarrow> 'k sys \<Rightarrow> 'k world \<Rightarrow> socket \<times> 'k world" where
  "ClientSocket_new err errno os w =
     (let (fd, k) = sys_socket os (kern w);
          w = w\<lparr>kern := k\<rparr>;
          s = Socket_default\<lparr>m_sockfd := fd\<rparr> in
      (s, if fd < 0 then client_error err errno os w else w))"

definition ClientSocket_at :: "'k error_fun \<Rightarrow> ('k \<Rightarrow> int) \<Rightarrow> 'k sys \<Rightarrow> string \<Rightarrow> int \<Rightarrow> 'k world \<Rightarrow> socket \<times> 'k world" where
  "ClientSocket_at err errno os ip port w =
     (let (fd, k) = sys_socket os (kern w);
          w = w\<lparr>kern := k\<rparr>;
          s = (Socket_at ip port)\<lparr>m_sockfd := fd\<rparr> in
      if fd < 0 then (s, client_error err errno os w)
      else (s, snd (Socket_connect os s ip port w)))"

text \<open>The destructor closes, and the one of the base class closes again.\<close>

definition ClientSocket_destroy :: "'k sys \<Rightarrow> socket \<Rightarrow> 'k world \<Rightarrow> 'k world" where
  "ClientSocket_destroy os s w = (let ((_, s), w) = Socket_close os s w in Socket_destroy os s w)"

text \<open>
  The second close finds no descriptor, so the descriptor is closed once; a socket that could not be
  created has none to close.
\<close>

lemma client_closed_once:
  "ClientSocket_destroy os s w = (if 0 < m_sockfd s then w\<lparr>kern := sys_close os (m_sockfd s) (kern w)\<rparr> else w)"
  using close_twice [of os s w] by (simp add: ClientSocket_destroy_def case_prod_unfold)

text \<open>A client that could not connect looks like one that could: its descriptor is open, and only the log knows.\<close>

lemma client_connect_dropped:
  assumes "sys_socket os (kern w) = (fd, k)" "0 \<le> fd"
    and "sys_connect os fd \<lparr>sin_addr = sys_inet_addr os ip, sin_port = word_of_int port\<rparr> k = (r, k')"
  shows "ClientSocket_at err errno os ip port w =
     (\<lparr>m_ip = ip, m_port = port, m_sockfd = fd\<rparr>, (if r < 0 then ERROR ''connect'' else id) (w\<lparr>kern := k'\<rparr>))"
  using assms by (simp add: ClientSocket_at_def Socket_connect_def checked_def Socket_at_def)

lemma client_not_created:
  assumes "sys_socket os (kern w) = (fd, k)" "fd < 0"
  shows "ClientSocket_at err errno os ip port w = (\<lparr>m_ip = ip, m_port = port, m_sockfd = fd\<rparr>, client_error err errno os (w\<lparr>kern := k\<rparr>))"
    and "ClientSocket_destroy os (fst (ClientSocket_at err errno os ip port w)) w' = w'"
  using assms by (simp_all add: ClientSocket_at_def Socket_at_def client_closed_once)

end
