(* ===== verification/Response.thy ===== *)
theory Response
  imports Data_Reader
begin

text \<open>
  \<^verbatim>\<open>src/include/web/response.h\<close> and \<^verbatim>\<open>src/web/response.cpp\<close>: the response object, its head and
  the two tables of \<^verbatim>\<open>src/web/inc\<close>.  The table of content types is a global that \<open>SetType\<close>
  indexes with \<open>operator[]\<close>, which inserts what it does not find, so it is passed and returned.
\<close>

section \<open>Tables\<close>

definition kHttpCodeWithInfo :: "int \<rightharpoonup> string" where
  "kHttpCodeWithInfo = map_of
     [(100, ''Continue''),
      (101, ''Switching Protocols''),
      (200, ''OK''),
      (201, ''Created''),
      (202, ''Accepted''),
      (203, ''Non-Authoritative Information''),
      (204, ''No Content''),
      (205, ''Reset Content''),
      (206, ''Partial Content''),
      (300, ''Multiple Choices''),
      (301, ''Moved Permanently''),
      (302, ''Found''),
      (303, ''See Other''),
      (304, ''Not Modified''),
      (305, ''Use Proxy''),
      (306, ''Unused''),
      (307, ''Temporary Redirect''),
      (400, ''Bad Request''),
      (401, ''Unauthorized''),
      (402, ''Payment Required''),
      (403, ''Forbidden''),
      (404, ''Not Found''),
      (405, ''Method Not Allowed''),
      (406, ''Not Acceptable''),
      (407, ''Proxy Authentication Required''),
      (408, ''Request Time-out''),
      (409, ''Conflict''),
      (410, ''Gone''),
      (411, ''Length Required''),
      (412, ''Precondition Failed''),
      (413, ''Request Entity Too Large''),
      (414, ''Request-URI Too Large''),
      (415, ''Unsupported Media Type''),
      (416, ''Requested range not satisfiable''),
      (417, ''Expectation Failed''),
      (500, ''Internal Server Error''),
      (501, ''Not Implemented''),
      (502, ''Bad Gateway''),
      (503, ''Service Unavailable''),
      (504, ''Gateway Time-out''),
      (505, ''HTTP Version not supported'')]"

type_synonym content_types = "string \<rightharpoonup> string"

definition content_type_list :: "(string \<times> string) list" where
  "content_type_list =
     [(''.avi'', ''video/x-msvideo''),
      (''.bin'', ''application/octet-stream''),
      (''.bmp'', ''image/bmp''),
      (''.css'', ''text/css; charset=utf-8''),
      (''.csv'', ''text/csv''),
      (''.doc'', ''application/msword''),
      (''.docx'', ''application/vnd.openxmlformats-officedocument.wordprocessingml.document''),
      (''.epub'', ''application/epub+zip''),
      (''.gif'', ''image/gif''),
      (''.html'', ''text/html; charset=utf-8''),
      (''.ico'', ''image/vnd.microsoft.icon''),
      (''.jar'', ''application/java-archive''),
      (''.jpeg'', ''image/jpeg''),
      (''.jpg'', ''image/jpeg''),
      (''.js'', ''text/javascript; charset: utf-8''),
      (''.json'', ''application/json; charset=utf-8''),
      (''.mp3'', ''audio/mpeg''),
      (''.mpeg'', ''video/mpeg''),
      (''.png'', ''image/png''),
      (''.pdf'', ''application/pdf''),
      (''.php'', ''application/x-httpd-php''),
      (''.ppt'', ''application/vnd.ms-powerpoint''),
      (''.pptx'', ''application/vnd.openxmlformats-officedocument.presentationml.presentation''),
      (''.rar'', ''application/vnd.rar''),
      (''.svg'', ''image/svg+xml''),
      (''.txt'', ''text/plain''),
      (''.wav'', ''audio/wav''),
      (''.weba'', ''audio/webm''),
      (''.webm'', ''video/webm''),
      (''.webp'', ''image/webp''),
      (''.xls'', ''application/vnd.ms-excel''),
      (''.xlsx'', ''application/vnd.openxmlformats-officedocument.spreadsheetml.sheet''),
      (''.xml'', ''application/xml''),
      (''.zip'', ''application/zip''),
      (''.7z'', ''application/x-7z-compressed'')]"

definition kHttpExtensionWithContentType :: content_types where
  "kHttpExtensionWithContentType = map_of content_type_list"

text \<open>\<open>std::map::operator[]\<close>\<close>

definition map_index :: "'a \<Rightarrow> ('a \<rightharpoonup> string) \<Rightarrow> string \<times> ('a \<rightharpoonup> string)" where
  "map_index k m = (case m k of Some v \<Rightarrow> (v, m) | None \<Rightarrow> ('''', m(k \<mapsto> '''')))"

section \<open>The response\<close>

record response =
  res_code :: int
  res_data_reader :: data_reader
  res_body_data :: string
  res_headers :: "(string \<times> string) list"

definition Response_default :: response where
  "Response_default = \<lparr>res_code = 200, res_data_reader = DataReader_default, res_body_data = '''', res_headers = []\<rparr>"

text \<open>The move constructor and assignment: the new object and what is left of the old one.\<close>

definition Response_move :: "response \<Rightarrow> response \<times> response" where
  "Response_move r =
     (let (d, d') = DataReader_move (res_data_reader r) in
      (\<lparr>res_code = res_code r, res_data_reader = d, res_body_data = res_body_data r, res_headers = res_headers r\<rparr>,
       r\<lparr>res_data_reader := d', res_body_data := '''', res_headers := []\<rparr>))"

definition set_code :: "int \<Rightarrow> response \<Rightarrow> response" where
  "set_code c r = r\<lparr>res_code := c\<rparr>"

fun set_header :: "string \<Rightarrow> string \<Rightarrow> (string \<times> string) list \<Rightarrow> (string \<times> string) list" where
  "set_header k v [] = [(k, v)]"
| "set_header k v (th # hs) = (if fst th = k then (k, v) # hs else th # set_header k v hs)"

definition SetHeader :: "string \<Rightarrow> string \<Rightarrow> response \<Rightarrow> response" where
  "SetHeader k v r = r\<lparr>res_headers := set_header k v (res_headers r)\<rparr>"

definition SetType :: "string \<Rightarrow> response \<times> content_types \<Rightarrow> response \<times> content_types" where
  "SetType t = (\<lambda>(r, m). let (v, m) = map_index t m in (SetHeader ''Content-Type'' v r, m))"

definition SetHtmlType :: "response \<times> content_types \<Rightarrow> response \<times> content_types" where
  "SetHtmlType = SetType ''.html''"

definition SetJsonType :: "response \<times> content_types \<Rightarrow> response \<times> content_types" where
  "SetJsonType = SetType ''.json''"

text \<open>
  \<open>filesystem::path::extension\<close>: from the last dot of the file name on; a name that starts with
  its only dot has none, and neither have the names \<open>.\<close> and \<open>..\<close>.
\<close>

definition file_name :: "string \<Rightarrow> string" where
  "file_name p = rev (takeWhile (\<lambda>c. c \<noteq> CHR ''/'') (rev p))"

definition extension :: "string \<Rightarrow> string" where
  "extension p =
     (let n = file_name p; ext = takeWhile (\<lambda>c. c \<noteq> CHR ''.'') (rev n) in
      if CHR ''.'' \<notin> set n \<or> n = ''..'' \<or> length ext + 1 = length n then ''''
      else CHR ''.'' # rev ext)"

definition AutoSetType :: "string \<Rightarrow> response \<times> content_types \<Rightarrow> response \<times> content_types" where
  "AutoSetType p = (\<lambda>(r, m).
     if m (extension p) \<noteq> None
     then (let (t, m) = map_index (extension p) m in SetType t (r, m))
     else SetType ''application/octet-stream'' (r, m))"

definition BodyData :: "string \<Rightarrow> response \<Rightarrow> response" where
  "BodyData dat r = r\<lparr>res_body_data := dat\<rparr>"

text \<open>Reading a whole file through stream iterators: nothing when it cannot be opened.\<close>

definition BodyData_path :: "filesystem \<Rightarrow> string \<Rightarrow> response \<Rightarrow> response" where
  "BodyData_path fs p r = r\<lparr>res_body_data := (case fs p of Some c \<Rightarrow> c | None \<Rightarrow> '''')\<rparr>"

definition BodyDataStream_path :: "filesystem \<Rightarrow> string \<Rightarrow> response \<Rightarrow> response" where
  "BodyDataStream_path fs p r = r\<lparr>res_data_reader := SetFileStream_path fs p (res_data_reader r)\<rparr>"

definition BodyDataStream :: "ifstream \<Rightarrow> response \<Rightarrow> response" where
  "BodyDataStream st r = r\<lparr>res_data_reader := SetFileStream st (res_data_reader r)\<rparr>"

definition AutoFileData :: "filesystem \<Rightarrow> string \<Rightarrow> response \<Rightarrow> response" where
  "AutoFileData fs p r =
     (let ifs = seek_end (ifstream_open fs p);
          total_length = size_t (tellg ifs);
          ifs = seek_beg ifs
      in if total_length > 1024 * 1024 then BodyDataStream ifs r else BodyData_path fs p r)"

definition page_404 :: string where
  "page_404 = ''<!DOCTYPE html>'' @ ''<html>'' @ ''<head>'' @
     ''<meta charset='' @ [CHR 0x22] @ ''utf-8'' @ [CHR 0x22] @ ''>'' @ ''<title>Calabash</title>'' @ ''</head> '' @
     ''<body>'' @
     ''<h1 style='' @ [CHR 0x22] @ ''text-align: center;'' @ [CHR 0x22] @ ''>404 Page Not Found</h1>'' @
     ''<p style='' @ [CHR 0x22] @ ''text-align: center;'' @ [CHR 0x22] @ ''>request not matched</p>'' @
     ''</body>'' @ ''</html>''"

definition page_not_found :: "response \<times> content_types \<Rightarrow> response \<times> content_types" where
  "page_not_found = (\<lambda>(r, m).
     let (r, m) = SetType ''.html'' (BodyData page_404 r, m) in (set_code 404 r, m))"

section \<open>The head\<close>

definition crlf :: string where
  "crlf = [CHR 0x0D, CHR 0x0A]"

definition MakeHttpHead :: "nat \<Rightarrow> response \<Rightarrow> string" where
  "MakeHttpHead sz r =
     ''HTTP/1.1 '' @ dec_int (res_code r) @ '' '' @
     (case kHttpCodeWithInfo (res_code r) of None \<Rightarrow> '' '' | Some s \<Rightarrow> s) @ crlf @
     concat (map (\<lambda>th. fst th @ '': '' @ snd th @ crlf) (res_headers r)) @
     ''Content-Length: '' @ dec sz @ crlf @ crlf"

definition GetDataReader :: "response \<Rightarrow> response" where
  "GetDataReader r =
     r\<lparr>res_data_reader := SetBeginData
        (MakeHttpHead ((length (res_body_data r) + stream_size (res_data_reader r)) mod 2 ^ 64) r @ res_body_data r)
        (res_data_reader r)\<rparr>"

section \<open>Headers\<close>

lemma set_header_map: "map_of (set_header k v hs) = (map_of hs)(k \<mapsto> v)"
  by (induction hs) (auto simp: fun_eq_iff)

lemma set_header_keys: "fst ` set (set_header k v hs) = insert k (fst ` set hs)"
  by (induction hs) auto

lemma set_header_distinct: "distinct (map fst hs) \<Longrightarrow> distinct (map fst (set_header k v hs))"
  by (induction hs) (auto simp: set_header_keys)

lemma set_header_order:
  "map fst (set_header k v hs) = (if k \<in> fst ` set hs then map fst hs else map fst hs @ [k])"
  by (induction hs) auto

definition header_keys_distinct :: "response \<Rightarrow> bool" where
  "header_keys_distinct r \<longleftrightarrow> distinct (map fst (res_headers r))"

interpretation headers: kv_store "\<lambda>r. map_of (res_headers r)" SetHeader header_keys_distinct
  by unfold_locales (simp_all add: SetHeader_def set_header_map header_keys_distinct_def set_header_distinct)

text \<open>
  After any sequence of \<open>SetHeader\<close> calls on a fresh response every name occurs once, with the
  value of its last call, and a repeated call keeps the place of the first.
\<close>

lemma set_headers_last_wins:
  "let r = foldl (\<lambda>r (k, v). SetHeader k v r) Response_default kvs in
     distinct (map fst (res_headers r)) \<and> map_of (res_headers r) = map_of (rev kvs) \<and>
     map fst (res_headers (SetHeader k v r)) =
       (if map_of (res_headers r) k = None then map fst (res_headers r) @ [k] else map fst (res_headers r))"
proof -
  define r where "r = foldl (\<lambda>r (k, v). SetHeader k v r) Response_default kvs"
  have "header_keys_distinct r"
    unfolding r_def by (intro headers.inv_puts) (simp add: header_keys_distinct_def Response_default_def)
  moreover have "map_of (res_headers r) = map_of (rev kvs)"
    unfolding r_def headers.get_puts by (simp add: Response_default_def)
  moreover have "map fst (res_headers (SetHeader k v r)) =
      (if map_of (res_headers r) k = None then map fst (res_headers r) @ [k] else map fst (res_headers r))"
    by (simp add: SetHeader_def set_header_order map_of_eq_None_iff)
  ultimately show ?thesis unfolding Let_def r_def [symmetric] header_keys_distinct_def by blast
qed

section \<open>Content types\<close>

text \<open>What the global table can become: its entries stay, and everything added is empty.\<close>

definition types_ok :: "content_types \<Rightarrow> bool" where
  "types_ok m \<longleftrightarrow> (\<forall>(k, v) \<in> set content_type_list. m k = Some v) \<and>
     (\<forall>k v. m k = Some v \<longrightarrow> v = '''' \<or> (k, v) \<in> set content_type_list)"

lemma distinct_content_types: "distinct (map fst content_type_list)"
  by code_simp

lemma no_type_is_extension: "\<forall>v \<in> snd ` set content_type_list. v \<notin> fst ` set content_type_list"
  by code_simp

lemma types_ok_init: "types_ok kHttpExtensionWithContentType"
  using distinct_content_types
  by (auto simp: types_ok_def kHttpExtensionWithContentType_def dest: map_of_SomeD)

lemma types_ok_index: "types_ok m \<Longrightarrow> types_ok (snd (map_index k m))"
  by (force simp: types_ok_def map_index_def split: option.splits if_splits)

lemma SetType_simp:
  "SetType t (r, m) = (SetHeader ''Content-Type'' (fst (map_index t m)) r, snd (map_index t m))"
  by (simp add: SetType_def case_prod_unfold Let_def)

lemma types_ok_SetType: "types_ok m \<Longrightarrow> types_ok (snd (SetType t (r, m)))"
  by (simp add: SetType_simp types_ok_index)

lemma types_ok_AutoSetType: "types_ok m \<Longrightarrow> types_ok (snd (AutoSetType p (r, m)))"
  by (simp add: AutoSetType_def SetType_simp types_ok_index case_prod_unfold Let_def)

lemma type_not_key:
  assumes "types_ok m" "v \<notin> fst ` set content_type_list"
  shows "fst (map_index v m) = ''''"
  using assms by (force simp: types_ok_def map_index_def split: option.splits)

lemma Nil_not_key: "'''' \<notin> fst ` set content_type_list"
  by code_simp

lemma octet_not_key: "''application/octet-stream'' \<notin> fst ` set content_type_list"
  by code_simp

lemma AutoSetType_empty:
  assumes "types_ok m"
  shows "fst (AutoSetType p (r, m)) = SetHeader ''Content-Type'' '''' r"
proof (cases "m (extension p)")
  case None
  then show ?thesis
    using type_not_key [OF assms octet_not_key] by (simp add: AutoSetType_def SetType_simp)
next
  case (Some v)
  then have i: "map_index (extension p) m = (v, m)" by (simp add: map_index_def)
  have "v = '''' \<or> (extension p, v) \<in> set content_type_list"
    using assms Some by (auto simp: types_ok_def)
  then have "v \<notin> fst ` set content_type_list"
    using no_type_is_extension Nil_not_key by force
  from type_not_key [OF assms this] Some show ?thesis
    by (simp add: AutoSetType_def SetType_simp i)
qed

lemma SetType_known:
  "types_ok m \<Longrightarrow> (t, v) \<in> set content_type_list \<Longrightarrow> SetType t (r, m) = (SetHeader ''Content-Type'' v r, m)"
  by (force simp: SetType_simp map_index_def types_ok_def)

lemma html_type: "(''.html'', ''text/html; charset=utf-8'') \<in> set content_type_list"
  by code_simp

lemma page_not_found_simp:
  "types_ok m \<Longrightarrow> page_not_found (r, m) =
     (set_code 404 (SetHeader ''Content-Type'' ''text/html; charset=utf-8'' (BodyData page_404 r)), m)"
  by (simp add: page_not_found_def SetType_known [OF _ html_type])

text \<open>
  \<open>SetType\<close> gives an extension of the table its content type for as long as the program runs,
  and \<open>AutoSetType\<close>, which looks the content type up a second time as if it were an extension,
  gives every file an empty one.  Both keep the table in the states this rests on.
\<close>

lemma auto_set_type_empty:
  assumes "types_ok m"
  shows "map_of (res_headers (fst (AutoSetType p (r, m)))) ''Content-Type'' = Some '''' \<and>
     types_ok (snd (AutoSetType p (r, m))) \<and> types_ok (snd (SetType t (r, m))) \<and>
     ((t, v) \<in> set content_type_list \<longrightarrow>
        map_of (res_headers (fst (SetType t (r, m)))) ''Content-Type'' = Some v)"
  using assms SetType_known [OF assms, of t v r]
  by (simp add: AutoSetType_empty types_ok_AutoSetType types_ok_SetType headers.get_put)

lemma auto_set_type_empty_witness:
  "map_of (res_headers (fst (AutoSetType ''/srv/index.html'' (Response_default, kHttpExtensionWithContentType)))) ''Content-Type'' = Some '''' \<and>
   map_of (res_headers (fst (SetType ''.html'' (Response_default, kHttpExtensionWithContentType)))) ''Content-Type'' =
     Some ''text/html; charset=utf-8''"
  using auto_set_type_empty [OF types_ok_init, of "''/srv/index.html''" Response_default "''.html''" "''text/html; charset=utf-8''"]
    html_type by simp

section \<open>Sending a response\<close>

lemma MakeHttpHead_length_ge: "0 < length (MakeHttpHead n r)"
  by (simp add: MakeHttpHead_def)

text \<open>The states of a response after its file was attached.\<close>

lemma AutoFileData_readable:
  assumes "fs p = Some c" "length c < 2 ^ 64" "res_data_reader r = DataReader_default" "res_body_data r = ''''"
  shows "AutoFileData fs p r =
     (if length c > 1024 * 1024
      then r\<lparr>res_data_reader := DataReader_default
             \<lparr>input_file_stream := \<lparr>if_content = Some c, if_pos = 0, if_fail = False\<rparr>, stream_size := length c\<rparr>\<rparr>
      else r\<lparr>res_body_data := c\<rparr>)"
proof -
  have "int (length c) < 2 ^ 64" using assms(2) by simp
  then show ?thesis
    by (simp add: AutoFileData_def ifstream_open_def seek_end_def seek_beg_def tellg_def size_t_def assms
        BodyDataStream_def BodyData_path_def SetFileStream_def measured_def)
qed

text \<open>
  C23: \<open>AutoFileData\<close> is transparent: whether a file is small and read into memory or large and
  streamed, what goes out on a connection that stays up is the same head, with the length of the
  file as its Content-Length, followed by the bytes of the file.
\<close>

theorem file_response_bytes:
  assumes "sending_kernel os s kout kready tries" "kready (kern w)" "fs p = Some c"
    and "res_data_reader r = DataReader_default" "res_body_data r = ''''"
    and "length (MakeHttpHead (length c) r) + length c < 2 ^ 64"
  shows "\<exists>r' w'. BufferRead (Socket_send os s) (res_data_reader (GetDataReader (AutoFileData fs p r))) w = Some (r', w') \<and>
     kout (kern w') = kout (kern w) @ MakeHttpHead (length c) r @ c"
proof -
  have sk: "sink (Socket_send os s) (\<lambda>w. kout (kern w)) (\<lambda>w. kready (kern w))"
    using sending_kernel.Socket_send_takes [OF assms(1)] by (intro sink.intro) blast
  have lc: "length c < 2 ^ 64" "length c mod 2 ^ 64 = length c" using assms(6) by simp_all
  note A = AutoFileData_readable [where fs = fs and p = p, OF assms(3) lc(1) assms(4,5)]
  have hd: "MakeHttpHead n (r\<lparr>res_body_data := b\<rparr>) = MakeHttpHead n r"
    "MakeHttpHead n (r\<lparr>res_data_reader := d\<rparr>) = MakeHttpHead n r" for n b d
    by (simp_all add: MakeHttpHead_def)
  show ?thesis
  proof (cases "length c > 1024 * 1024")
    case True
    have "\<exists>w'. BufferRead (Socket_send os s) (res_data_reader (GetDataReader (AutoFileData fs p r))) w =
        Some (res_data_reader (GetDataReader (AutoFileData fs p r)), w') \<and> kready (kern w') \<and>
        kout (kern w') = kout (kern w) @ begin_data (res_data_reader (GetDataReader (AutoFileData fs p r))) @ c"
      using assms(2,6) True lc unfolding A
      by (intro sink.BufferRead_all [OF sk]) (simp_all add: GetDataReader_def SetBeginData_def assms(5) hd)
    with True lc show ?thesis unfolding A by (auto simp: GetDataReader_def SetBeginData_def assms(5) hd)
  next
    case False
    have "\<exists>w'. BufferRead (Socket_send os s) (res_data_reader (GetDataReader (AutoFileData fs p r))) w =
        Some ((res_data_reader (GetDataReader (AutoFileData fs p r)))
          \<lparr>input_file_stream := seek_beg (input_file_stream (res_data_reader (GetDataReader (AutoFileData fs p r))))\<rparr>, w') \<and>
        kready (kern w') \<and>
        kout (kern w') = kout (kern w) @ begin_data (res_data_reader (GetDataReader (AutoFileData fs p r)))"
      using assms(2,6) False lc unfolding A
      by (intro sink.BufferRead_begin [OF sk])
        (simp_all add: GetDataReader_def SetBeginData_def assms(4) hd DataReader_default_def)
    with False lc show ?thesis
      unfolding A by (auto simp: GetDataReader_def SetBeginData_def assms(4) hd DataReader_default_def)
  qed
qed

theorem file_response_bytes_witness:
  "\<exists>r' w'. BufferRead (Socket_send net_sys Socket_default)
      (res_data_reader (GetDataReader (AutoFileData [''f'' \<mapsto> ''file''] ''f'' Response_default))) (net_world [] [5]) = Some (r', w') \<and>
     net_sent (kern w') = ''HTTP/1.1 200 OK'' @ crlf @ ''Content-Length: 4'' @ crlf @ crlf @ ''file''"
proof -
  have h: "MakeHttpHead 4 Response_default = ''HTTP/1.1 200 OK'' @ crlf @ ''Content-Length: 4'' @ crlf @ crlf"
    by code_simp
  have l: "length ''file'' = 4" "length (''HTTP/1.1 200 OK'' @ crlf @ ''Content-Length: 4'' @ crlf @ crlf) = 38"
    by (simp_all add: crlf_def)
  have "net_ready (kern (net_world [] [5]))" by (simp add: net_ready_def net_world_def)
  from file_response_bytes [OF net.sending_kernel_axioms [of Socket_default] this,
      of "[''f'' \<mapsto> ''file'']" "''f''" "''file''" Response_default, unfolded l h]
  show ?thesis by (simp add: Response_default_def net_world_def)
qed

end
