(* ===== verification/Request_Parse.thy ===== *)
theory Request_Parse
  imports Request_Maker
begin

text \<open>
  What the request parser does: on requests with the usual shape it recovers every part; on the
  shapes it does not expect it reads outside its buffer or throws.
\<close>

section \<open>The scanning loops\<close>

lemma skip_while_drop:
  assumes "drop p mem = xs @ y # ys" "\<forall>x \<in> set xs. P x" "\<not> P y"
  shows "skip_while P mem p = Inr (p + length xs)"
  using assms
proof (induction xs arbitrary: p)
  case Nil
  then have "p < length mem" by (metis append_Nil drop_all linorder_not_less list.distinct(1))
  with Nil show ?case by (subst skip_while.simps) (simp add: Cons_nth_drop_Suc [symmetric])
next
  case (Cons x xs)
  then have l: "p < length mem" by (metis append_Cons drop_all linorder_not_less list.distinct(1))
  then have "mem ! p = x" "drop (Suc p) mem = xs @ y # ys"
    using Cons.prems(1) by (simp_all add: Cons_nth_drop_Suc [symmetric])
  with Cons l show ?case by (subst skip_while.simps) simp
qed

lemma skip_while_end:
  assumes "\<forall>x \<in> set (drop p mem). P x"
  shows "skip_while P mem p = Inl OutOfBounds"
  using assms
proof (induction P mem p rule: skip_while.induct)
  case (1 P mem p)
  show ?case
  proof (cases "p < length mem")
    case True
    then have "P (mem ! p)" "\<forall>x \<in> set (drop (Suc p) mem). P x"
      using 1(2) by (simp_all add: Cons_nth_drop_Suc [symmetric])
    with 1 True show ?thesis by (subst skip_while.simps) simp
  qed (subst skip_while.simps, simp)
qed

lemma is_eol_ws: "is_eol c \<Longrightarrow> is_ws c"
  by (auto simp: is_eol_def is_ws_def)

lemma is_ws_simps [simp]:
  "is_ws (CHR '' '')" "is_ws (CHR 0x0D)" "is_ws (CHR 0x0A)" "\<not> is_ws (CHR 0x00)"
  by (simp_all add: is_ws_def)

lemma is_eol_simps [simp]:
  "is_eol (CHR 0x0D)" "is_eol (CHR 0x0A)" "\<not> is_eol (CHR 0x00)" "\<not> is_eol (CHR '' '')"
  by (simp_all add: is_eol_def)

text \<open>A word: characters, at least one, none of them white space.\<close>

definition word :: "string \<Rightarrow> bool" where
  "word w \<longleftrightarrow> w \<noteq> [] \<and> (\<forall>c \<in> set w. \<not> is_ws c)"

lemma GetNextWord_word:
  assumes "drop p mem = w @ z # sp @ y # ys" "word w" "\<forall>c \<in> set (z # sp). is_ws c" "\<not> is_ws y"
  shows "GetNextWord mem p = Inr (p + length w + Suc (length sp), w)"
proof -
  obtain a w' where w: "w = a # w'" using assms(2) by (cases w) (auto simp: word_def)
  have 1: "skip_while is_ws mem p = Inr (p + length ([] :: string))"
    using assms(1,2) by (intro skip_while_drop [of p mem "[]" a]) (auto simp: w word_def)
  have 2: "skip_while (\<lambda>c. \<not> is_ws c) mem p = Inr (p + length w)"
    using assms by (intro skip_while_drop [where y = z]) (auto simp: word_def)
  have "drop (p + length w) mem = (z # sp) @ y # ys"
    using arg_cong [OF assms(1), of "drop (length w)"] by (simp add: drop_drop add.commute)
  then have "skip_while is_ws mem (p + length w) = Inr (p + length w + length (z # sp))"
    using assms by (intro skip_while_drop) auto
  with 1 2 show ?thesis by (simp add: GetNextWord_def string_from_def assms(1))
qed

lemma GetNextWord_leading_ws:
  assumes "drop p mem = z # sp @ y # ys" "\<forall>c \<in> set (z # sp). is_ws c" "\<not> is_ws y"
  shows "GetNextWord mem p = Inl LengthError"
proof -
  have 1: "skip_while is_ws mem p = Inr (p + length (z # sp))"
    using assms by (intro skip_while_drop) auto
  have 2: "skip_while (\<lambda>c. \<not> is_ws c) mem p = Inr (p + length ([] :: string))"
    using assms by (intro skip_while_drop [of p mem "[]" z]) auto
  show ?thesis using 1 2 by (simp add: GetNextWord_def string_from_def)
qed

lemma GetNextLine_line:
  assumes "drop p mem = l @ e @ ys" "\<forall>c \<in> set l. \<not> is_eol c" "e = [CHR 0x0D, CHR 0x0A] \<or> e = [CHR 0x0A]"
  shows "GetNextLine mem p = Inr (p + length l + length e, l)"
proof -
  obtain z r where z: "e = z # r" "is_eol z" "length e = (if z = CHR 0x0D then 2 else 1)"
  proof (cases "e = [CHR 0x0D, CHR 0x0A]")
    case True
    then show thesis by (intro that [of "CHR 0x0D" "[CHR 0x0A]"]) simp_all
  next
    case False
    then have "e = [CHR 0x0A]" using assms(3) by simp
    then show thesis by (intro that [of "CHR 0x0A" "[]"]) simp_all
  qed
  have "drop p mem = l @ z # r @ ys" by (simp add: assms(1) z(1))
  then have "skip_while (\<lambda>c. \<not> is_eol c) mem p = Inr (p + length l)"
    by (rule skip_while_drop) (simp_all add: assms(2) z(2))
  moreover have "mem ! (p + length l) = z"
  proof -
    have "drop p mem ! length l = z" by (simp add: assms(1) z)
    moreover have "p + length l \<le> length mem"
      using arg_cong [OF assms(1), of length] by (simp add: z(1))
    ultimately show ?thesis by (simp add: nth_drop)
  qed
  ultimately show ?thesis
    using z(3) by (simp add: GetNextLine_def string_from_def assms(1) z(1))
qed

lemma GetNextLine_no_end:
  "\<forall>c \<in> set (drop p mem). \<not> is_eol c \<Longrightarrow> GetNextLine mem p = Inl OutOfBounds"
  by (simp add: GetNextLine_def skip_while_end)

section \<open>Splitting\<close>

lemma Split_Nil [simp]: "Split [] ch = []"
  by (simp add: Split.simps)

lemma takeWhile_notin:
  assumes "ch \<notin> set p"
  shows "takeWhile (\<lambda>c. c \<noteq> ch) p = p" "takeWhile (\<lambda>c. c \<noteq> ch) (p @ ch # s) = p"
  using assms by (induction p) auto

lemma Split_piece: "ch \<notin> set p \<Longrightarrow> p \<noteq> [] \<Longrightarrow> Split p ch = [p]"
  by (subst Split.simps) (simp add: takeWhile_notin)

lemma Split_Cons: "ch \<notin> set p \<Longrightarrow> Split (p @ ch # s) ch = p # Split s ch"
  by (subst Split.simps) (simp add: takeWhile_notin)

text \<open>Pieces joined by a separator.\<close>

fun join :: "char \<Rightarrow> string list \<Rightarrow> string" where
  "join ch [] = []"
| "join ch [p] = p"
| "join ch (p # ps) = p @ ch # join ch ps"

lemma Split_join:
  assumes "\<forall>p \<in> set ps. ch \<notin> set p" "ps \<noteq> [] \<Longrightarrow> last ps \<noteq> []"
  shows "Split (join ch ps) ch = ps"
  using assms by (induction ch ps rule: join.induct) (auto simp: Split_piece Split_Cons)

section \<open>Content types\<close>

lemma test_text_prefix:
  "i \<le> length str \<Longrightarrow> CHR 0x00 \<notin> set t \<Longrightarrow> test_text t str i = Inr (prefix t (drop i str))"
proof (induction t arbitrary: i)
  case (Cons c t)
  show ?case
  proof (cases "i < length str")
    case True
    then have "drop i str = str ! i # drop (Suc i) str" by (simp add: Cons_nth_drop_Suc)
    with Cons True show ?thesis by (simp add: nth_append)
  next
    case False
    then have "i = length str" using Cons.prems by simp
    with Cons.prems show ?thesis by (auto simp: array_at_def)
  qed
qed simp

lemma TestContentType:
  "TestContentTypeMultipart str = Inr (prefix ''multipart'' str)"
  "TestContentTypeJson str = Inr (prefix ''application/json'' str)"
  using test_text_prefix [of 0 str "''multipart''"] test_text_prefix [of 0 str "''application/json''"]
  by (simp_all only: TestContentTypeMultipart_def TestContentTypeJson_def) auto

section \<open>Rendering a request\<close>

definition CRLF :: string where
  "CRLF = [CHR 0x0D, CHR 0x0A]"

definition header_line :: "string \<times> string \<Rightarrow> string" where
  "header_line h = fst h @ '': '' @ snd h"

text \<open>A header the parser takes: no white space in the name, a value on one line that starts with none.\<close>

definition good_header :: "string \<times> string \<Rightarrow> bool" where
  "good_header h \<longleftrightarrow> (\<forall>c \<in> set (fst h). \<not> is_ws c) \<and> snd h \<noteq> [] \<and> \<not> is_ws (hd (snd h)) \<and>
     (\<forall>c \<in> set (snd h). \<not> is_eol c)"

definition render_headers :: "(string \<times> string) list \<Rightarrow> string" where
  "render_headers hs = concat (map (\<lambda>h. header_line h @ CRLF) hs) @ CRLF"

definition render_head :: "string \<Rightarrow> string \<Rightarrow> string \<Rightarrow> (string \<times> string) list \<Rightarrow> string" where
  "render_head m target v hs = m @ '' '' @ target @ '' '' @ v @ CRLF @ render_headers hs"

lemma parse_header_line_good:
  assumes "good_header (k, v)"
  shows "parse_header_line (header_line (k, v)) = Inr (k, v)"
proof -
  obtain a v' where v: "v = a # v'" using assms by (cases v) (auto simp: good_header_def)
  define mem where "mem = header_line (k, v) @ [CHR 0x0A, CHR 0x00]"
  have d0: "drop 0 mem = (k @ '':'') @ CHR '' '' # [] @ a # v' @ [CHR 0x0A, CHR 0x00]"
    by (simp add: mem_def header_line_def v)
  have "\<not> is_ws (CHR '':'')" by (simp add: is_ws_def)
  then have w: "GetNextWord mem 0 = Inr (0 + length (k @ '':'') + Suc (length ([] :: string)), k @ '':'')"
    using assms by (intro GetNextWord_word [OF d0]) (auto simp: word_def good_header_def v)
  have "drop (length k + 2) mem = v @ [CHR 0x0A] @ [CHR 0x00]"
    by (simp add: mem_def header_line_def)
  then have "GetNextLine mem (length k + 2) = Inr (length k + 2 + length v + length [CHR 0x0A], v)"
    using assms by (intro GetNextLine_line) (auto simp: good_header_def)
  with w show ?thesis by (simp add: parse_header_line_def mem_def [symmetric])
qed

lemma header_line_no_eol: "good_header h \<Longrightarrow> c \<in> set (header_line h) \<Longrightarrow> \<not> is_eol c"
  by (auto simp: good_header_def header_line_def is_eol_def is_ws_def)

lemma header_line_start:
  assumes "good_header h"
  obtains y ys where "header_line h = y # ys" "\<not> is_ws y"
proof (cases "fst h")
  case Nil
  then show thesis by (intro that) (auto simp: header_line_def is_ws_def)
next
  case (Cons a list)
  then show thesis using assms by (intro that) (auto simp: header_line_def good_header_def)
qed

lemma GetNextLine_CRLF:
  "drop p mem = l @ CRLF @ ys \<Longrightarrow> \<forall>c \<in> set l. \<not> is_eol c \<Longrightarrow> GetNextLine mem p = Inr (p + length l + 2, l)"
  using GetNextLine_line [of p mem l "[CHR 0x0D, CHR 0x0A]" ys] by (simp add: CRLF_def)

abbreviation emplace_list :: "('a \<times> 'b) list \<Rightarrow> ('a \<rightharpoonup> 'b) \<Rightarrow> ('a \<rightharpoonup> 'b)" where
  "emplace_list kvs m \<equiv> foldl (\<lambda>m (k, v). emplace k v m) m kvs"

lemma header_loop_good:
  assumes "\<forall>h \<in> set (h # hs). good_header h" "drop p mem = render_headers hs @ rest"
  shows "header_loop mem p (header_line h) req =
     Inr (p + length (render_headers hs), req\<lparr>req_headers := emplace_list (h # hs) (req_headers req)\<rparr>)"
  using assms
proof (induction hs arbitrary: h p req)
  case Nil
  have ne: "header_line h \<noteq> []" by (simp add: header_line_def)
  have h: "good_header h" using Nil.prems(1) by simp
  have "GetNextLine mem p = Inr (p + length ([] :: string) + 2, [])"
    using Nil.prems(2) by (intro GetNextLine_CRLF) (auto simp: render_headers_def)
  then show ?case
    using parse_header_line_good [of "fst h" "snd h"] h ne
    by (subst header_loop.simps)
      (simp add: header_loop.simps [of _ _ "[]"] render_headers_def CRLF_def case_prod_unfold)
next
  case (Cons h' hs)
  have ne: "header_line h \<noteq> []" by (simp add: header_line_def)
  have h: "good_header h" "good_header h'" using Cons.prems(1) by simp_all
  have d: "drop p mem = header_line h' @ CRLF @ render_headers hs @ rest"
    using Cons.prems(2) by (simp add: render_headers_def)
  have line: "GetNextLine mem p = Inr (p + length (header_line h') + 2, header_line h')"
    using h by (intro GetNextLine_CRLF [OF d]) (auto dest: header_line_no_eol)
  have "drop (p + length (header_line h') + 2) mem = render_headers hs @ rest"
    using arg_cong [OF d, of "drop (length (header_line h') + 2)"] by (simp add: CRLF_def drop_drop ac_simps)
  then have "header_loop mem (p + length (header_line h') + 2) (header_line h')
       (req\<lparr>req_headers := emplace (fst h) (snd h) (req_headers req)\<rparr>) =
     Inr (p + length (header_line h') + 2 + length (render_headers hs),
       req\<lparr>req_headers := emplace_list (h # h' # hs) (req_headers req)\<rparr>)"
    using Cons.prems(1) by (subst Cons.IH) (auto simp: case_prod_unfold)
  then show ?case
    using parse_header_line_good [of "fst h" "snd h"] h ne
    by (subst header_loop.simps) (simp add: line render_headers_def CRLF_def case_prod_unfold ac_simps)
qed

lemma drop_prefix: "mem = xs @ ys \<Longrightarrow> n = length xs \<Longrightarrow> drop n mem = ys"
  by simp

lemma ParseHttpHeader_render:
  assumes "word m" "word target" "word v" "hs \<noteq> []" "\<forall>h \<in> set hs. good_header h"
  shows "ParseHttpHeader (render_head m target v hs @ rest) req =
     res_bind (parse_target (req\<lparr>req_method := m, req_path := target, req_version := v,
         req_headers := map_of hs ++ req_headers req\<rparr>))
       (\<lambda>req. Inr (length (render_head m target v hs), req))"
proof -
  define mem where "mem = render_head m target v hs @ rest"
  obtain h hs' where hs: "hs = h # hs'" using assms(4) by (cases hs) auto
  have gh: "good_header h" "\<forall>h \<in> set hs'. good_header h" using assms(5) hs by auto
  obtain y ys where y: "header_line h = y # ys" "\<not> is_ws y" using header_line_start [OF gh(1)] by blast
  obtain a t' where t: "target = a # t'" "\<not> is_ws a" using assms(2) by (cases target) (auto simp: word_def)
  obtain b v' where v: "v = b # v'" "\<not> is_ws b" using assms(3) by (cases v) (auto simp: word_def)
  have d0: "drop 0 mem = m @ CHR '' '' # [] @ a # (t' @ '' '' @ v @ CRLF @ render_headers hs @ rest)"
    by (simp add: mem_def render_head_def t)
  have 1: "GetNextWord mem 0 = Inr (length m + 1, m)"
    using GetNextWord_word [OF d0 assms(1) _ t(2)] by simp
  have d1: "drop (length m + 1) mem = target @ CHR '' '' # [] @ b # (v' @ CRLF @ render_headers hs @ rest)"
    by (rule drop_prefix [of _ "m @ '' ''"]) (simp_all add: mem_def render_head_def v)
  have 2: "GetNextWord mem (length m + 1) = Inr (length m + length target + 2, target)"
    using GetNextWord_word [OF d1 assms(2) _ v(2)] by simp
  have d2: "drop (length m + length target + 2) mem =
      v @ CHR 0x0D # [CHR 0x0A] @ y # (ys @ CRLF @ render_headers hs' @ rest)"
    by (rule drop_prefix [of _ "m @ '' '' @ target @ '' ''"])
      (simp_all add: mem_def render_head_def hs render_headers_def y CRLF_def)
  have 3: "GetNextWord mem (length m + length target + 2) =
      Inr (length m + length target + length v + 4, v)"
    using GetNextWord_word [OF d2 assms(3) _ y(2)] by simp
  have d3: "drop (length m + length target + length v + 4) mem =
      header_line h @ CRLF @ render_headers hs' @ rest"
    by (rule drop_prefix [of _ "m @ '' '' @ target @ '' '' @ v @ CRLF"])
      (simp_all add: mem_def render_head_def hs render_headers_def CRLF_def)
  have 4: "GetNextLine mem (length m + length target + length v + 4) =
      Inr (length m + length target + length v + 4 + length (header_line h) + 2, header_line h)"
    using gh by (intro GetNextLine_CRLF [OF d3]) (auto dest: header_line_no_eol)
  have d4: "drop (length m + length target + length v + 4 + length (header_line h) + 2) mem =
      render_headers hs' @ rest"
    by (rule drop_prefix [of _ "m @ '' '' @ target @ '' '' @ v @ CRLF @ header_line h @ CRLF"])
      (simp_all add: mem_def render_head_def hs render_headers_def CRLF_def)
  have len: "length m + length target + length v + 4 + length (header_line h) + 2 + length (render_headers hs') =
      length (render_head m target v hs)"
    by (simp add: render_head_def hs render_headers_def CRLF_def)
  have 5: "header_loop mem (length m + length target + length v + 4 + length (header_line h) + 2) (header_line h) r =
      Inr (length (render_head m target v hs), r\<lparr>req_headers := map_of hs ++ req_headers r\<rparr>)" for r
  proof -
    have all: "\<forall>x \<in> set (h # hs'). good_header x" using gh by simp
    have e: "emplace_list (h # hs') (req_headers r) = map_of hs ++ req_headers r"
      by (simp only: emplace_all hs)
    show ?thesis using header_loop_good [OF all d4, of r] by (simp only: len e)
  qed
  show ?thesis
    unfolding ParseHttpHeader_def Let_def mem_def [symmetric]
    by (simp only: 1 2 3 4 5 res_bind_simps prod.case) simp
qed

section \<open>Targets\<close>

lemma UrlEncode_set: "c \<in> set (UrlEncode s) \<Longrightarrow> c \<in> set s \<or> c = CHR ''%'' \<or> c \<in> set kNumMap"
proof (induction s)
  case (Cons a s)
  have "uchar a div 16 < 16" "uchar a mod 16 < 16" by (simp_all add: less_mult_imp_div_less)
  then have "set (UrlEncode_char a) \<subseteq> insert a (insert (CHR ''%'') (set kNumMap))"
    by (auto simp: UrlEncode_char_def nibbles)
  with Cons show ?case by (auto simp: UrlEncode_Cons)
qed (simp add: UrlEncode_def)

lemma UrlEncode_not_Nil: "s \<noteq> [] \<Longrightarrow> UrlEncode s \<noteq> []"
  by (cases s) (auto simp: UrlEncode_Cons UrlEncode_char_def)

lemma kNumMap_chars:
  "c \<in> set kNumMap \<Longrightarrow> \<not> is_ws c" "CHR ''?'' \<notin> set kNumMap" "CHR ''&'' \<notin> set kNumMap" "CHR ''='' \<notin> set kNumMap"
  by (auto simp: kNumMap_def is_ws_def)

lemma word_UrlEncode:
  assumes "word p"
  shows "word (UrlEncode p)"
proof -
  have p: "\<not> is_ws (CHR ''%'')" by (simp add: is_ws_def)
  have "\<not> is_ws c" if "c \<in> set (UrlEncode p)" for c
    using UrlEncode_set [OF that] assms kNumMap_chars(1) [of c] p unfolding word_def by metis
  with assms show ?thesis by (simp add: word_def UrlEncode_not_Nil)
qed

lemma UrlEncode_notin:
  "c \<notin> set p \<Longrightarrow> c \<in> {CHR ''?'', CHR ''&'', CHR ''=''} \<Longrightarrow> c \<notin> set (UrlEncode p)"
  by (auto dest!: UrlEncode_set simp: kNumMap_chars)

lemma parse_target_path:
  assumes "p \<noteq> []" "CHR ''?'' \<notin> set p"
  shows "parse_target (req\<lparr>req_path := UrlEncode p\<rparr>) = Inr (req\<lparr>req_path := p\<rparr>)"
  using assms
  by (simp add: parse_target_def Split_piece UrlEncode_notin UrlEncode_not_Nil array_at_def UrlDecode_UrlEncode)

lemma UrlDecode_plain_append:
  "CHR ''%'' \<notin> set s \<Longrightarrow> UrlDecode (s @ t) = res_map (\<lambda>r. s @ r) (UrlDecode t)"
proof (induction s)
  case Nil
  then show ?case by (cases "UrlDecode t") simp_all
next
  case (Cons c s)
  then have "c \<noteq> CHR ''%''" "UrlDecode (s @ t) = res_map ((@) s) (UrlDecode t)" by auto
  then show ?case by (cases "UrlDecode t") simp_all
qed

lemma parse_param_plain:
  assumes "CHR ''='' \<notin> set k" "CHR ''%'' \<notin> set k"
  shows "parse_param (k @ ''='' @ UrlEncode v) = Inr (k, ''='' @ v)"
proof -
  have 1: "skip_while (\<lambda>c. c \<noteq> CHR ''='') ((k @ ''='' @ UrlEncode v) @ [CHR 0x00]) 0 = Inr (0 + length k)"
    using assms by (intro skip_while_drop [where y = "CHR ''=''" and ys = "UrlEncode v @ [CHR 0x00]"]) auto
  have 2: "UrlDecode k = Inr k"
    using UrlDecode_plain_append [of k "[]"] assms by simp
  have 3: "UrlDecode (''='' @ UrlEncode v) = Inr (''='' @ v)"
    using UrlDecode_plain_append [of "''=''" "UrlEncode v"] by (simp add: UrlDecode_UrlEncode)
  have 4: "string_from (k @ ''='' @ UrlEncode v) (length k)
      (int (max (Suc (length k)) (length (k @ ''='' @ UrlEncode v))) - int (length k)) = Inr (''='' @ UrlEncode v)"
    by (simp add: string_from_def nat_diff_distrib)
  show ?thesis
    unfolding parse_param_def 1
    using 2 3 4 by (simp add: string_from_def)
qed

section \<open>The body\<close>

text \<open>The kernel answers the next receives on a descriptor with these chunks.\<close>

fun delivers :: "'k sys \<Rightarrow> int \<Rightarrow> string list \<Rightarrow> 'k \<Rightarrow> 'k \<Rightarrow> bool" where
  "delivers os fd [] k k' \<longleftrightarrow> k' = k"
| "delivers os fd (c # cs) k k' \<longleftrightarrow>
     fst (sys_recv os fd kReqBufSize k) = Some c \<and>
     delivers os fd cs (snd (sys_recv os fd kReqBufSize k)) k'"

lemma Socket_recv_simp:
  "Socket_recv os s n w = (fst (sys_recv os (m_sockfd s) n (kern w)), w\<lparr>kern := snd (sys_recv os (m_sockfd s) n (kern w))\<rparr>)"
  by (simp add: Socket_recv_def case_prod_unfold Let_def)

lemma body_loop_done [simp]: "n \<le> rr \<Longrightarrow> body_loop os s n rr body w = ((True, body), w)"
  by (subst body_loop.simps) simp

lemma body_loop_chunks:
  assumes "delivers os (m_sockfd s) cs (kern w) k'" "\<forall>c \<in> set cs. c \<noteq> []" "rr + length (concat cs) \<le> n"
  shows "body_loop os s n rr body w = body_loop os s n (rr + length (concat cs)) (body @ concat cs) (w\<lparr>kern := k'\<rparr>)"
  using assms
proof (induction cs arbitrary: rr body w)
  case (Cons c cs)
  define w1 where "w1 = w\<lparr>kern := snd (sys_recv os (m_sockfd s) kReqBufSize (kern w))\<rparr>"
  have "body_loop os s n rr body w = body_loop os s n (rr + length c) (body @ c) w1"
  proof -
    have "rr < n" using Cons.prems(2,3) by (cases c) auto
    then show ?thesis using Cons.prems by (subst body_loop.simps) (auto simp: Socket_recv_simp w1_def)
  qed
  also have "\<dots> = body_loop os s n (rr + length c + length (concat cs)) ((body @ c) @ concat cs) (w1\<lparr>kern := k'\<rparr>)"
    using Cons.prems by (intro Cons.IH) (auto simp: w1_def)
  finally show ?case by (simp add: w1_def add.assoc)
qed simp

lemma body_loop_enough:
  "body_loop os s n rr body w = ((True, b), w') \<Longrightarrow> length body = rr \<Longrightarrow> n \<le> length b \<and> prefix body b"
proof (induction os s n rr body w rule: body_loop.induct)
  case (1 os s n rr body w)
  show ?case
  proof (cases "rr < n")
    case True
    then obtain d w1 where d: "Socket_recv os s kReqBufSize w = (Some d, w1)" "d \<noteq> []"
      "body_loop os s n (rr + length d) (body @ d) w1 = ((True, b), w')"
      using 1(2) by (subst (asm) body_loop.simps) (auto split: prod.splits option.splits if_splits)
    have "n \<le> length b \<and> prefix (body @ d) b"
      using 1(1) [OF True d(1) [symmetric] refl d(2,3)] 1(3) by simp
    then show ?thesis by (auto simp: prefix_def)
  next
    case False
    then show ?thesis using 1(2,3) by simp
  qed
qed

lemma c_str_digits: "\<forall>c \<in> set s. is_digit c \<Longrightarrow> c_str s = s"
proof -
  assume "\<forall>c \<in> set s. is_digit c"
  moreover have "\<not> is_digit (CHR 0x00)" by (simp add: is_digit_def uchar_def)
  ultimately have "CHR 0x00 \<notin> set s" by auto
  then show ?thesis by (simp add: c_str_def takeWhile_notin)
qed

lemma content_length_dec:
  "header req ''Content-Length'' = dec n \<Longrightarrow> n < 2 ^ 63 \<Longrightarrow> content_length req = n"
  by (simp add: content_length_def c_str_digits dec_digits strtol_dec)

section \<open>Whole requests\<close>

abbreviation header_in :: "(string \<times> string) list \<Rightarrow> string \<Rightarrow> string" where
  "header_in hs name \<equiv> (case map_of hs name of Some v \<Rightarrow> v | None \<Rightarrow> '''')"

text \<open>The request object of a parsed head, before the body is read.\<close>

definition parsed_head :: "string \<Rightarrow> string \<Rightarrow> string \<Rightarrow> (string \<times> string) list \<Rightarrow> request" where
  "parsed_head m p v hs = Request_default\<lparr>req_method := m, req_path := p, req_version := v, req_headers := map_of hs\<rparr>"

lemma parsed_head_order:
  "r\<lparr>req_method := m, req_path := t, req_version := v, req_headers := h\<rparr> =
   r\<lparr>req_method := m, req_version := v, req_headers := h, req_path := t\<rparr>"
  by (cases r) simp

lemma ParseHttpHeader_path:
  assumes "word m" "word p" "CHR ''?'' \<notin> set p" "word v" "hs \<noteq> []" "\<forall>h \<in> set hs. good_header h"
  shows "ParseHttpHeader (render_head m (UrlEncode p) v hs @ rest) Request_default =
     Inr (length (render_head m (UrlEncode p) v hs), parsed_head m p v hs)"
proof -
  have "parse_target (Request_default\<lparr>req_method := m, req_path := UrlEncode p, req_version := v, req_headers := map_of hs\<rparr>) =
      Inr (parsed_head m p v hs)"
    using parse_target_path [of p "Request_default\<lparr>req_method := m, req_version := v, req_headers := map_of hs\<rparr>"] assms
    by (simp add: parsed_head_def word_def parsed_head_order)
  moreover have "req_headers Request_default = Map.empty" by (simp add: Request_default_def)
  ultimately show ?thesis
    using ParseHttpHeader_render [of m "UrlEncode p" v hs rest Request_default] assms
    by (simp add: word_UrlEncode)
qed

lemma header_parsed_head [simp]:
  "header (parsed_head m p v hs\<lparr>req_body_size := n, req_from_ip := ip\<rparr>) k = header_in hs k"
  "header (parsed_head m p v hs) k = header_in hs k"
  by (simp_all add: header_def parsed_head_def)

text \<open>\<open>Parse\<close> after the first receive brought the whole head and the beginning of the body.\<close>

lemma Parse_render:
  assumes "word m" "word p" "CHR ''?'' \<notin> set p" "word v" "hs \<noteq> []" "\<forall>h \<in> set hs. good_header h"
    and "map_of hs ''Content-Length'' = Some (dec n)" "n < 2 ^ 63"
    and "\<not> prefix ''multipart'' (header_in hs ''Content-Type'')"
    and "fst (sys_recv os (m_sockfd s) kReqBufSize (kern w)) = Some (render_head m (UrlEncode p) v hs @ b0)"
    and "w1 = w\<lparr>kern := snd (sys_recv os (m_sockfd s) kReqBufSize (kern w))\<rparr>"
  shows "Parse os stk s Request_default w =
     (case body_loop os s n (length b0) b0 w1 of
        ((b, body), w2) \<Rightarrow>
          Inr ((b, (parsed_head m p v hs)\<lparr>req_body_size := n, req_from_ip := m_ip s, req_body := body,
                 req_is_json := b \<and> prefix ''application/json'' (header_in hs ''Content-Type'')\<rparr>), w2))"
proof -
  define hd0 where "hd0 = render_head m (UrlEncode p) v hs"
  have ne: "hd0 \<noteq> []" by (simp add: hd0_def render_head_def)
  have P: "ParseHttpHeader (hd0 @ b0 @ rest) Request_default = Inr (length hd0, parsed_head m p v hs)" for rest
    unfolding hd0_def using ParseHttpHeader_path assms by simp
  have cl: "content_length (parsed_head m p v hs) = n"
    using assms by (intro content_length_dec) simp_all
  have sf: "string_from (hd0 @ b0) (length hd0) (int (length (hd0 @ b0)) - int (length hd0)) = Inr b0"
    by (simp add: string_from_def)
  obtain b body w2 where bl: "body_loop os s n (length b0) b0 w1 = ((b, body), w2)"
    by (metis prod.exhaust)
  have fh: "header (parsed_head m p v hs\<lparr>req_body_size := n, req_from_ip := m_ip s, req_body := body\<rparr>) k = header_in hs k" for k
    by (simp add: header_def parsed_head_def)
  have nj: "\<not> req_is_json (parsed_head m p v hs)" by (simp add: parsed_head_def Request_default_def)
  have rc: "Socket_recv os s kReqBufSize w = (Some (hd0 @ b0), w1)"
    using assms(10,11) by (simp add: Socket_recv_simp hd0_def)
  show ?thesis
    unfolding Parse_def rc using P ne assms(9) bl nj
    by (simp add: cl TestContentType fh string_from_def read_body_def)
qed



text \<open>A request in one chunk, evaluated through the lemmas.\<close>

lemma Parse_example:
  "\<exists>w'. Parse net_sys [] Socket_default Request_default
     (net_world [Some (render_head ''GET'' (UrlEncode ''/'') ''HTTP/1.1'' [(''Content-Length'', ''2'')] @ ''ab'')] []) =
     Inr ((True, (parsed_head ''GET'' ''/'' ''HTTP/1.1'' [(''Content-Length'', ''2'')])
       \<lparr>req_body_size := 2, req_from_ip := '''', req_body := ''ab'', req_is_json := False\<rparr>), w') \<and>
     net_send (kern w') = [] \<and> net_sent (kern w') = ''''"
proof -
  define hs where "hs = [(''Content-Length'', ''2'')]"
  define hd0 where "hd0 = render_head ''GET'' (UrlEncode ''/'') ''HTTP/1.1'' hs"
  define w where "w = net_world [Some (hd0 @ ''ab'')] []"
  define w1 where "w1 = w\<lparr>kern := snd (sys_recv net_sys (m_sockfd Socket_default) kReqBufSize (kern w))\<rparr>"
  have "length hd0 < 200"
    unfolding hd0_def hs_def by code_simp
  then have rc: "fst (sys_recv net_sys (m_sockfd Socket_default) kReqBufSize (kern w)) = Some (hd0 @ ''ab'')"
    by (simp add: net_sys_def net_world_def kReqBufSize_def w_def)
  have m: "word ''GET''" "word ''/''" "CHR ''?'' \<notin> set ''/''" "word ''HTTP/1.1''" "hs \<noteq> []"
    "\<forall>h \<in> set hs. good_header h"
    unfolding hs_def by code_simp+
  have cl: "map_of hs ''Content-Length'' = Some (dec 2)" "\<not> prefix ''multipart'' (header_in hs ''Content-Type'')"
    "prefix ''application/json'' (header_in hs ''Content-Type'') = False" "length ''ab'' = 2"
    unfolding hs_def by code_simp+
  have "body_loop net_sys Socket_default 2 (length ''ab'') ''ab'' w1 = ((True, ''ab''), w1)"
    by simp
  moreover have "net_send (kern w1) = [] \<and> net_sent (kern w1) = ''''"
    by (simp add: w1_def w_def net_sys_def net_world_def)
  ultimately show ?thesis
    using Parse_render [OF m cl(1) _ cl(2) rc [unfolded hd0_def] w1_def, of "[]"]
    unfolding w_def hd0_def cl(3) by (auto simp: hs_def Socket_default_def)
qed

lemma read_body_complete:
  assumes "read_body os s dat head_size req w = Inr ((True, req'), w')"
  shows "\<exists>b. req' = req\<lparr>req_body := b\<rparr> \<and>
     (prefix ''multipart'' (header req ''Content-Type'') \<or> req_body_size req \<le> length b)"
proof (cases "prefix ''multipart'' (header req ''Content-Type'')")
  case True
  then have "req' = req\<lparr>req_body := req_body req\<rparr>"
    using assms by (simp add: read_body_def TestContentType SaveMultipartFile_def)
  with True show ?thesis by blast
next
  case False
  then obtain body where body: "string_from dat head_size (int (length dat) - int head_size) = Inr body"
    using assms by (auto simp: read_body_def TestContentType res_eq_iffs)
  obtain b0 b w2 where bl: "body_loop os s (req_body_size req) (length dat - head_size) body w = ((b0, b), w2)"
    by (metis prod.exhaust)
  have b: "string_from dat head_size (int (length dat) - int head_size) = Inr body"
    "body_loop os s (req_body_size req) (length dat - head_size) body w = ((True, b), w')" "req' = req\<lparr>req_body := b\<rparr>"
    using assms False body bl by (auto simp: read_body_def TestContentType)
  have "length body = length dat - head_size"
    using b(1) by (auto simp: string_from_def split: if_splits)
  from body_loop_enough [OF b(2) this] b(3) show ?thesis by blast
qed

lemma header_update [simp]:
  "header (r\<lparr>req_body := b\<rparr>) = header r" "header (r\<lparr>req_body_size := n\<rparr>) = header r"
  "header (r\<lparr>req_from_ip := i\<rparr>) = header r" "header (r\<lparr>req_is_json := j\<rparr>) = header r"
  by (simp_all add: header_def fun_eq_iff)

lemma content_length_header: "header r = header r' \<Longrightarrow> content_length r = content_length r'"
  by (simp add: content_length_def)


text \<open>
  The sockets are non-blocking and the parser gives up when a receive has nothing yet: a
  request whose head and first part of the body have arrived is refused (\<open>Parse\<close> returns
  \<open>false\<close>) as soon as the kernel has to be asked for bytes that are still on the way, however
  much of the body arrived before.
\<close>

lemma request_body_late:
  assumes "word m" "word p" "CHR ''?'' \<notin> set p" "word v" "hs \<noteq> []" "\<forall>h \<in> set hs. good_header h"
    and "map_of hs ''Content-Length'' = Some (dec n)" "length (b0 @ concat cs) < n" "n < 2 ^ 63"
    and "\<not> prefix ''multipart'' (header_in hs ''Content-Type'')"
    and "delivers os (m_sockfd s) ((render_head m (UrlEncode p) v hs @ b0) # cs) (kern w) k'"
    and "\<forall>c \<in> set cs. c \<noteq> []"
    and "fst (sys_recv os (m_sockfd s) kReqBufSize k') = None"
  shows "\<exists>req w'. Parse os stk s Request_default w = Inr ((False, req), w') \<and> req_body req = b0 @ concat cs"
proof -
  define w1 where "w1 = w\<lparr>kern := snd (sys_recv os (m_sockfd s) kReqBufSize (kern w))\<rparr>"
  have del: "fst (sys_recv os (m_sockfd s) kReqBufSize (kern w)) = Some (render_head m (UrlEncode p) v hs @ b0)"
    "delivers os (m_sockfd s) cs (kern w1) k'"
    using assms(11) by (simp_all add: w1_def)
  have "body_loop os s n (length b0) b0 w1 =
      body_loop os s n (length (b0 @ concat cs)) (b0 @ concat cs) (w1\<lparr>kern := k'\<rparr>)"
    using body_loop_chunks [OF del(2) assms(12), of "length b0" n b0] assms(8) by simp
  also have "\<dots> = ((False, b0 @ concat cs), w1\<lparr>kern := snd (sys_recv os (m_sockfd s) kReqBufSize k')\<rparr>)"
    using assms(8,13) by (subst body_loop.simps) (simp add: Socket_recv_simp)
  finally show ?thesis
    using Parse_render [OF assms(1-6) assms(7) assms(9) assms(10) del(1) w1_def] by simp
qed

lemma request_body_late_witness:
  "\<exists>req w'. Parse net_sys [] \<lparr>m_ip = '''', m_port = 0, m_sockfd = 7\<rparr> Request_default
     (net_world [Some (render_head ''POST'' (UrlEncode ''/'') ''HTTP/1.1'' [(''Content-Length'', ''5'')] @ ''ab'')] []) =
       Inr ((False, req), w') \<and> req_body req = ''ab''"
proof -
  define hs where "hs = [(''Content-Length'', ''5'')]"
  define hd0 where "hd0 = render_head ''POST'' (UrlEncode ''/'') ''HTTP/1.1'' hs"
  define sk where "sk = \<lparr>m_ip = '''', m_port = 0, m_sockfd = 7\<rparr>"
  define w where "w = net_world [Some (hd0 @ ''ab'')] []"
  have "length hd0 < 200"
    unfolding hd0_def hs_def by code_simp
  then have del: "delivers net_sys (m_sockfd sk) ((hd0 @ ''ab'') # []) (kern w) (kern (net_world [] []))"
    by (simp add: net_sys_def net_world_def kReqBufSize_def sk_def w_def)
  have m: "word ''POST''" "word ''/''" "CHR ''?'' \<notin> set ''/''" "word ''HTTP/1.1''" "hs \<noteq> []"
    "\<forall>h \<in> set hs. good_header h"
    unfolding hs_def by code_simp+
  have cl: "map_of hs ''Content-Length'' = Some (dec 5)" "length (''ab'' @ concat []) < 5"
    "\<not> prefix ''multipart'' (header_in hs ''Content-Type'')"
    unfolding hs_def by code_simp+
  have none: "fst (sys_recv net_sys (m_sockfd sk) kReqBufSize (kern (net_world [] []))) = None"
    by (simp add: net_sys_def net_world_def)
  show ?thesis
    using request_body_late [OF m cl(1,2) _ cl(3) del [unfolded hd0_def] _ none, of "[]"]
    unfolding w_def sk_def hd0_def hs_def by simp
qed

section \<open>Requests the parser does not expect\<close>

lemma skip_while_append:
  assumes "drop p mem = xs @ ys" "\<forall>x \<in> set xs. P x"
  shows "skip_while P mem p = skip_while P mem (p + length xs)"
  using assms
proof (induction xs arbitrary: p)
  case (Cons x xs)
  then have "p < length mem" by (metis append_Cons drop_all linorder_not_less list.distinct(1))
  moreover from this have "mem ! p = x" "drop (Suc p) mem = xs @ ys"
    using Cons.prems(1) by (simp_all add: Cons_nth_drop_Suc [symmetric])
  ultimately show ?case using Cons by (subst skip_while.simps) simp
qed simp

lemma skip_while_Inl: "skip_while P mem p = Inl e \<Longrightarrow> e = OutOfBounds"
  by (induction P mem p rule: skip_while.induct) (subst (asm) (2) skip_while.simps, auto split: if_splits)

lemma set_drop_subset_add: "set (drop (n + k) mem) \<subseteq> set (drop n mem)"
  by (metis add.commute drop_drop set_drop_subset)

text \<open>A word whose white space is followed by no line end: scanning for the next line fails.\<close>

lemma GetNextWord_then_line:
  assumes "drop p mem = w @ sp @ r" "word w" "sp \<noteq> []" "\<forall>c \<in> set sp. is_ws c" "\<forall>c \<in> set r. \<not> is_eol c"
  shows "res_bind (GetNextWord mem p) (\<lambda>(q, str). res_bind (GetNextLine mem q) (f str)) = Inl OutOfBounds"
proof -
  obtain z sp' where sp: "sp = z # sp'" using assms(3) by (cases sp) auto
  obtain a w' where w: "w = a # w'" using assms(2) by (cases w) (auto simp: word_def)
  have 1: "skip_while is_ws mem p = Inr (p + length ([] :: string))"
    using assms(1,2) by (intro skip_while_drop [of p mem "[]" a]) (auto simp: w word_def)
  have 2: "skip_while (\<lambda>c. \<not> is_ws c) mem p = Inr (p + length w)"
    using assms by (intro skip_while_drop [where y = z and ys = "sp' @ r"]) (auto simp: word_def sp)
  have d: "drop (p + length w) mem = sp @ r"
    using arg_cong [OF assms(1), of "drop (length w)"] by (simp add: drop_drop add.commute)
  have 3: "skip_while is_ws mem (p + length w) = skip_while is_ws mem (p + length w + length sp)"
    using assms(4) by (intro skip_while_append [OF d])
  have r: "drop (p + length w + length sp) mem = r"
    using arg_cong [OF d, of "drop (length sp)"] by (simp add: drop_drop add.commute)
  show ?thesis
  proof (cases "skip_while is_ws mem (p + length w + length sp)")
    case (Inl e)
    then show ?thesis using 1 2 3 skip_while_Inl by (simp add: GetNextWord_def string_from_def)
  next
    case (Inr q)
    then obtain j where "q = p + length w + length sp + j"
      using skip_while_bounds le_Suc_ex by blast
    then have "\<forall>c \<in> set (drop q mem). \<not> is_eol c"
      using set_drop_subset_add [of "p + length w + length sp" j mem] assms(5) r by auto
    then show ?thesis
      using 1 2 3 Inr by (simp add: GetNextWord_def string_from_def GetNextLine_no_end)
  qed
qed

lemma parse_header_line_no_value:
  assumes "word w" "\<forall>c \<in> set sp. is_ws c \<and> \<not> is_eol c"
  shows "parse_header_line (w @ sp) = Inl OutOfBounds"
proof -
  have "drop 0 ((w @ sp) @ [CHR 0x0A, CHR 0x00]) = w @ (sp @ [CHR 0x0A]) @ [CHR 0x00]" by simp
  from GetNextWord_then_line [OF this assms(1), of "\<lambda>key (_, val). if key = [] then Inl EmptyPop else Inr (butlast key, val)"]
  show ?thesis using assms(2) by (simp add: parse_header_line_def)
qed

lemma request_line_words:
  assumes "mem = m @ '' '' @ t @ '' '' @ v @ sp @ y # ys" "word m" "word t" "word v"
    and "sp \<noteq> []" "\<forall>c \<in> set sp. is_ws c" "\<not> is_ws y"
  shows "GetNextWord mem 0 = Inr (length m + 1, m)"
    and "GetNextWord mem (length m + 1) = Inr (length m + length t + 2, t)"
    and "GetNextWord mem (length m + length t + 2) = Inr (length m + length t + length v + length sp + 2, v)"
proof -
  obtain a t' where t: "t = a # t'" "\<not> is_ws a" using assms(3) by (cases t) (auto simp: word_def)
  obtain b v' where v: "v = b # v'" "\<not> is_ws b" using assms(4) by (cases v) (auto simp: word_def)
  obtain z sp' where sp: "sp = z # sp'" using assms(5) by (cases sp) auto
  have d0: "drop 0 mem = m @ CHR '' '' # [] @ a # (t' @ '' '' @ v @ sp @ y # ys)" by (simp add: assms(1) t)
  show "GetNextWord mem 0 = Inr (length m + 1, m)"
    using GetNextWord_word [OF d0 assms(2) _ t(2)] by simp
  have d1: "drop (length m + 1) mem = t @ CHR '' '' # [] @ b # (v' @ sp @ y # ys)"
    by (rule drop_prefix [of _ "m @ '' ''"]) (simp_all add: assms(1) v)
  show "GetNextWord mem (length m + 1) = Inr (length m + length t + 2, t)"
    using GetNextWord_word [OF d1 assms(3) _ v(2)] by simp
  have d2: "drop (length m + length t + 2) mem = v @ z # sp' @ y # ys"
    by (rule drop_prefix [of _ "m @ '' '' @ t @ '' ''"]) (simp_all add: assms(1) sp)
  show "GetNextWord mem (length m + length t + 2) = Inr (length m + length t + length v + length sp + 2, v)"
    using GetNextWord_word [OF d2 assms(4) _ assms(7)] assms(6) by (simp add: sp)
qed

text \<open>
  A request without header lines, such as a bare \<open>GET / HTTP/1.1\<close>, makes the parser read past
  what it received: the blank line is skipped as white space behind the version, and unless the
  uninitialised rest of the buffer happens to hold a line end the scan leaves the buffer.
\<close>

lemma request_without_headers:
  assumes "word m" "word t" "word v"
    and "dat = m @ '' '' @ t @ '' '' @ v @ CRLF @ CRLF"
    and "fst (sys_recv os (m_sockfd s) kReqBufSize (kern w)) = Some dat"
    and "\<forall>c \<in> set (drop (length dat) stk). \<not> is_eol c"
  shows "Parse os stk s req w = Inl OutOfBounds"
proof -
  define rest where "rest = drop (length dat) stk"
  define mem where "mem = dat @ rest"
  obtain a t' where t: "t = a # t'" "\<not> is_ws a" using assms(2) by (cases t) (auto simp: word_def)
  obtain b v' where v: "v = b # v'" "\<not> is_ws b" using assms(3) by (cases v) (auto simp: word_def)
  have d0: "drop 0 mem = m @ CHR '' '' # [] @ a # (t' @ '' '' @ v @ CRLF @ CRLF @ rest)"
    by (simp add: mem_def assms(4) t)
  have 1: "GetNextWord mem 0 = Inr (length m + 1, m)"
    using GetNextWord_word [OF d0 assms(1) _ t(2)] by simp
  have d1: "drop (length m + 1) mem = t @ CHR '' '' # [] @ b # (v' @ CRLF @ CRLF @ rest)"
    by (rule drop_prefix [of _ "m @ '' ''"]) (simp_all add: mem_def assms(4) v)
  have 2: "GetNextWord mem (length m + 1) = Inr (length m + length t + 2, t)"
    using GetNextWord_word [OF d1 assms(2) _ v(2)] by simp
  have d2: "drop (length m + length t + 2) mem = v @ (CRLF @ CRLF) @ rest"
    by (rule drop_prefix [of _ "m @ '' '' @ t @ '' ''"]) (simp_all add: mem_def assms(4))
  have 3: "res_bind (GetNextWord mem (length m + length t + 2)) (\<lambda>(q, str). res_bind (GetNextLine mem q) (f str)) =
      Inl OutOfBounds" for f :: "string \<Rightarrow> nat \<times> string \<Rightarrow> (nat \<times> request) result"
    using assms(6) by (intro GetNextWord_then_line [OF d2 assms(3)]) (auto simp: CRLF_def rest_def)
  have "ParseHttpHeader mem req = Inl OutOfBounds"
    unfolding ParseHttpHeader_def Let_def using 3 by (simp only: 1 2 res_bind_simps prod.case)
  moreover have "dat \<noteq> []" by (simp add: assms(4))
  ultimately show ?thesis
    using assms(5) by (simp add: Parse_def Socket_recv_simp mem_def rest_def)
qed

lemma request_without_headers_witness:
  "Parse net_sys (replicate 64 (CHR 0x00)) Socket_default Request_default
     (net_world [Some (''GET / HTTP/1.1'' @ CRLF @ CRLF)] []) = Inl OutOfBounds"
proof -
  have "\<not> is_eol (CHR 0x00)" by simp
  then show ?thesis
    by (intro request_without_headers [of "''GET''" "''/''" "''HTTP/1.1''"])
      (auto simp: word_def is_ws_def net_sys_def net_world_def kReqBufSize_def CRLF_def
        dest: in_set_dropD simp del: drop_replicate)
qed

text \<open>
  A header line without a space between name and value, or with an empty value, makes the
  parser read outside the line: the skip over white space behind the name runs over the line's
  own line feed, and the scan for the value finds no other.  Both forms are legal HTTP.
\<close>

lemma header_without_value:
  assumes "word m" "word t" "word v" "word h" "\<forall>c \<in> set sp. is_ws c \<and> \<not> is_eol c"
  shows "ParseHttpHeader (m @ '' '' @ t @ '' '' @ v @ CRLF @ h @ sp @ CRLF @ rest) req = Inl OutOfBounds"
proof -
  define mem where "mem = m @ '' '' @ t @ '' '' @ v @ CRLF @ h @ sp @ CRLF @ rest"
  obtain y ys where h: "h = y # ys" "\<not> is_ws y" using assms(4) by (cases h) (auto simp: word_def)
  have mem: "mem = m @ '' '' @ t @ '' '' @ v @ CRLF @ y # (ys @ sp @ CRLF @ rest)" by (simp add: mem_def h)
  note W = request_line_words [OF mem assms(1-3) _ _ h(2)]
  have d: "drop (length m + length t + length v + length CRLF + 2) mem = (h @ sp) @ CRLF @ rest"
    by (rule drop_prefix [of _ "m @ '' '' @ t @ '' '' @ v @ CRLF"]) (simp_all add: mem_def)
  have ne: "\<forall>c \<in> set (h @ sp). \<not> is_eol c"
    using assms(4,5) is_eol_ws by (auto simp: word_def)
  have L: "GetNextLine mem (length m + length t + length v + length CRLF + 2) =
      Inr (length m + length t + length v + length CRLF + 2 + length (h @ sp) + 2, h @ sp)"
    by (rule GetNextLine_CRLF [OF d ne])
  have "header_loop mem p (h @ sp) r = Inl OutOfBounds" for p r
    using parse_header_line_no_value [OF assms(4,5)] h by (subst header_loop.simps) simp
  then show ?thesis
    unfolding ParseHttpHeader_def Let_def mem_def [symmetric]
    using W L by (simp add: CRLF_def)
qed

lemma header_without_value_witness:
  "ParseHttpHeader (''GET / HTTP/1.1'' @ CRLF @ ''Host:example.org'' @ CRLF @ CRLF) Request_default = Inl OutOfBounds"
  using header_without_value [of "''GET''" "''/''" "''HTTP/1.1''" "''Host:example.org''" "[]" CRLF Request_default]
  by (simp add: word_def is_ws_def)

text \<open>
  White space before the method is no valid request and throws \<open>length_error\<close>: the word's
  start is behind its end.  The parser returns neither \<open>true\<close> nor \<open>false\<close>.
\<close>

lemma request_leading_space:
  assumes "fst (sys_recv os (m_sockfd s) kReqBufSize (kern w)) = Some (z # sp @ y # ys)"
    and "\<forall>c \<in> set (z # sp). is_ws c" "\<not> is_ws y"
  shows "Parse os stk s req w = Inl LengthError"
proof -
  have "GetNextWord ((z # sp @ y # ys) @ rest) 0 = Inl LengthError" for rest
    using assms(2,3) by (intro GetNextWord_leading_ws [where z = z and sp = sp and y = y]) simp_all
  then show ?thesis
    using assms(1) by (simp add: Parse_def Socket_recv_simp ParseHttpHeader_def)
qed

lemma request_leading_space_witness:
  "Parse net_sys [] Socket_default Request_default
     (net_world [Some (CRLF @ ''GET / HTTP/1.1'')] []) = Inl LengthError"
  by (rule request_leading_space [of _ _ _ "CHR 0x0D" "[CHR 0x0A]" "CHR ''G''" "''ET / HTTP/1.1''"])
    (simp_all add: CRLF_def is_ws_def net_sys_def net_world_def kReqBufSize_def)

section \<open>Queries\<close>

definition param_piece :: "string \<times> string \<Rightarrow> string" where
  "param_piece kv = fst kv @ ''='' @ UrlEncode (snd kv)"

definition good_param :: "string \<times> string \<Rightarrow> bool" where
  "good_param kv \<longleftrightarrow> set (fst kv) \<inter> {CHR ''='', CHR ''%'', CHR ''?'', CHR ''&''} = {} \<and>
     set (snd kv) \<inter> {CHR ''?'', CHR ''&''} = {}"

lemma good_param_chars:
  assumes "good_param kv"
  shows "CHR ''?'' \<notin> set (param_piece kv)" "CHR ''&'' \<notin> set (param_piece kv)" "param_piece kv \<noteq> []"
    "parse_param (param_piece kv) = Inr (fst kv, ''='' @ snd kv)"
  using assms UrlEncode_notin [of "CHR ''?''" "snd kv"] UrlEncode_notin [of "CHR ''&''" "snd kv"]
    parse_param_plain [of "fst kv" "snd kv"]
  by (auto simp: good_param_def param_piece_def)

lemma param_loop_good:
  "\<forall>kv \<in> set kvs. good_param kv \<Longrightarrow>
   param_loop (map param_piece kvs) req =
     Inr (req\<lparr>req_params := emplace_list (map (\<lambda>kv. (fst kv, ''='' @ snd kv)) kvs) (req_params req)\<rparr>)"
  by (induction kvs arbitrary: req) (simp_all add: good_param_chars)

lemma join_notin: "\<forall>p \<in> set ps. c \<notin> set p \<Longrightarrow> c \<noteq> ch \<Longrightarrow> c \<notin> set (join ch ps)"
  by (induction ch ps rule: join.induct) auto

lemma join_not_Nil: "ps \<noteq> [] \<Longrightarrow> \<forall>p \<in> set ps. p \<noteq> [] \<Longrightarrow> join ch ps \<noteq> []"
  by (cases "(ch, ps)" rule: join.cases) auto

text \<open>
  The query of a target is decoded into the parameters with the equals sign kept in front of
  every value: for keys without special characters, \<open>k=v\<close> gives the parameter \<open>k\<close> the value
  \<open>=v\<close>.  The path and the keys are right, and of equal keys the first one is kept.
\<close>

lemma query_params_keep_equals:
  assumes "CHR ''?'' \<notin> set p" "kvs \<noteq> []" "\<forall>kv \<in> set kvs. good_param kv"
  shows "parse_target (req\<lparr>req_path := UrlEncode p @ ''?'' @ join (CHR ''&'') (map param_piece kvs)\<rparr>) =
     Inr (req\<lparr>req_path := p, req_params := map_of (map (\<lambda>kv. (fst kv, ''='' @ snd kv)) kvs) ++ req_params req\<rparr>)"
proof -
  define q where "q = join (CHR ''&'') (map param_piece kvs)"
  have q: "CHR ''?'' \<notin> set q" "q \<noteq> []"
    unfolding q_def using assms(2,3)
    by (intro join_notin join_not_Nil; simp add: good_param_chars)+
  have "Split (UrlEncode p @ CHR ''?'' # q) (CHR ''?'') = [UrlEncode p, q]"
    using assms(1) q by (simp add: Split_Cons Split_piece UrlEncode_notin)
  moreover have "Split q (CHR ''&'') = map param_piece kvs"
    unfolding q_def using assms by (intro Split_join) (auto simp: good_param_chars last_map)
  moreover have "req_params (req\<lparr>req_path := p\<rparr>) = req_params req" by simp
  ultimately show ?thesis
    using param_loop_good [OF assms(3), of "req\<lparr>req_path := p\<rparr>"]
    by (simp add: parse_target_def array_at_def UrlDecode_UrlEncode emplace_all flip: q_def)
qed

lemma query_params_keep_equals_witness:
  "parse_target (Request_default\<lparr>req_path := ''/s?a=1&b=x''\<rparr>) =
     Inr (Request_default\<lparr>req_path := ''/s'', req_params := [''a'' \<mapsto> ''=1'', ''b'' \<mapsto> ''=x'']\<rparr>)"
proof -
  have e: "UrlEncode ''/s'' @ ''?'' @ join (CHR ''&'') (map param_piece [(''a'', ''1''), (''b'', ''x'')]) = ''/s?a=1&b=x''"
    by code_simp
  have "map_of (map (\<lambda>kv. (fst kv, ''='' @ snd kv)) [(''a'', ''1''), (''b'', ''x'')]) ++ req_params Request_default =
      [''a'' \<mapsto> ''=1'', ''b'' \<mapsto> ''=x'']"
    by (simp add: Request_default_def fun_upd_twist)
  then show ?thesis
    using query_params_keep_equals [of "''/s''" "[(''a'', ''1''), (''b'', ''x'')]" Request_default]
    unfolding e by (simp add: good_param_def)
qed


end
