(* ===== verification/Server.thy ===== *)
theory Server
  imports Response Request_Parse
begin

text \<open>
  \<^verbatim>\<open>src/web/exception.cpp\<close>, \<^verbatim>\<open>src/include/web/server.h\<close> and \<^verbatim>\<open>src/web/server.cpp\<close>: the exceptions a
  handler throws, the configuration of the server, the chains of handlers and the way \<open>Handle\<close>
  runs them or serves a static file.
\<close>

section \<open>Exceptions\<close>

record http_exception =
  he_base_code :: int
  he_code :: int
  he_msg :: string
  he_body :: json

definition HttpException :: "int \<Rightarrow> int \<Rightarrow> string \<Rightarrow> json \<Rightarrow> http_exception" where
  "HttpException base_code code msg body =
     \<lparr>he_base_code = base_code, he_code = code, he_msg = msg, he_body = body\<rparr>"

definition HttpException_code_msg :: "int \<Rightarrow> int \<Rightarrow> string \<Rightarrow> http_exception" where
  "HttpException_code_msg base_code code msg = HttpException base_code code msg (JObj [])"

definition HttpException_msg :: "int \<Rightarrow> string \<Rightarrow> http_exception" where
  "HttpException_msg base_code msg = HttpException_code_msg base_code base_code msg"

definition HttpException_body :: "json \<Rightarrow> http_exception" where
  "HttpException_body body = HttpException 200 200 ''ok'' body"

definition HttpException_base :: "int \<Rightarrow> http_exception" where
  "HttpException_base base_code = HttpException_msg base_code ''ok''"

text \<open>What can be thrown through the server: an \<open>HttpException\<close>, a JSON error, another error.\<close>

datatype exn =
    HttpExc http_exception
  | JsonExc string
  | CppExc cpp_error

section \<open>Handlers\<close>

text \<open>
  A handler gets the request, the response and a function \<open>next\<close>; it may call \<open>next\<close> any number of
  times, sees whether the call returned or threw, and ends itself in one of the two ways.  Its
  behaviour is the tree of these calls: \<open>CallNext s k\<close> calls \<open>next\<close> in the state \<open>s\<close> and goes on
  with what \<open>k\<close> makes of the outcome.
\<close>

datatype 's outcome = Done 's | Thrown exn 's

datatype 's prog = Stop "'s outcome" | CallNext 's "'s outcome \<Rightarrow> 's prog"

type_synonym 's handler = "'s \<Rightarrow> 's prog"

text \<open>The two indices that \<open>next_func\<close> captures, and the number of warnings it logged.\<close>

record chain =
  process_func_index :: int
  func_index :: int
  warnings :: nat

primrec run_prog :: "'s prog \<Rightarrow> ('s \<Rightarrow> chain \<Rightarrow> ('s outcome \<times> chain) option) \<Rightarrow> chain \<Rightarrow> ('s outcome \<times> chain) option" where
  "run_prog (Stop r) = (\<lambda>nxt ix. Some (r, ix))"
| "run_prog (CallNext s k) = (\<lambda>nxt ix. Option.bind (nxt s ix) (\<lambda>(r, ix). run_prog (k r) nxt ix))"

lemma run_prog_mono [partial_function_mono]:
  assumes "\<And>s ix. mono_option (\<lambda>f. F f s ix)"
  shows "mono_option (\<lambda>f. run_prog p (F f) ix)"
proof (induction p arbitrary: ix)
  case (Stop r)
  show ?case by (simp add: option.const_mono)
next
  case (CallNext s k)
  have "mono_option (\<lambda>f. case y of (r, ix) \<Rightarrow> run_prog (k r) (F f) ix)" for y
    using CallNext by (cases y) simp
  then show ?case
    using assms by (simp only: run_prog.simps) (rule bind_mono)
qed

text \<open>\<open>next_func\<close>: the next process handler, then the next handler of the path, then a warning.\<close>

partial_function (option) next_func :: "'s handler list \<Rightarrow> 's handler list \<Rightarrow> 's \<Rightarrow> chain \<Rightarrow> ('s outcome \<times> chain) option" where
  "next_func process_handles func_list s ix =
     (if process_func_index ix + 1 < int (length process_handles) then
        run_prog ((process_handles ! nat (process_func_index ix + 1)) s)
          (next_func process_handles func_list)
          (ix\<lparr>process_func_index := process_func_index ix + 1\<rparr>)
      else if func_index ix + 1 < int (length func_list) then
        run_prog ((func_list ! nat (func_index ix + 1)) s)
          (next_func process_handles func_list)
          (ix\<lparr>func_index := func_index ix + 1\<rparr>)
      else Some (Done s, ix\<lparr>warnings := Suc (warnings ix)\<rparr>))"

section \<open>The server\<close>

record 'a hstate =
  hs_req :: request
  hs_resp :: response
  hs_types :: content_types
  hs_app :: 'a

record server_config =
  cfg_ip :: string
  cfg_port :: int
  cfg_threads :: int
  cfg_connects :: int
  cfg_wait_time :: int

definition ServerConfig_default :: server_config where
  "ServerConfig_default =
     \<lparr>cfg_ip = ''0.0.0.0'', cfg_port = 8080, cfg_threads = 30, cfg_connects = 100, cfg_wait_time = 5000\<rparr>"

record 'a server =
  srv_ip :: string
  srv_port :: int
  srv_threads :: int
  srv_connects :: int
  srv_wait_time :: int
  srv_static_path :: string
  srv_handlers :: "string \<rightharpoonup> 'a hstate handler list"
  srv_process_handles :: "'a hstate handler list"

definition Server_new :: "server_config \<Rightarrow> 'a server" where
  "Server_new c = \<lparr>srv_ip = cfg_ip c, srv_port = cfg_port c, srv_threads = cfg_threads c,
     srv_connects = cfg_connects c, srv_wait_time = cfg_wait_time c, srv_static_path = '''',
     srv_handlers = Map.empty, srv_process_handles = []\<rparr>"

definition Listen :: "string \<Rightarrow> int \<Rightarrow> 'a server \<Rightarrow> 'a server" where
  "Listen ip port srv = srv\<lparr>srv_ip := ip, srv_port := port\<rparr>"

definition set_threads :: "int \<Rightarrow> 'a server \<Rightarrow> 'a server" where
  "set_threads n srv = srv\<lparr>srv_threads := n\<rparr>"

definition set_connects :: "int \<Rightarrow> 'a server \<Rightarrow> 'a server" where
  "set_connects n srv = srv\<lparr>srv_connects := n\<rparr>"

definition set_wait_time :: "int \<Rightarrow> 'a server \<Rightarrow> 'a server" where
  "set_wait_time n srv = srv\<lparr>srv_wait_time := n\<rparr>"

definition StaticPath :: "string \<Rightarrow> 'a server \<Rightarrow> 'a server" where
  "StaticPath p srv = srv\<lparr>srv_static_path := p\<rparr>"

definition Bind :: "string \<Rightarrow> 'a hstate handler \<Rightarrow> 'a server \<Rightarrow> 'a server" where
  "Bind p h srv = srv\<lparr>srv_handlers := (srv_handlers srv)
     (p \<mapsto> (case srv_handlers srv p of None \<Rightarrow> [] | Some hs \<Rightarrow> hs) @ [h])\<rparr>"

definition Bind_list :: "string \<Rightarrow> 'a hstate handler list \<Rightarrow> 'a server \<Rightarrow> 'a server" where
  "Bind_list p hs srv = foldl (\<lambda>srv h. Bind p h srv) srv hs"

definition ProcessBind :: "'a hstate handler \<Rightarrow> 'a server \<Rightarrow> 'a server" where
  "ProcessBind h srv = srv\<lparr>srv_process_handles := srv_process_handles srv @ [h]\<rparr>"

definition chain_start :: chain where
  "chain_start = \<lparr>process_func_index = -1, func_index = -1, warnings = 0\<rparr>"

text \<open>
  The static files: the path is the configured root with the request's path behind it, and what
  is no regular file falls back to the index page.  \<open>regular\<close> is the file system's
  \<open>is_regular_file\<close>.
\<close>

definition static_file :: "(string \<Rightarrow> bool) \<Rightarrow> string \<Rightarrow> string \<Rightarrow> string option" where
  "static_file regular root p =
     (if root = '''' then None
      else
        (let now_path = root @ p;
             now_path = (if \<not> regular now_path then root @ ''/index.html'' else now_path)
         in if regular now_path then Some now_path else None))"

text \<open>\<open>Server::Handle\<close>: the outcome with the request, the response and the state of the handlers.\<close>

definition Handle :: "'a server \<Rightarrow> (string \<Rightarrow> bool) \<Rightarrow> filesystem \<Rightarrow> request \<Rightarrow> content_types \<Rightarrow> 'a \<Rightarrow>
    ('a hstate outcome \<times> nat) option" where
  "Handle srv regular fs req types app =
     (let s = \<lparr>hs_req = req, hs_resp = Response_default, hs_types = types, hs_app = app\<rparr> in
      case srv_handlers srv (path req) of
        Some func_list \<Rightarrow>
          Option.bind (next_func (srv_process_handles srv) func_list s chain_start)
            (\<lambda>(r, ix). Some (r, warnings ix))
      | None \<Rightarrow>
          (case static_file regular (srv_static_path srv) (path req) of
             Some p \<Rightarrow>
               (let (resp, types) = AutoSetType p (AutoFileData fs p Response_default, types)
                in Some (Done (s\<lparr>hs_resp := resp, hs_types := types\<rparr>), 0))
           | None \<Rightarrow>
               (let (resp, types) = page_not_found (Response_default, types)
                in Some (Done (s\<lparr>hs_resp := resp, hs_types := types\<rparr>), 0))))"

section \<open>The chain ends\<close>

definition later :: "chain \<Rightarrow> chain \<Rightarrow> bool" where
  "later ix ix' \<longleftrightarrow> process_func_index ix \<le> process_func_index ix' \<and> func_index ix \<le> func_index ix' \<and>
     warnings ix \<le> warnings ix'"

lemma later_refl [simp]: "later ix ix"
  by (simp add: later_def)

lemma later_trans: "later a b \<Longrightarrow> later b c \<Longrightarrow> later a c"
  by (simp add: later_def)

definition remaining :: "'s handler list \<Rightarrow> 's handler list \<Rightarrow> chain \<Rightarrow> nat" where
  "remaining ps fs ix = nat (int (length ps) - 1 - process_func_index ix) + nat (int (length fs) - 1 - func_index ix)"

lemma remaining_later: "later ix ix' \<Longrightarrow> remaining ps fs ix' \<le> remaining ps fs ix"
  unfolding remaining_def later_def by (intro add_mono nat_mono) linarith+

lemma run_prog_total:
  assumes "\<And>s ix'. later ix ix' \<Longrightarrow> \<exists>r ix''. nxt s ix' = Some (r, ix'') \<and> later ix' ix''"
  shows "\<exists>r ix'. run_prog p nxt ix = Some (r, ix') \<and> later ix ix'"
  using assms
proof (induction p arbitrary: ix)
  case (CallNext s k)
  obtain r ix1 where 1: "nxt s ix = Some (r, ix1)" "later ix ix1"
    using CallNext.prems [of ix s] by auto
  have "\<exists>r' ix'. run_prog (k r) nxt ix1 = Some (r', ix') \<and> later ix1 ix'"
    using CallNext.prems later_trans [OF 1(2)] by (intro CallNext.IH) auto
  then show ?case using 1 later_trans by fastforce
qed simp

lemma next_func_total:
  "\<exists>r ix'. next_func ps fs s ix = Some (r, ix') \<and> later ix ix'"
proof (induction "remaining ps fs ix" arbitrary: s ix rule: less_induct)
  case less
  consider (p) "process_func_index ix + 1 < int (length ps)"
    | (f) "\<not> process_func_index ix + 1 < int (length ps)" "func_index ix + 1 < int (length fs)"
    | (w) "\<not> process_func_index ix + 1 < int (length ps)" "\<not> func_index ix + 1 < int (length fs)"
    by blast
  then show ?case
  proof cases
    case p
    define ix1 where "ix1 = ix\<lparr>process_func_index := process_func_index ix + 1\<rparr>"
    have l: "later ix ix1" by (simp add: later_def ix1_def)
    have "remaining ps fs ix1 < remaining ps fs ix"
      using p by (simp add: remaining_def ix1_def)
    then have "\<exists>r ix'. next_func ps fs s ix2 = Some (r, ix') \<and> later ix2 ix'" if "later ix1 ix2" for s ix2
      using less [of ix2 s] remaining_later [OF that, of ps fs] by simp
    then have "\<exists>r ix'. run_prog ((ps ! nat (process_func_index ix + 1)) s) (next_func ps fs) ix1 = Some (r, ix') \<and> later ix1 ix'"
      by (rule run_prog_total)
    then show ?thesis using p later_trans [OF l] by (subst next_func.simps) (auto simp: ix1_def)
  next
    case f
    define ix1 where "ix1 = ix\<lparr>func_index := func_index ix + 1\<rparr>"
    have l: "later ix ix1" by (simp add: later_def ix1_def)
    have "remaining ps fs ix1 < remaining ps fs ix"
      using f by (simp add: remaining_def ix1_def)
    then have "\<exists>r ix'. next_func ps fs s ix2 = Some (r, ix') \<and> later ix2 ix'" if "later ix1 ix2" for s ix2
      using less [of ix2 s] remaining_later [OF that, of ps fs] by simp
    then have "\<exists>r ix'. run_prog ((fs ! nat (func_index ix + 1)) s) (next_func ps fs) ix1 = Some (r, ix') \<and> later ix1 ix'"
      by (rule run_prog_total)
    then show ?thesis using f later_trans [OF l] by (subst next_func.simps) (auto simp: ix1_def)
  next
    case w
    then show ?thesis by (subst next_func.simps) (simp add: later_def)
  qed
qed

text \<open>
  C25: \<open>Handle\<close> returns or throws for every server, request and file system, however often the
  handlers call \<open>next\<close>: each call starts a handler that was not started before or does nothing.
\<close>

theorem handle_returns:
  "\<exists>r n. Handle srv regular fs req types app = Some (r, n)"
proof (cases "srv_handlers srv (path req)")
  case (Some hs)
  then show ?thesis
    using next_func_total [of "srv_process_handles srv" hs _ chain_start]
    by (auto simp: Handle_def Let_def) (metis Option.bind.bind_lunit old.prod.case)
next
  case None
  then show ?thesis by (auto simp: Handle_def Let_def split: option.splits prod.splits)
qed

section \<open>Order of the handlers\<close>

text \<open>
  A handler that works before and after one call of \<open>next\<close>, and one that does not call it.
\<close>

definition around :: "('s \<Rightarrow> 's) \<times> ('s outcome \<Rightarrow> 's outcome) \<Rightarrow> 's handler" where
  "around m s = CallNext (fst m s) (\<lambda>r. Stop (snd m r))"

definition final :: "('s \<Rightarrow> 's outcome) \<Rightarrow> 's handler" where
  "final f s = Stop (f s)"

definition enter :: "(('s \<Rightarrow> 's) \<times> ('s outcome \<Rightarrow> 's outcome)) list \<Rightarrow> 's \<Rightarrow> 's" where
  "enter ms s = fold fst ms s"

definition leave :: "(('s \<Rightarrow> 's) \<times> ('s outcome \<Rightarrow> 's outcome)) list \<Rightarrow> 's outcome \<Rightarrow> 's outcome" where
  "leave ms r = foldr snd ms r"

lemma enter_leave_simps [simp]:
  "enter [] s = s" "leave [] r = r"
  "enter (m # ms) s = enter ms (fst m s)" "leave (m # ms) r = snd m (leave ms r)"
  "enter (ms @ ms') s = enter ms' (enter ms s)" "leave (ms @ ms') r = leave ms (leave ms' r)"
  by (simp_all add: enter_def leave_def)

lemma next_func_path:
  assumes "fs = pre @ map around ms @ final f # rest"
    and "\<not> process_func_index ix + 1 < int (length ps)" "func_index ix = int (length pre) - 1"
  shows "next_func ps fs s ix = Some (leave ms (f (enter ms s)), ix\<lparr>func_index := int (length pre + length ms)\<rparr>)"
  using assms
proof (induction ms arbitrary: pre s ix)
  case Nil
  then show ?case by (subst next_func.simps) (simp add: final_def nth_append)
next
  case (Cons m ms)
  have "next_func ps fs (fst m s) (ix\<lparr>func_index := int (length pre)\<rparr>) =
      Some (leave ms (f (enter ms (fst m s))), ix\<lparr>func_index := int (length (pre @ [around m]) + length ms)\<rparr>)"
    using Cons.IH [of "pre @ [around m]" "ix\<lparr>func_index := int (length pre)\<rparr>" "fst m s"] Cons.prems by simp
  then show ?case
    using Cons.prems by (subst next_func.simps) (simp add: around_def nth_append)
qed

lemma next_func_process:
  assumes "ps = pre @ map around ms" "process_func_index ix = int (length pre) - 1"
    and "\<And>s. next_func ps fs s (ix\<lparr>process_func_index := int (length ps) - 1\<rparr>) = Some (g s, ix')"
  shows "next_func ps fs s ix = Some (leave ms (g (enter ms s)), ix')"
  using assms
proof (induction ms arbitrary: pre s ix)
  case Nil
  then show ?case by (cases ix) simp
next
  case (Cons m ms)
  have "next_func ps fs (fst m s) (ix\<lparr>process_func_index := int (length pre)\<rparr>) =
      Some (leave ms (g (enter ms (fst m s))), ix')"
    using Cons.IH [of "pre @ [around m]" "ix\<lparr>process_func_index := int (length pre)\<rparr>" "fst m s"] Cons.prems by simp
  then show ?case
    using Cons.prems(1,2) by (subst next_func.simps) (simp add: around_def nth_append)
qed

lemma next_func_onion:
  assumes "ps = map around ms" "fs = map around ms' @ final f # rest"
  shows "\<exists>ix. next_func ps fs s chain_start = Some (leave (ms @ ms') (f (enter (ms @ ms') s)), ix) \<and> warnings ix = 0"
proof -
  define ix1 where "ix1 = chain_start\<lparr>process_func_index := int (length ps) - 1\<rparr>"
  have "next_func ps fs s ix1 = Some (leave ms' (f (enter ms' s)), ix1\<lparr>func_index := int (length ms')\<rparr>)" for s
    using next_func_path [of fs "[]" ms' f rest ix1 ps s] assms by (simp add: ix1_def chain_start_def)
  from next_func_process [of ps "[]" ms chain_start fs, OF _ _ this [unfolded ix1_def]]
  show ?thesis using assms by (simp add: chain_start_def)
qed

text \<open>
  C18: The handlers of a request run like the layers of an onion: first the process handlers, then
  the handlers bound to the path, in the order of their registration, each doing its first part on
  the way in and its last part, on the way out, in the opposite order.  The first handler that
  does not call \<open>next\<close> ends the way in: the handlers behind it do not run.  What it throws passes
  through the layers, each of which may turn it into a normal return.
\<close>

theorem handle_onion:
  assumes "srv_process_handles srv = map around ms"
    and "srv_handlers srv (path req) = Some (map around ms' @ final f # rest)"
  shows "Handle srv regular fs req types app =
     Some (leave (ms @ ms') (f (enter (ms @ ms')
       \<lparr>hs_req = req, hs_resp = Response_default, hs_types = types, hs_app = app\<rparr>)), 0)"
proof -
  define s where "s = \<lparr>hs_req = req, hs_resp = Response_default, hs_types = types, hs_app = app\<rparr>"
  obtain ix where "next_func (srv_process_handles srv) (map around ms' @ final f # rest) s chain_start =
      Some (leave (ms @ ms') (f (enter (ms @ ms') s)), ix)" "warnings ix = 0"
    using next_func_onion [OF assms(1) refl, of ms' f rest s] by blast
  then show ?thesis by (simp add: Handle_def assms(2) flip: s_def)
qed

theorem handle_onion_witness:
  "Handle (Bind ''/a'' (final (\<lambda>s. Thrown (JsonExc ''e'') (s\<lparr>hs_app := hs_app s @ ''h''\<rparr>)))
       (ProcessBind (around (\<lambda>s. s\<lparr>hs_app := hs_app s @ ''p''\<rparr>,
           \<lambda>r. case r of Done s \<Rightarrow> Done s | Thrown _ s \<Rightarrow> Done (s\<lparr>hs_app := hs_app s @ ''c''\<rparr>)))
         (Server_new ServerConfig_default)))
     (\<lambda>_. False) Map.empty (Request_default\<lparr>req_path := ''/a''\<rparr>) Map.empty '''' =
   Some (Done \<lparr>hs_req = Request_default\<lparr>req_path := ''/a''\<rparr>, hs_resp = Response_default, hs_types = Map.empty,
     hs_app = ''phc''\<rparr>, 0)"
  by (subst handle_onion [where ms' = "[]" and rest = "[]" and
        ms = "[(\<lambda>s. s\<lparr>hs_app := hs_app s @ ''p''\<rparr>,
           \<lambda>r. case r of Done s \<Rightarrow> Done s | Thrown _ s \<Rightarrow> Done (s\<lparr>hs_app := hs_app s @ ''c''\<rparr>))]" and
        f = "\<lambda>s. Thrown (JsonExc ''e'') (s\<lparr>hs_app := hs_app s @ ''h''\<rparr>)"])
    (simp_all add: Bind_def ProcessBind_def Server_new_def path_def)

text \<open>When every handler calls \<open>next\<close>, the last call finds none left, warns and returns.\<close>

lemma next_func_exhausted:
  assumes "ps = map around ms" "fs = map around ms'"
  shows "\<exists>ix. next_func ps fs s chain_start = Some (leave (ms @ ms') (Done (enter (ms @ ms') s)), ix) \<and> warnings ix = 1"
proof -
  define ix1 where "ix1 = chain_start\<lparr>process_func_index := int (length ps) - 1\<rparr>"
  define ix2 where "ix2 = ix1\<lparr>func_index := int (length fs) - 1, warnings := 1\<rparr>"
  have "next_func ps fs s (ix1\<lparr>func_index := int (length pre) - 1\<rparr>) = Some (leave ms'' (Done (enter ms'' s)), ix2)"
    if "fs = pre @ map around ms''" for pre ms'' s
    using that
  proof (induction ms'' arbitrary: pre s)
    case Nil
    then show ?case by (subst next_func.simps) (simp add: ix1_def ix2_def chain_start_def)
  next
    case (Cons m ms'')
    have "next_func ps fs (fst m s) (ix1\<lparr>func_index := int (length pre)\<rparr>) =
        Some (leave ms'' (Done (enter ms'' (fst m s))), ix2)"
      using Cons.IH [of "pre @ [around m]" "fst m s"] Cons.prems by simp
    then show ?case
      using Cons.prems by (subst next_func.simps) (simp add: around_def nth_append ix1_def)
  qed
  from this [of "[]" ms'] have "next_func ps fs s ix1 = Some (leave ms' (Done (enter ms' s)), ix2)" for s
    using assms by (simp add: ix1_def chain_start_def)
  from next_func_process [of ps "[]" ms chain_start fs, OF _ _ this [unfolded ix1_def]]
  show ?thesis using assms by (simp add: chain_start_def ix2_def)
qed

section \<open>Static files\<close>

text \<open>
  A request for a path without handlers that names no regular file under the static root, with
  no index page to fall back to (or no root configured), is answered with the code 404, the HTML
  page of the program and its content type; request, handlers' state and table of types stay as
  they were.
\<close>

lemma handle_not_found:
  assumes "srv_handlers srv (path req) = None" "types_ok types"
    and "srv_static_path srv = '''' \<or>
      \<not> regular (srv_static_path srv @ path req) \<and> \<not> regular (srv_static_path srv @ ''/index.html'')"
  shows "\<exists>resp. Handle srv regular fs req types app =
     Some (Done \<lparr>hs_req = req, hs_resp = resp, hs_types = types, hs_app = app\<rparr>, 0) \<and>
     res_code resp = 404 \<and> res_body_data resp = page_404 \<and>
     res_headers resp = [(''Content-Type'', ''text/html; charset=utf-8'')] \<and>
     res_data_reader resp = DataReader_default"
proof -
  have "static_file regular (srv_static_path srv) (path req) = None"
    using assms(3) by (auto simp: static_file_def)
  then show ?thesis
    by (simp add: Handle_def assms(1) page_not_found_simp [OF assms(2)] set_code_def SetHeader_def
        BodyData_def Response_default_def)
qed

lemma handle_not_found_witness:
  "\<exists>resp. Handle (Server_new ServerConfig_default) (\<lambda>_. False) Map.empty (Request_default\<lparr>req_path := ''/x''\<rparr>)
       kHttpExtensionWithContentType () =
     Some (Done \<lparr>hs_req = Request_default\<lparr>req_path := ''/x''\<rparr>, hs_resp = resp,
       hs_types = kHttpExtensionWithContentType, hs_app = ()\<rparr>, 0) \<and> res_code resp = 404"
  using handle_not_found [of "Server_new ServerConfig_default" "Request_default\<lparr>req_path := ''/x''\<rparr>"
      kHttpExtensionWithContentType "\<lambda>_. False" Map.empty "()"] types_ok_init
  by (auto simp: Server_new_def)

text \<open>
  How a file system resolves a path: components between slashes, a dot for the directory itself,
  two dots for its parent (the root's parent being the root).
\<close>

definition resolve_step :: "string list \<Rightarrow> string \<Rightarrow> string list" where
  "resolve_step d c = (if c = '''' \<or> c = ''.'' then d else if c = ''..'' then butlast d else d @ [c])"

definition resolve :: "string \<Rightarrow> string list" where
  "resolve p = foldl resolve_step [] (Split p (CHR ''/''))"

definition plain_component :: "string \<Rightarrow> bool" where
  "plain_component c \<longleftrightarrow> c \<noteq> '''' \<and> c \<noteq> ''.'' \<and> c \<noteq> ''..'' \<and> CHR ''/'' \<notin> set c"

lemma plain_component_chars: "plain_component c \<Longrightarrow> CHR ''/'' \<notin> set c" "plain_component c \<Longrightarrow> c \<noteq> []"
  by (simp_all add: plain_component_def)

definition slashed :: "string list \<Rightarrow> string" where
  "slashed cs = concat (map (\<lambda>c. CHR ''/'' # c) cs)"

lemma slashed_simps [simp]: "slashed [] = []" "slashed (c # cs) = CHR ''/'' # c @ slashed cs"
  "slashed (cs @ ds) = slashed cs @ slashed ds"
  by (simp_all add: slashed_def)

lemma Split_slashed:
  assumes "\<forall>c \<in> set cs. CHR ''/'' \<notin> set c" "cs \<noteq> []" "last cs \<noteq> []" "CHR ''/'' \<notin> set b"
  shows "Split (b @ slashed cs) (CHR ''/'') = b # cs"
  using assms
proof (induction cs arbitrary: b)
  case (Cons c cs)
  show ?case
  proof (cases "cs = []")
    case True
    with Cons.prems show ?thesis by (simp add: Split_Cons Split_piece)
  next
    case False
    with Cons show ?thesis by (simp add: Split_Cons)
  qed
qed simp

lemma resolve_slashed:
  "\<forall>c \<in> set cs. CHR ''/'' \<notin> set c \<Longrightarrow> cs \<noteq> [] \<Longrightarrow> last cs \<noteq> [] \<Longrightarrow> resolve (slashed cs) = foldl resolve_step [] cs"
  using Split_slashed [of cs "[]"] by (simp add: resolve_def resolve_step_def)

lemma resolve_plain: "\<forall>c \<in> set cs. plain_component c \<Longrightarrow> foldl resolve_step d cs = d @ cs"
  by (induction cs arbitrary: d) (auto simp: plain_component_def resolve_step_def)

lemma resolve_up: "foldl resolve_step d (replicate n ''..'') = take (length d - n) d"
proof (induction n arbitrary: d)
  case (Suc n)
  have "foldl resolve_step d (replicate (Suc n) ''..'') = foldl resolve_step (butlast d) (replicate n ''..'')"
    by (simp add: resolve_step_def)
  also have "\<dots> = take (length (butlast d) - n) (butlast d)" by (rule Suc.IH)
  also have "\<dots> = take (length d - Suc n) d" by (simp add: take_butlast butlast_conv_take min_def)
  finally show ?case .
qed simp



text \<open>
  A regular file under the static root that cannot be opened, for want of a permission, is
  announced with \<open>2^64 - 1\<close> bytes (and none of body), and sending the response never ends, on any
  connection.
\<close>

lemma static_unreadable_hangs:
  assumes "srv_handlers srv (path req) = None" "srv_static_path srv \<noteq> ''''"
    and "regular (srv_static_path srv @ path req)" "fs (srv_static_path srv @ path req) = None"
  shows "\<exists>resp types'. Handle srv regular fs req types app =
     Some (Done \<lparr>hs_req = req, hs_resp = resp, hs_types = types', hs_app = app\<rparr>, 0) \<and>
     begin_data (res_data_reader (GetDataReader resp)) = MakeHttpHead (2 ^ 64 - 1) resp \<and>
     (\<forall>f (w :: 'w). honest f \<longrightarrow> BufferRead f (res_data_reader (GetDataReader resp)) w = None)"
proof -
  define p where "p = srv_static_path srv @ path req"
  have sf: "static_file regular (srv_static_path srv) (path req) = Some p"
    using assms(2,3) by (simp add: static_file_def flip: p_def)
  obtain resp types' where a: "AutoSetType p (AutoFileData fs p Response_default, types) = (resp, types')"
    by force
  have fp: "fs p = None" using assms(4) by (simp add: p_def)
  define d where "d = SetFileStream_path fs p DataReader_default"
  have dd: "stream_size d = 2 ^ 64 - 1" "available (input_file_stream d) = 0"
    by (simp_all add: d_def SetFileStream_path_def measured_def ifstream_open_def fp
        seek_end_def seek_beg_def tellg_def size_t_def available_def)
  have "AutoFileData fs p Response_default = Response_default\<lparr>res_data_reader := d\<rparr>"
    by (simp add: AutoFileData_def ifstream_open_def fp seek_end_def seek_beg_def tellg_def size_t_def
        BodyDataStream_def SetFileStream_def Response_default_def d_def SetFileStream_path_def)
  then have r: "res_data_reader resp = d \<and> res_body_data resp = ''''"
    using a by (auto simp: AutoSetType_def SetType_def SetHeader_def Response_default_def Let_def
        split: if_splits prod.splits)
  have "BufferRead f (res_data_reader (GetDataReader resp)) w = None" if "honest f" for f and w :: 'w
  proof (rule ccontr)
    assume "\<not> ?thesis"
    then obtain w1 y where "stream_loop f (stream_size d) 0 (input_file_stream d) w1 = Some y"
      using r by (auto simp: BufferRead_def GetDataReader_def SetBeginData_def split: Option.bind_splits if_splits)
    from stream_loop_honest [OF this] that dd show False by simp
  qed
  then show ?thesis
    using sf a r dd(1) by (simp add: Handle_def assms(1) GetDataReader_def SetBeginData_def)
qed

lemma static_unreadable_hangs_witness:
  "\<exists>resp types'. Handle (StaticPath ''/srv'' (Server_new ServerConfig_default)) (\<lambda>_. True) (\<lambda>_. None)
       (Request_default\<lparr>req_path := ''/key''\<rparr>) kHttpExtensionWithContentType () =
     Some (Done \<lparr>hs_req = Request_default\<lparr>req_path := ''/key''\<rparr>, hs_resp = resp, hs_types = types', hs_app = ()\<rparr>, 0) \<and>
     BufferRead (\<lambda>dat n. Some (length dat, n + length dat)) (res_data_reader (GetDataReader resp)) (0 :: nat) = None"
proof -
  have "honest (\<lambda>dat (n :: nat). Some (length dat, n + length dat))" by (simp add: honest_def)
  with static_unreadable_hangs [of "StaticPath ''/srv'' (Server_new ServerConfig_default)" "Request_default\<lparr>req_path := ''/key''\<rparr>"
      "\<lambda>_. True" "\<lambda>_. None" kHttpExtensionWithContentType "()", where 'w = nat]
  show ?thesis by (fastforce simp: StaticPath_def Server_new_def)
qed

end
