(* ===== verification/Object_Pool.thy ===== *)
theory Object_Pool
  imports Prelude
begin

text \<open>
  \<^verbatim>\<open>src/include/util/object_pool.h\<close>: a pool of objects in blocks of raw memory, a stack of idle
  ones and a mutex around every operation.  An address is the number of a block with an index
  into it.  The mutex is not recursive: locking it twice in one thread is \<open>SelfDeadlock\<close>.
\<close>

section \<open>State and operations\<close>

type_synonym addr = "nat \<times> nat"

record pool =
  all_memory :: "nat list"
  idle_objs :: "addr list"
  block_size :: nat
  locked :: bool
  max_size :: nat
  now_size :: nat

text \<open>\<open>lock_guard\<close> around an operation.\<close>

definition with_lock :: "(pool \<Rightarrow> ('a \<times> pool) result) \<Rightarrow> pool \<Rightarrow> ('a \<times> pool) result" where
  "with_lock f p =
     (if locked p then Inl SelfDeadlock
      else res_bind (f (p\<lparr>locked := True\<rparr>)) (\<lambda>(r, p). Inr (r, p\<lparr>locked := False\<rparr>)))"

text \<open>A new block of \<open>block_size\<close> objects, all of them idle; \<open>all_memory\<close> keeps the block sizes.\<close>

definition AllocNewBlock :: "pool \<Rightarrow> (unit \<times> pool) result" where
  "AllocNewBlock = with_lock (\<lambda>p. Inr ((),
     p\<lparr>all_memory := all_memory p @ [block_size p],
       idle_objs := idle_objs p @ map (Pair (length (all_memory p))) [0..<block_size p]\<rparr>))"

definition size_max :: nat where
  "size_max = 2 ^ 64 - 1"

definition ObjectPool_new :: "nat \<Rightarrow> pool result" where
  "ObjectPool_new bsize =
     res_map snd (AllocNewBlock
       \<lparr>all_memory = [], idle_objs = [], block_size = bsize, locked = False, max_size = size_max, now_size = 0\<rparr>)"

definition SetBlockSize :: "nat \<Rightarrow> pool \<Rightarrow> (unit \<times> pool) result" where
  "SetBlockSize n = with_lock (\<lambda>p. Inr ((), p\<lparr>block_size := n\<rparr>))"

definition SetMaxSize :: "nat \<Rightarrow> pool \<Rightarrow> (unit \<times> pool) result" where
  "SetMaxSize n = with_lock (\<lambda>p. Inr ((), p\<lparr>max_size := n\<rparr>))"

definition Allocate :: "pool \<Rightarrow> (addr option \<times> pool) result" where
  "Allocate = with_lock (\<lambda>p.
     if max_size p \<noteq> size_max \<and> now_size p = max_size p then Inr (None, p)
     else
       res_bind (if idle_objs p = [] then AllocNewBlock p else Inr ((), p)) (\<lambda>(_, p).
       if idle_objs p = [] then Inl OutOfBounds
       else Inr (Some (last (idle_objs p)),
              p\<lparr>idle_objs := butlast (idle_objs p), now_size := (now_size p + 1) mod 2 ^ 64\<rparr>)))"

text \<open>\<open>Delete\<close> counts down, destroys the object and puts it on the stack.\<close>

definition Delete :: "addr \<Rightarrow> pool \<Rightarrow> (unit \<times> pool) result" where
  "Delete x = with_lock (\<lambda>p. Inr ((),
     p\<lparr>now_size := (now_size p + 2 ^ 64 - 1) mod 2 ^ 64, idle_objs := idle_objs p @ [x]\<rparr>))"

text \<open>
  A shared pointer gives its object back through the deleter it was made with, also when the pointer
  is null: then the destructor is called through the null pointer.
\<close>

definition AllocateShared :: "pool \<Rightarrow> (addr option \<times> pool) result" where
  "AllocateShared = Allocate"

definition release_shared :: "addr option \<Rightarrow> pool \<Rightarrow> (unit \<times> pool) result" where
  "release_shared ptr = with_lock (\<lambda>p.
     case ptr of
       None \<Rightarrow> Inl NullDeref
     | Some x \<Rightarrow> Inr ((), p\<lparr>now_size := (now_size p + 2 ^ 64 - 1) mod 2 ^ 64, idle_objs := idle_objs p @ [x]\<rparr>))"

text \<open>The destructor frees the blocks; the pool of \<open>Instance\<close> is made at the first call and never destroyed.\<close>

definition ObjectPool_destroy :: "pool \<Rightarrow> pool" where
  "ObjectPool_destroy p = p\<lparr>all_memory := []\<rparr>"

definition Instance :: "pool option \<Rightarrow> (pool \<times> pool option) result" where
  "Instance static_ptr =
     (case static_ptr of
        Some p \<Rightarrow> Inr (p, Some p)
      | None \<Rightarrow> res_map (\<lambda>p. (p, Some p)) (ObjectPool_new 40))"

lemma release_shared_Some: "release_shared (Some x) = Delete x"
  by (simp add: release_shared_def Delete_def)

lemma shared_pointer_of_full_pool:
  assumes "\<not> locked p" "max_size p \<noteq> size_max" "now_size p = max_size p"
  shows "res_bind (AllocateShared p) (\<lambda>(ptr, p). release_shared ptr p) = Inl NullDeref"
  using assms by (simp add: AllocateShared_def Allocate_def release_shared_def with_lock_def)

section \<open>The contract of a source of objects\<close>

locale object_source =
  fixes alloc :: "'s \<Rightarrow> ('o option \<times> 's) result"
    and free :: "'o \<Rightarrow> 's \<Rightarrow> (unit \<times> 's) result"
    and live :: "'s \<Rightarrow> 'o set"
    and inv :: "'s \<Rightarrow> bool"
  assumes alloc_some: "inv s \<Longrightarrow> alloc s = Inr (Some x, s') \<Longrightarrow> x \<notin> live s \<and> live s' = insert x (live s) \<and> inv s'"
    and alloc_none: "inv s \<Longrightarrow> alloc s = Inr (None, s') \<Longrightarrow> live s' = live s \<and> inv s'"
    and free_live: "inv s \<Longrightarrow> x \<in> live s \<Longrightarrow> \<exists>s'. free x s = Inr ((), s') \<and> live s' = live s - {x} \<and> inv s'"
begin

lemma free_after_alloc:
  assumes "inv s" "alloc s = Inr (Some x, s')"
  shows "\<exists>s''. free x s' = Inr ((), s'') \<and> live s'' = live s \<and> inv s''"
  using alloc_some [OF assms] free_live [of s' x] by auto

text \<open>Objects taken one after the other, none given back.\<close>

fun alloc_many :: "nat \<Rightarrow> 's \<Rightarrow> ('o list \<times> 's) result" where
  "alloc_many 0 s = Inr ([], s)"
| "alloc_many (Suc n) s =
     res_bind (alloc s) (\<lambda>(x, s). case x of
       None \<Rightarrow> Inr ([], s)
     | Some x \<Rightarrow> res_bind (alloc_many n s) (\<lambda>(xs, s). Inr (x # xs, s)))"

lemma alloc_many_distinct:
  "inv s \<Longrightarrow> alloc_many n s = Inr (xs, s') \<Longrightarrow>
     distinct xs \<and> set xs \<inter> live s = {} \<and> live s' = set xs \<union> live s \<and> inv s'"
proof (induction n arbitrary: s xs)
  case (Suc n)
  obtain x s1 where a: "alloc s = Inr (x, s1)"
    using Suc.prems(2) by (auto simp: res_bind_eq_Inr)
  show ?case
  proof (cases x)
    case None
    then show ?thesis using Suc.prems a alloc_none by auto
  next
    case (Some y)
    then obtain ys where ys: "alloc_many n s1 = Inr (ys, s')" "xs = y # ys"
      using Suc.prems(2) a by (auto simp: res_bind_eq_Inr)
    then show ?thesis
      using Suc.IH [OF _ ys(1)] alloc_some [OF Suc.prems(1) a [unfolded Some]] by auto
  qed
qed simp

end

section \<open>The pool keeps the contract\<close>

definition all_objs :: "pool \<Rightarrow> addr set" where
  "all_objs p = {(b, i). b < length (all_memory p) \<and> i < all_memory p ! b}"

definition live_objs :: "pool \<Rightarrow> addr set" where
  "live_objs p = all_objs p - set (idle_objs p)"

definition pool_ok :: "pool \<Rightarrow> bool" where
  "pool_ok p \<longleftrightarrow> \<not> locked p \<and> distinct (idle_objs p) \<and> set (idle_objs p) \<subseteq> all_objs p \<and>
     now_size p = card (live_objs p) \<and> card (all_objs p) < 2 ^ 64"

lemma finite_all_objs [simp]: "finite (all_objs p)"
proof -
  have "all_objs p \<subseteq> {..<length (all_memory p)} \<times> {..<Suc (Max (set (all_memory p)))}"
    by (auto simp: all_objs_def less_Suc_eq_le intro!: order_trans [OF less_imp_le Max_ge])
  then show ?thesis by (rule finite_subset) simp
qed

lemma finite_live_objs [simp]: "finite (live_objs p)"
  by (simp add: live_objs_def)

lemma live_objs_bound: "pool_ok p \<Longrightarrow> card (live_objs p) < 2 ^ 64"
  using card_mono [OF finite_all_objs, of "live_objs p" p] by (auto simp: pool_ok_def live_objs_def)

text \<open>What \<open>Allocate\<close> does on every state outside a lock.\<close>

lemma Allocate_cases:
  assumes "\<not> locked p"
  shows "Allocate p =
     (if max_size p \<noteq> size_max \<and> now_size p = max_size p then Inr (None, p)
      else if idle_objs p = [] then Inl SelfDeadlock
      else Inr (Some (last (idle_objs p)),
             p\<lparr>idle_objs := butlast (idle_objs p), now_size := (now_size p + 1) mod 2 ^ 64\<rparr>))"
  using assms by (cases p) (simp add: Allocate_def with_lock_def AllocNewBlock_def)

lemma Delete_simp:
  "\<not> locked p \<Longrightarrow> Delete x p =
     Inr ((), p\<lparr>now_size := (now_size p + 2 ^ 64 - 1) mod 2 ^ 64, idle_objs := idle_objs p @ [x]\<rparr>)"
  by (cases p) (simp add: Delete_def with_lock_def)

lemma all_objs_update [simp]:
  "all_objs (p\<lparr>idle_objs := l\<rparr>) = all_objs p" "all_objs (p\<lparr>now_size := n\<rparr>) = all_objs p"
  "all_objs (p\<lparr>max_size := n\<rparr>) = all_objs p"
  by (simp_all add: all_objs_def)

lemma pool_ok_Allocate:
  assumes "pool_ok p" "Allocate p = Inr (Some x, p')"
  shows "x \<notin> live_objs p \<and> live_objs p' = insert x (live_objs p) \<and> pool_ok p'"
proof -
  have ne: "idle_objs p \<noteq> []" and x: "x = last (idle_objs p)"
    and p': "p' = p\<lparr>idle_objs := butlast (idle_objs p), now_size := (now_size p + 1) mod 2 ^ 64\<rparr>"
    using assms Allocate_cases [of p] by (auto simp: pool_ok_def split: if_splits)
  obtain l where l: "idle_objs p = l @ [x]" using ne x by (metis append_butlast_last_id)
  have xin: "x \<in> all_objs p" "x \<notin> set l" "distinct l" "set l \<subseteq> all_objs p"
    using assms(1) by (auto simp: pool_ok_def l)
  have live: "live_objs p' = insert x (live_objs p)" "x \<notin> live_objs p"
    using xin by (auto simp: live_objs_def p' l)
  have "card (live_objs p') < 2 ^ 64"
    using assms(1) card_mono [OF finite_all_objs, of "live_objs p'" p] by (auto simp: pool_ok_def live_objs_def p')
  then have "now_size p' = card (live_objs p')"
    using assms(1) live by (simp add: p' pool_ok_def)
  then show ?thesis using assms(1) live xin by (auto simp: pool_ok_def p' l)
qed

lemma pool_ok_Delete:
  assumes "pool_ok p" "x \<in> live_objs p"
  shows "\<exists>p'. Delete x p = Inr ((), p') \<and> live_objs p' = live_objs p - {x} \<and> pool_ok p'"
proof -
  define p' where "p' = p\<lparr>now_size := (now_size p + 2 ^ 64 - 1) mod 2 ^ 64, idle_objs := idle_objs p @ [x]\<rparr>"
  have D: "Delete x p = Inr ((), p')" using assms(1) by (simp add: Delete_simp pool_ok_def p'_def)
  have live: "live_objs p' = live_objs p - {x}" by (auto simp: live_objs_def p'_def)
  have c: "0 < card (live_objs p)" "card (live_objs p) < 2 ^ 64"
    using assms live_objs_bound by (auto simp: card_gt_0_iff)
  then have "(card (live_objs p) + 2 ^ 64 - 1) mod 2 ^ 64 = card (live_objs p) - 1"
    by (metis (no_types, lifting) Nat.add_diff_assoc2 One_nat_def Suc_leI less_imp_diff_less mod_add_self2 mod_less)
  then have "now_size p' = card (live_objs p')"
    using assms by (simp add: p'_def [symmetric] live) (simp add: p'_def pool_ok_def)
  then show ?thesis
    using D live assms by (auto simp: pool_ok_def p'_def live_objs_def)
qed

interpretation socket_pool: object_source Allocate Delete live_objs pool_ok
proof
  fix p x p'
  assume "pool_ok p" "Allocate p = Inr (None, p')"
  then show "live_objs p' = live_objs p \<and> pool_ok p'"
    using Allocate_cases [of p] by (auto simp: pool_ok_def split: if_splits)
qed (use pool_ok_Allocate pool_ok_Delete in auto)

lemma ObjectPool_new_simp:
  "ObjectPool_new n = Inr \<lparr>all_memory = [n], idle_objs = map (Pair 0) [0..<n], block_size = n, locked = False,
     max_size = size_max, now_size = 0\<rparr>"
  by (simp add: ObjectPool_new_def AllocNewBlock_def with_lock_def)

lemma pool_ok_new:
  assumes "n < 2 ^ 64"
  shows "pool_ok \<lparr>all_memory = [n], idle_objs = map (Pair 0) [0..<n], block_size = n, locked = False,
     max_size = m, now_size = 0\<rparr>" (is "pool_ok ?p")
proof -
  have a: "all_objs ?p = Pair 0 ` {..<n}" by (auto simp: all_objs_def)
  then have "live_objs ?p = {}" by (auto simp: live_objs_def)
  moreover have "card (all_objs ?p) = n" unfolding a by (simp add: card_image inj_on_def)
  moreover have "distinct (map (Pair 0) [0..<n])" by (simp add: distinct_map inj_on_def)
  moreover have "set (idle_objs ?p) \<subseteq> all_objs ?p" by (auto simp: a)
  ultimately show ?thesis using assms by (simp add: pool_ok_def)
qed

section \<open>What the pool does over time\<close>

text \<open>The pools that the operations reach from a new one; only live objects are deleted.\<close>

inductive pool_reach :: "nat \<Rightarrow> pool \<Rightarrow> bool" for n where
  reach_new: "ObjectPool_new n = Inr p \<Longrightarrow> pool_reach n p"
| reach_alloc: "pool_reach n p \<Longrightarrow> Allocate p = Inr (x, p') \<Longrightarrow> pool_reach n p'"
| reach_delete: "pool_reach n p \<Longrightarrow> x \<in> live_objs p \<Longrightarrow> Delete x p = Inr (u, p') \<Longrightarrow> pool_reach n p'"
| reach_max: "pool_reach n p \<Longrightarrow> SetMaxSize m p = Inr (u, p') \<Longrightarrow> pool_reach n p'"
| reach_block: "pool_reach n p \<Longrightarrow> SetBlockSize m p = Inr (u, p') \<Longrightarrow> pool_reach n p'"

lemma pool_ok_update:
  "pool_ok p \<Longrightarrow> pool_ok (p\<lparr>max_size := m\<rparr>)" "pool_ok p \<Longrightarrow> pool_ok (p\<lparr>block_size := m\<rparr>)"
  by (simp_all add: pool_ok_def live_objs_def all_objs_def)

lemma with_lock_update: "\<not> locked p \<Longrightarrow> (\<And>q. locked q \<Longrightarrow> locked (f q)) \<Longrightarrow>
    with_lock (\<lambda>p. Inr ((), f p)) p = Inr ((), (f (p\<lparr>locked := True\<rparr>))\<lparr>locked := False\<rparr>)"
  by (simp add: with_lock_def)

lemma SetMaxSize_simp: "\<not> locked p \<Longrightarrow> SetMaxSize m p = Inr ((), p\<lparr>max_size := m\<rparr>)"
  by (cases p) (simp add: SetMaxSize_def with_lock_def)

lemma SetBlockSize_simp: "\<not> locked p \<Longrightarrow> SetBlockSize m p = Inr ((), p\<lparr>block_size := m\<rparr>)"
  by (cases p) (simp add: SetBlockSize_def with_lock_def)

lemma pool_reach_ok:
  assumes "pool_reach n p" "n < 2 ^ 64"
  shows "pool_ok p \<and> all_memory p = [n]"
  using assms
proof induction
  case (reach_new p)
  then show ?case using pool_ok_new by (auto simp: ObjectPool_new_simp)
next
  case (reach_alloc p x p')
  then have ok: "pool_ok p" "\<not> locked p" "all_memory p = [n]" by (auto simp: pool_ok_def)
  have "pool_ok p'"
    using reach_alloc(2) ok(1) socket_pool.alloc_none pool_ok_Allocate by (cases x) blast+
  moreover have "all_memory p' = [n]"
    using reach_alloc(2) ok by (auto simp: Allocate_cases split: if_splits)
  ultimately show ?case by simp
next
  case (reach_delete p x u p')
  then have ok: "pool_ok p" "\<not> locked p" "all_memory p = [n]" by (auto simp: pool_ok_def)
  obtain q where "Delete x p = Inr ((), q)" "pool_ok q"
    using pool_ok_Delete [OF ok(1) reach_delete(2)] by blast
  moreover have "all_memory q = [n]"
    using calculation(1) ok(2,3) by (auto simp: Delete_simp)
  ultimately show ?case using reach_delete(3) by simp
next
  case (reach_max p m u p')
  then have "\<not> locked p" by (simp add: pool_ok_def)
  with reach_max show ?case by (auto simp: SetMaxSize_simp pool_ok_update)
next
  case (reach_block p m u p')
  then have "\<not> locked p" by (simp add: pool_ok_def)
  with reach_block show ?case by (auto simp: SetBlockSize_simp pool_ok_update)
qed

lemma pool_live_bound:
  assumes "pool_ok p" "all_memory p = [n]"
  shows "card (live_objs p) \<le> n \<and> (idle_objs p = [] \<longleftrightarrow> card (live_objs p) = n)"
proof -
  have a: "all_objs p = Pair 0 ` {..<n}" using assms(2) by (auto simp: all_objs_def)
  have c: "card (all_objs p) = n" unfolding a by (simp add: card_image inj_on_def)
  have "card (live_objs p) = n - length (idle_objs p)"
    using assms(1) c by (simp add: live_objs_def pool_ok_def card_Diff_subset distinct_card)
  moreover have "length (idle_objs p) \<le> n"
    using assms(1) c card_mono [OF finite_all_objs, of "set (idle_objs p)" p] by (simp add: pool_ok_def distinct_card)
  ultimately have "card (live_objs p) + length (idle_objs p) = n" by simp
  then show ?thesis by (cases "idle_objs p") auto
qed

text \<open>
  C26: The pool hands out every object to one owner at a time, and it never grows: in every
  reachable state the live objects are at most those of the first block, an allocation returns an
  object that is not live, refuses (at the maximum size), or, as soon as all objects of the first
  block are live and the maximum is not reached, locks the pool's mutex a second time in the same
  thread and so never returns.
\<close>

theorem pool_deadlocks_when_full:
  assumes "pool_reach n p" "n < 2 ^ 64"
  shows "card (live_objs p) \<le> n \<and>
     (case Allocate p of
        Inr (Some x, p') \<Rightarrow> x \<notin> live_objs p \<and> live_objs p' = insert x (live_objs p)
      | Inr (None, p') \<Rightarrow> p' = p \<and> card (live_objs p) = max_size p
      | Inl e \<Rightarrow> e = SelfDeadlock \<and> card (live_objs p) = n) \<and>
     (card (live_objs p) = n \<and> (max_size p = size_max \<or> n \<noteq> max_size p) \<longrightarrow> Allocate p = Inl SelfDeadlock)"
proof -
  have ok: "pool_ok p" "all_memory p = [n]" "\<not> locked p"
    using pool_reach_ok [OF assms] by (auto simp: pool_ok_def)
  have now: "now_size p = card (live_objs p)" using ok by (simp add: pool_ok_def)
  note L = pool_live_bound [OF ok(1,2)] and A = Allocate_cases [OF ok(3)]
  show ?thesis
  proof (cases "Allocate p")
    case (Inl e)
    with L A now show ?thesis by (auto split: if_splits)
  next
    case (Inr y)
    then obtain x p' where y: "Allocate p = Inr (x, p')" by (cases y) auto
    show ?thesis
    proof (cases x)
      case None
      with y L A now show ?thesis by (auto split: if_splits)
    next
      case (Some z)
      with y have "Allocate p = Inr (Some z, p')" by simp
      from pool_ok_Allocate [OF ok(1) this] this L A now show ?thesis by (auto split: if_splits)
    qed
  qed
qed

theorem pool_deadlocks_when_full_witness:
  "\<exists>p. pool_reach 2 p \<and> Allocate p = Inl SelfDeadlock"
proof -
  define p0 where "p0 = \<lparr>all_memory = [2], idle_objs = map (Pair 0) [0..<2], block_size = 2, locked = False,
     max_size = size_max, now_size = 0\<rparr>"
  define p1 where "p1 = p0\<lparr>idle_objs := [(0, 0)], now_size := 1\<rparr>"
  define p2 where "p2 = p0\<lparr>idle_objs := [], now_size := 2\<rparr>"
  have "pool_reach 2 p0" by (rule reach_new) (simp add: ObjectPool_new_simp p0_def)
  moreover have "Allocate p0 = Inr (Some (0, 1), p1)"
    by (simp add: Allocate_cases p0_def p1_def upt_rec)
  ultimately have "pool_reach 2 p1" by (rule reach_alloc)
  moreover have "Allocate p1 = Inr (Some (0, 0), p2)"
    by (simp add: Allocate_cases p0_def p1_def p2_def)
  ultimately have p2: "pool_reach 2 p2" by (rule reach_alloc)
  have "live_objs p2 = {(0, 0), (0, 1)}"
    by (auto simp: live_objs_def all_objs_def p2_def p0_def less_Suc_eq)
  then have "card (live_objs p2) = 2" by simp
  with pool_deadlocks_when_full [OF p2] p2 show ?thesis by (auto simp: p2_def p0_def)
qed

end
