(* ===== verification/Thread_Pool.thy ===== *)
theory Thread_Pool
  imports Prelude "HOL-Library.Multiset"
begin

text \<open>
  \<^verbatim>\<open>src/include/thread/thread_pool.h\<close> and \<^verbatim>\<open>src/thread/thread_pool.cpp\<close>: the workers, the queue of
  tasks, the mutex with its condition variable and the destructor, as a step relation.  A section
  under the mutex is one step; the notification that follows \<open>Enqueue\<close>'s section, and the one that
  follows the destructor's, are steps of their own, because the mutex is free before them.  A
  worker that waits can also wake up without a notification.
\<close>

section \<open>State and sections\<close>

datatype 'j worker = W_lock | W_wait | W_run 'j | W_done

datatype dtor = D_none | D_stopped | D_join nat | D_end

record 'j tpool =
  workers :: "'j worker list"
  tasks :: "'j list"
  stop :: bool
  pending :: nat
  dtor :: dtor

definition ThreadPool_new :: "nat \<Rightarrow> 'j tpool" where
  "ThreadPool_new threads =
     \<lparr>workers = replicate threads W_lock, tasks = [], stop = False, pending = 0, dtor = D_none\<rparr>"

text \<open>
  The section of the worker's loop: wait if there is nothing to do, return if the pool is stopped
  and the queue empty, take the first task otherwise.
\<close>

definition worker_section :: "'j tpool \<Rightarrow> 'j worker \<times> 'j tpool" where
  "worker_section s =
     (if stop s \<or> tasks s \<noteq> [] then
        if stop s \<and> tasks s = [] then (W_done, s)
        else (W_run (hd (tasks s)), s\<lparr>tasks := tl (tasks s)\<rparr>)
      else (W_wait, s))"

text \<open>The section of \<open>Enqueue\<close>: it throws on a stopped pool; \<open>pending\<close> counts the notifications still to come.\<close>

definition Enqueue :: "'j \<Rightarrow> 'j tpool \<Rightarrow> 'j tpool result" where
  "Enqueue j s =
     (if stop s then Inl (RuntimeError ''enqueue on stopped ThreadPool'')
      else Inr (s\<lparr>tasks := tasks s @ [j], pending := Suc (pending s)\<rparr>))"

definition set_worker :: "nat \<Rightarrow> 'j worker \<Rightarrow> 'j tpool \<Rightarrow> 'j tpool" where
  "set_worker i v s = s\<lparr>workers := (workers s)[i := v]\<rparr>"

definition wake :: "'j worker \<Rightarrow> 'j worker" where
  "wake v = (case v of W_wait \<Rightarrow> W_lock | _ \<Rightarrow> v)"

definition wake_all :: "'j tpool \<Rightarrow> 'j tpool" where
  "wake_all s = s\<lparr>workers := map wake (workers s)\<rparr>"

section \<open>Steps\<close>

datatype 'j event = Accept 'j | Refuse 'j | Start nat 'j | Finish nat 'j | Tau

inductive tp_step :: "'j tpool \<Rightarrow> 'j event \<Rightarrow> 'j tpool \<Rightarrow> bool" where
  enqueue: "dtor s \<noteq> D_end \<Longrightarrow> Enqueue j s = Inr s' \<Longrightarrow> tp_step s (Accept j) s'"
| refuse: "dtor s \<noteq> D_end \<Longrightarrow> Enqueue j s = Inl e \<Longrightarrow> tp_step s (Refuse j) s"
| notify_one: "pending s = Suc n \<Longrightarrow> i < length (workers s) \<Longrightarrow> workers s ! i = W_wait \<Longrightarrow>
    tp_step s Tau (set_worker i W_lock (s\<lparr>pending := n\<rparr>))"
| notify_none: "pending s = Suc n \<Longrightarrow> W_wait \<notin> set (workers s) \<Longrightarrow> tp_step s Tau (s\<lparr>pending := n\<rparr>)"
| spurious: "i < length (workers s) \<Longrightarrow> workers s ! i = W_wait \<Longrightarrow> tp_step s Tau (set_worker i W_lock s)"
| take: "i < length (workers s) \<Longrightarrow> workers s ! i = W_lock \<Longrightarrow> worker_section s = (W_run j, s') \<Longrightarrow>
    tp_step s (Start i j) (set_worker i (W_run j) s')"
| idle: "i < length (workers s) \<Longrightarrow> workers s ! i = W_lock \<Longrightarrow> worker_section s = (v, s') \<Longrightarrow> v \<in> {W_wait, W_done} \<Longrightarrow>
    tp_step s Tau (set_worker i v s')"
| finish: "i < length (workers s) \<Longrightarrow> workers s ! i = W_run j \<Longrightarrow> tp_step s (Finish i j) (set_worker i W_lock s)"
| dtor_stop: "dtor s = D_none \<Longrightarrow> tp_step s Tau (s\<lparr>stop := True, dtor := D_stopped\<rparr>)"
| dtor_notify: "dtor s = D_stopped \<Longrightarrow> tp_step s Tau ((wake_all s)\<lparr>dtor := D_join 0\<rparr>)"
| dtor_join: "dtor s = D_join k \<Longrightarrow> k < length (workers s) \<Longrightarrow> workers s ! k = W_done \<Longrightarrow>
    tp_step s Tau (s\<lparr>dtor := D_join (Suc k)\<rparr>)"
| dtor_end: "dtor s = D_join k \<Longrightarrow> length (workers s) \<le> k \<Longrightarrow> tp_step s Tau (s\<lparr>dtor := D_end\<rparr>)"

text \<open>The runs of a pool of \<open>n\<close> workers with their events, the latest last.\<close>

inductive tp_run :: "nat \<Rightarrow> 'j event list \<Rightarrow> 'j tpool \<Rightarrow> bool" for n where
  start: "tp_run n [] (ThreadPool_new n)"
| more: "tp_run n es s \<Longrightarrow> tp_step s e s' \<Longrightarrow> tp_run n (es @ [e]) s'"

definition accepted :: "'j event list \<Rightarrow> 'j list" where
  "accepted es = concat (map (\<lambda>e. case e of Accept j \<Rightarrow> [j] | _ \<Rightarrow> []) es)"

definition started :: "'j event list \<Rightarrow> 'j list" where
  "started es = concat (map (\<lambda>e. case e of Start _ j \<Rightarrow> [j] | _ \<Rightarrow> []) es)"

definition finished :: "'j event list \<Rightarrow> 'j list" where
  "finished es = concat (map (\<lambda>e. case e of Finish _ j \<Rightarrow> [j] | _ \<Rightarrow> []) es)"

definition running :: "'j tpool \<Rightarrow> 'j multiset" where
  "running s = mset (concat (map (\<lambda>v. case v of W_run j \<Rightarrow> [j] | _ \<Rightarrow> []) (workers s)))"

lemma history_simps [simp]:
  "accepted [] = []" "started [] = []" "finished [] = []"
  "accepted (es @ [e]) = accepted es @ (case e of Accept j \<Rightarrow> [j] | _ \<Rightarrow> [])"
  "started (es @ [e]) = started es @ (case e of Start _ j \<Rightarrow> [j] | _ \<Rightarrow> [])"
  "finished (es @ [e]) = finished es @ (case e of Finish _ j \<Rightarrow> [j] | _ \<Rightarrow> [])"
  by (simp_all add: accepted_def started_def finished_def)

lemma set_worker_simps [simp]:
  "workers (set_worker i v s) = (workers s)[i := v]" "tasks (set_worker i v s) = tasks s"
  "stop (set_worker i v s) = stop s" "pending (set_worker i v s) = pending s" "dtor (set_worker i v s) = dtor s"
  by (simp_all add: set_worker_def)

lemma wake_all_simps [simp]:
  "workers (wake_all s) = map wake (workers s)" "tasks (wake_all s) = tasks s"
  "stop (wake_all s) = stop s" "pending (wake_all s) = pending s" "dtor (wake_all s) = dtor s"
  by (simp_all add: wake_all_def)

lemma worker_section_cases:
  "worker_section s = (W_run j, s') \<longleftrightarrow> (\<exists>ts. tasks s = j # ts \<and> s' = s\<lparr>tasks := ts\<rparr>)"
  "worker_section s = (W_wait, s') \<longleftrightarrow> tasks s = [] \<and> \<not> stop s \<and> s' = s"
  "worker_section s = (W_done, s') \<longleftrightarrow> tasks s = [] \<and> stop s \<and> s' = s"
  "worker_section s \<noteq> (W_lock, s')"
  by (cases "tasks s"; auto simp: worker_section_def)+

lemma Enqueue_cases:
  "Enqueue j s = Inr s' \<longleftrightarrow> \<not> stop s \<and> s' = s\<lparr>tasks := tasks s @ [j], pending := Suc (pending s)\<rparr>"
  "Enqueue j s = Inl e \<longleftrightarrow> stop s \<and> e = RuntimeError ''enqueue on stopped ThreadPool''"
  by (auto simp: Enqueue_def)

section \<open>Invariants\<close>

lemma concat_map_update:
  assumes "i < length xs"
  shows "mset (concat (map f (xs[i := v]))) + mset (f (xs ! i)) = mset (concat (map f xs)) + mset (f v)"
  using assms
proof (induction xs arbitrary: i)
  case (Cons x xs)
  then show ?case by (cases i) (auto simp: algebra_simps)
qed simp

lemma running_set_worker:
  "i < length (workers s) \<Longrightarrow>
     running (set_worker i v s) + mset (case workers s ! i of W_run j \<Rightarrow> [j] | _ \<Rightarrow> []) =
     running s + mset (case v of W_run j \<Rightarrow> [j] | _ \<Rightarrow> [])"
  unfolding running_def set_worker_simps by (rule concat_map_update)

lemma running_update [simp]:
  "running (s\<lparr>tasks := t\<rparr>) = running s" "running (s\<lparr>pending := m\<rparr>) = running s"
  "running (s\<lparr>stop := b\<rparr>) = running s" "running (s\<lparr>dtor := d\<rparr>) = running s"
  by (simp_all add: running_def)

lemma running_wake_all [simp]: "running (wake_all s) = running s"
proof -
  have "(case wake v of W_run j \<Rightarrow> [j] | _ \<Rightarrow> []) = (case v of W_run j \<Rightarrow> [j] | _ \<Rightarrow> [])" for v :: "'a worker"
    by (simp add: wake_def split: worker.split)
  then show ?thesis by (simp add: running_def wake_all_def comp_def)
qed

lemma running_new: "running (ThreadPool_new n) = {#}"
proof -
  have "concat (map f (replicate n x)) = []" if "f x = []" for f :: "'a worker \<Rightarrow> 'a list" and x
    using that by (induction n) auto
  then show ?thesis by (simp add: running_def ThreadPool_new_def)
qed

lemma run_history:
  "tp_run n es s \<Longrightarrow> accepted es = started es @ tasks s \<and> mset (started es) = running s + mset (finished es) \<and>
     length (workers s) = n"
proof (induction rule: tp_run.induct)
  case start
  show ?case by (simp add: running_new) (simp add: ThreadPool_new_def)
next
  case (more es s e s')
  from more(2) show ?case
  proof cases
    case (take i j s1)
    then show ?thesis
      using more.IH running_set_worker [of i s1 "W_run j"] by (auto simp: worker_section_cases)
  next
    case (idle i v s1)
    then show ?thesis
      using more.IH running_set_worker [of i s1 v] by (auto simp: worker_section_cases)
  next
    case (finish i j)
    then show ?thesis
      using more.IH running_set_worker [of i s W_lock] by auto
  next
    case (notify_one m i)
    then show ?thesis
      using more.IH running_set_worker [of i "s\<lparr>pending := m\<rparr>" W_lock] by auto
  next
    case (spurious i)
    then show ?thesis
      using more.IH running_set_worker [of i s W_lock] by auto
  qed (use more.IH in \<open>auto simp: Enqueue_cases\<close>)
qed

text \<open>
  The invariant of the shutdown and of the notifications: the destructor's progress agrees with
  the stop flag, a worker has returned only on a stopped pool with an empty queue, the joined
  workers have returned, after \<open>notify_all\<close> none waits, and while tasks are queued and every worker
  waits (or has returned), a notification is still to come.
\<close>

definition tp_inv :: "'j tpool \<Rightarrow> bool" where
  "tp_inv s \<longleftrightarrow>
     (stop s \<longleftrightarrow> dtor s \<noteq> D_none) \<and>
     (W_done \<in> set (workers s) \<longrightarrow> stop s \<and> tasks s = []) \<and>
     (\<forall>k. dtor s = D_join k \<longrightarrow> (\<forall>i<k. i < length (workers s) \<longrightarrow> workers s ! i = W_done)) \<and>
     (dtor s = D_end \<longrightarrow> set (workers s) \<subseteq> {W_done}) \<and>
     (dtor s = D_end \<or> (\<exists>k. dtor s = D_join k) \<longrightarrow> W_wait \<notin> set (workers s)) \<and>
     (tasks s \<noteq> [] \<and> workers s \<noteq> [] \<and> pending s = 0 \<and> dtor s = D_none \<longrightarrow> (\<exists>v \<in> set (workers s). v \<noteq> W_wait))"

lemma tp_inv_new: "tp_inv (ThreadPool_new n)"
  by (auto simp: tp_inv_def ThreadPool_new_def)

lemma in_set_update: "x \<in> set (xs[i := v]) \<Longrightarrow> x = v \<or> x \<in> set xs"
  using set_update_subset_insert by fastforce

lemma wake_simps [simp]: "wake v \<noteq> W_wait" "wake v = W_done \<longleftrightarrow> v = W_done"
  by (simp_all add: wake_def split: worker.split)

lemma wake_image [simp]: "W_wait \<notin> wake ` X" "W_done \<in> wake ` X \<longleftrightarrow> W_done \<in> X"
  by (metis imageE wake_simps(1)) (metis image_iff wake_simps(2))

lemma tp_inv_set_worker:
  assumes "tp_inv s" "i < length (workers s)" "workers s ! i \<noteq> W_done"
    and "v \<in> {W_lock} \<union> range W_run"
  shows "tp_inv (set_worker i v s)"
  unfolding tp_inv_def
proof (intro conjI)
  have v: "v \<noteq> W_wait" "v \<noteq> W_done" using assms(4) by auto
  note inv = assms(1) [unfolded tp_inv_def]
  have w: "workers s ! i \<in> set (workers s)" using assms(2) by simp
  show "stop (set_worker i v s) = (dtor (set_worker i v s) \<noteq> D_none)" using inv by simp
  show "W_done \<in> set (workers (set_worker i v s)) \<longrightarrow> stop (set_worker i v s) \<and> tasks (set_worker i v s) = []"
    using inv v in_set_update [of W_done "workers s" i v] by auto
  show "\<forall>k. dtor (set_worker i v s) = D_join k \<longrightarrow>
      (\<forall>ia<k. ia < length (workers (set_worker i v s)) \<longrightarrow> workers (set_worker i v s) ! ia = W_done)"
  proof (intro allI impI)
    fix k ia
    assume "dtor (set_worker i v s) = D_join k" "ia < k" "ia < length (workers (set_worker i v s))"
    then have d: "workers s ! ia = W_done" using inv by simp
    with assms(3) show "workers (set_worker i v s) ! ia = W_done" by (cases "ia = i") auto
  qed
  show "dtor (set_worker i v s) = D_end \<longrightarrow> set (workers (set_worker i v s)) \<subseteq> {W_done}"
    using inv assms(3) w by (metis set_worker_simps(5) singletonD subsetD)
  show "dtor (set_worker i v s) = D_end \<or> (\<exists>k. dtor (set_worker i v s) = D_join k) \<longrightarrow> W_wait \<notin> set (workers (set_worker i v s))"
    using inv v in_set_update [of W_wait "workers s" i v] by auto
  show "tasks (set_worker i v s) \<noteq> [] \<and> workers (set_worker i v s) \<noteq> [] \<and> pending (set_worker i v s) = 0 \<and>
      dtor (set_worker i v s) = D_none \<longrightarrow> (\<exists>v\<in>set (workers (set_worker i v s)). v \<noteq> W_wait)"
    using v(1) set_update_memI [OF assms(2), of v] unfolding set_worker_simps by blast
qed

lemma tp_inv_step:
  assumes "tp_step s e s'" "tp_inv s"
  shows "tp_inv s'"
  using assms(1)
proof cases
  case (enqueue j)
  then show ?thesis using assms(2) by (auto simp: tp_inv_def Enqueue_cases)
next
  case (notify_one n i)
  have "tp_inv (set_worker i W_lock s)"
    using assms(2) notify_one by (intro tp_inv_set_worker) auto
  moreover have "\<exists>v \<in> set ((workers s)[i := W_lock]). v \<noteq> W_wait"
    using notify_one set_update_memI [of i "workers s" W_lock] by blast
  ultimately show ?thesis using notify_one by (auto simp: tp_inv_def set_worker_def)
next
  case (notify_none n)
  then show ?thesis using assms(2) by (cases "workers s") (auto simp: tp_inv_def)
next
  case (spurious i)
  then show ?thesis using assms(2) by (auto intro: tp_inv_set_worker)
next
  case (take i j s1)
  then obtain ts where ts: "tasks s = j # ts" "s1 = s\<lparr>tasks := ts\<rparr>" by (auto simp: worker_section_cases)
  have nd: "W_done \<notin> set (workers s)" using assms(2) ts by (auto simp: tp_inv_def)
  have "\<exists>v \<in> set (workers s). v \<noteq> W_wait" using take by (metis nth_mem worker.distinct(1))
  then have "tp_inv s1" using assms(2) ts nd by (auto simp: tp_inv_def)
  moreover have "s' = set_worker i (W_run j) s1" "i < length (workers s1)" "workers s1 ! i \<noteq> W_done"
    using take ts by simp_all
  ultimately show ?thesis by (auto intro: tp_inv_set_worker)
next
  case (idle i v s1)
  then consider (w) "v = W_wait" "tasks s = []" "\<not> stop s" "s1 = s" | (d) "v = W_done" "tasks s = []" "stop s" "s1 = s"
    by (auto simp: worker_section_cases)
  then show ?thesis
  proof cases
    case w
    then show ?thesis using assms(2) idle by (auto simp: tp_inv_def dest!: in_set_update)
  next
    case d
    have "dtor s \<noteq> D_end" using assms(2) idle by (auto simp: tp_inv_def dest!: nth_mem)
    with d show ?thesis
      using assms(2) idle by (auto simp: tp_inv_def nth_list_update dest!: in_set_update)
  qed
next
  case (finish i j)
  then show ?thesis using assms(2) by (auto intro: tp_inv_set_worker)
next
  case dtor_stop
  then show ?thesis using assms(2) by (auto simp: tp_inv_def)
next
  case dtor_notify
  then show ?thesis using assms(2) by (auto simp: tp_inv_def)
next
  case (dtor_join k)
  then show ?thesis using assms(2) by (auto simp: tp_inv_def less_Suc_eq)
next
  case (dtor_end k)
  have "set (workers s) \<subseteq> {W_done}"
    using assms(2) dtor_end by (auto simp: tp_inv_def in_set_conv_nth)
  then show ?thesis using assms(2) dtor_end by (auto simp: tp_inv_def)
qed (use assms(2) in simp)

lemma tp_run_inv: "tp_run n es s \<Longrightarrow> tp_inv s"
  by (induction rule: tp_run.induct) (auto intro: tp_inv_new tp_inv_step)

section \<open>The contract of the pool\<close>

lemmas tp_step_intros = tp_step.intros

inductive_cases tp_acceptE: "tp_step s (Accept j) s'"
inductive_cases tp_startE: "tp_step s (Start i j) s'"

text \<open>
  C16: The queue is first in, first out, and every task runs at most once: in every run of the pool
  the accepted tasks are, in order, those that were started followed by those still queued, and
  the started ones are those running now together with those that finished.
\<close>

theorem thread_pool_fifo:
  assumes "tp_run n es s"
  shows "accepted es = started es @ tasks s \<and> mset (started es) = running s + mset (finished es)"
  using run_history [OF assms] by simp

theorem thread_pool_fifo_witness:
  "\<exists>s. tp_run 1 [Accept ''a'', Accept ''b'', Start 0 ''a''] s \<and> tasks s = [''b'']"
proof -
  define s1 where "s1 = \<lparr>workers = [W_lock], tasks = [''a''], stop = False, pending = 1, dtor = D_none\<rparr>"
  define s2 where "s2 = \<lparr>workers = [W_lock], tasks = [''a'', ''b''], stop = False, pending = 2, dtor = D_none\<rparr>"
  define s3 where "s3 = \<lparr>workers = [W_run ''a''], tasks = [''b''], stop = False, pending = 2, dtor = D_none\<rparr>"
  have "tp_run 1 [] (ThreadPool_new 1)" by (rule tp_run.start)
  moreover have "tp_step (ThreadPool_new 1) (Accept ''a'') s1"
    by (rule enqueue) (simp_all add: ThreadPool_new_def Enqueue_def s1_def)
  ultimately have "tp_run 1 [Accept ''a''] s1" using tp_run.more by fastforce
  moreover have "tp_step s1 (Accept ''b'') s2"
    by (rule enqueue) (simp_all add: Enqueue_def s1_def s2_def)
  ultimately have "tp_run 1 [Accept ''a'', Accept ''b''] s2" using tp_run.more by fastforce
  moreover have "tp_step s2 (Start 0 ''a'') s3"
  proof -
    have "worker_section s2 = (W_run ''a'', s2\<lparr>tasks := [''b'']\<rparr>)" by (simp add: worker_section_def s2_def)
    from take [OF _ _ this, of 0] show ?thesis by (simp add: s2_def s3_def set_worker_def)
  qed
  ultimately have run: "tp_run 1 [Accept ''a'', Accept ''b'', Start 0 ''a''] s3" using tp_run.more by fastforce
  moreover have "tasks s3 = [''b'']"
    using thread_pool_fifo [OF run] by (simp add: accepted_def started_def)
  ultimately show ?thesis by blast
qed

text \<open>
  C24: No wake-up is lost: whenever a task is queued and the pool has workers, one of them is awake
  and will look at the queue, or a notification for a waiting one (the one of the accepted task or
  the destructor's) is still to come.
\<close>

theorem thread_pool_no_lost_wakeup:
  assumes "tp_run n es s" "0 < n" "tasks s \<noteq> []"
  shows "(\<exists>v \<in> set (workers s). v \<notin> {W_wait, W_done}) \<or> 0 < pending s \<or> dtor s = D_stopped"
proof (rule ccontr)
  assume c: "\<not> ?thesis"
  have inv: "tp_inv s" and ne: "workers s \<noteq> []"
    using tp_run_inv [OF assms(1)] run_history [OF assms(1)] assms(2) by auto
  then have nd: "W_done \<notin> set (workers s)" using assms(3) by (simp add: tp_inv_def)
  then have all: "set (workers s) \<subseteq> {W_wait}" using c by auto
  then have "W_wait \<in> set (workers s)" using ne by (cases "workers s") auto
  then have "dtor s = D_none" using inv c ne nd by (cases "dtor s") (auto simp: tp_inv_def)
  then show False using inv c ne all assms(3) by (auto simp: tp_inv_def)
qed

theorem thread_pool_no_lost_wakeup_witness:
  "\<exists>s. tp_run 1 [Tau, Accept ''a''] s \<and> workers s = [W_wait] \<and> 0 < pending s"
proof -
  define s1 :: "string tpool" where "s1 = \<lparr>workers = [W_wait], tasks = [], stop = False, pending = 0, dtor = D_none\<rparr>"
  define s2 where "s2 = \<lparr>workers = [W_wait], tasks = [''a''], stop = False, pending = 1, dtor = D_none\<rparr>"
  have "tp_run 1 [] (ThreadPool_new 1)" by (rule tp_run.start)
  moreover have "tp_step (ThreadPool_new 1) Tau s1"
  proof -
    have "worker_section (ThreadPool_new 1) = (W_wait, ThreadPool_new 1)"
      by (simp add: worker_section_def ThreadPool_new_def)
    from idle [OF _ _ this, of 0] show ?thesis by (simp add: ThreadPool_new_def s1_def set_worker_def)
  qed
  ultimately have "tp_run 1 [Tau] s1" using tp_run.more by fastforce
  moreover have "tp_step s1 (Accept ''a'') s2"
    by (rule enqueue) (simp_all add: Enqueue_def s1_def s2_def)
  ultimately have run: "tp_run 1 [Tau, Accept ''a''] s2" using tp_run.more by fastforce
  moreover have "workers s2 = [W_wait]" by (simp add: s2_def)
  moreover have "0 < pending s2"
    using thread_pool_no_lost_wakeup [OF run] by (simp add: s2_def)
  ultimately show ?thesis by blast
qed

section \<open>Shutting down\<close>

definition weight :: "'j worker \<Rightarrow> nat" where
  "weight v = (case v of W_lock \<Rightarrow> 1 | W_run _ \<Rightarrow> 2 | _ \<Rightarrow> 0)"

definition work :: "'j tpool \<Rightarrow> nat" where
  "work s = 3 * length (tasks s) + sum_list (map weight (workers s)) + pending s +
     (case dtor s of D_join k \<Rightarrow> Suc (length (workers s) - k) | _ \<Rightarrow> 0)"

lemma sum_weight_update:
  "i < length ws \<Longrightarrow> sum_list (map weight (ws[i := v])) + weight (ws ! i) = sum_list (map weight ws) + weight v"
proof (induction ws arbitrary: i)
  case (Cons w ws)
  then show ?case by (cases i) auto
qed simp

lemma work_decreases:
  assumes "tp_step s e s'" "tp_inv s" "dtor s = D_join k"
  shows "(\<exists>j. e = Refuse j) \<or> work s' < work s"
  using assms(1)
proof cases
  case (take i j s1)
  then show ?thesis
    using sum_weight_update [of i "workers s" "W_run j"] assms(3)
    by (auto simp: worker_section_cases work_def weight_def)
next
  case (idle i v s1)
  then have "v = W_done" "s1 = s" using assms(2,3) by (auto simp: worker_section_cases tp_inv_def)
  with idle show ?thesis
    using sum_weight_update [of i "workers s" v] assms(3) by (auto simp: work_def weight_def)
next
  case (finish i j)
  then show ?thesis
    using sum_weight_update [of i "workers s" W_lock] assms(3) by (auto simp: work_def weight_def)
next
  case (notify_one m i)
  then have "W_wait \<in> set (workers s)" by (metis nth_mem)
  with assms(2,3) show ?thesis by (simp add: tp_inv_def)
next
  case (spurious i)
  then have "W_wait \<in> set (workers s)" by (metis nth_mem)
  with assms(2,3) show ?thesis by (simp add: tp_inv_def)
qed (use assms(2,3) in \<open>auto simp: work_def tp_inv_def Enqueue_cases\<close>)

lemma shutdown_not_stuck:
  assumes "tp_inv s" "dtor s = D_join k"
  shows "\<exists>e s'. tp_step s e s' \<and> (\<forall>j. e \<noteq> Refuse j)"
proof (cases "k < length (workers s)")
  case False
  then show ?thesis using dtor_end [OF assms(2)] by force
next
  case True
  then have "workers s ! k \<in> set (workers s)" by simp
  then have nw: "workers s ! k \<noteq> W_wait" using assms by (auto simp: tp_inv_def)
  show ?thesis
  proof (cases "workers s ! k")
    case W_lock
    obtain v s1 where v: "worker_section s = (v, s1)" by force
    then have "v \<noteq> W_lock" using worker_section_cases(4) by metis
    then show ?thesis using take [OF True W_lock] idle [OF True W_lock v] v by (cases v) fastforce+
  next
    case (W_run j)
    then show ?thesis using finish [OF True] by force
  next
    case W_done
    then show ?thesis using dtor_join [OF assms(2) True] by force
  qed (use nw in simp)
qed

text \<open>
  C17: The destructor waits for everything and ends.  No task is accepted once it has begun; from the
  moment it starts joining, every step of the pool other than refusing a task brings it closer to
  the end and one such step is always possible, so it ends if the tasks do; and when it has ended,
  in a pool with workers, the queue is empty and every accepted task has been run to its end.
\<close>

theorem thread_pool_shutdown:
  assumes "tp_run n es s"
  shows "(\<forall>j s'. tp_step s (Accept j) s' \<longrightarrow> dtor s = D_none) \<and>
     (\<forall>k. dtor s = D_join k \<longrightarrow>
        (\<forall>e s'. tp_step s e s' \<longrightarrow> (\<exists>j. e = Refuse j) \<or> work s' < work s) \<and>
        (\<exists>e s'. tp_step s e s' \<and> (\<forall>j. e \<noteq> Refuse j))) \<and>
     (dtor s = D_end \<and> 0 < n \<longrightarrow> tasks s = [] \<and> mset (accepted es) = mset (finished es))"
proof (intro conjI allI impI)
  have inv: "tp_inv s" using assms by (rule tp_run_inv)
  note hist = run_history [OF assms]
  show "dtor s = D_none" if "tp_step s (Accept j) s'" for j s'
    using that inv by (elim tp_acceptE) (simp add: Enqueue_cases tp_inv_def)
  show "(\<exists>j. e = Refuse j) \<or> work s' < work s" if "dtor s = D_join k" "tp_step s e s'" for k e s'
    using work_decreases [OF that(2) inv that(1)] .
  show "\<exists>e s'. tp_step s e s' \<and> (\<forall>j. e \<noteq> Refuse j)" if "dtor s = D_join k" for k
    using shutdown_not_stuck [OF inv that] .
  show "tasks s = []" if "dtor s = D_end \<and> 0 < n"
  proof -
    have "set (workers s) \<subseteq> {W_done}" "workers s \<noteq> []" using inv hist that by (auto simp: tp_inv_def)
    then have "W_done \<in> set (workers s)" by (cases "workers s") auto
    then show ?thesis using inv by (simp add: tp_inv_def)
  qed
  moreover have "running s = {#}" if "dtor s = D_end"
  proof -
    have "set (workers s) \<subseteq> {W_done}" using inv that by (simp add: tp_inv_def)
    then show ?thesis by (auto simp: running_def subset_iff)
  qed
  ultimately show "mset (accepted es) = mset (finished es)" if "dtor s = D_end \<and> 0 < n"
    using hist that by simp
qed

theorem thread_pool_shutdown_witness:
  "\<exists>es s. tp_run 1 es (s :: string tpool) \<and> dtor s = D_end \<and> tasks s = []"
proof -
  define a :: "string tpool" where "a = \<lparr>workers = [W_lock], tasks = [], stop = True, pending = 0, dtor = D_stopped\<rparr>"
  define b where "b = a\<lparr>dtor := D_join 0\<rparr>"
  define c where "c = b\<lparr>workers := [W_done]\<rparr>"
  define d where "d = c\<lparr>dtor := D_join 1\<rparr>"
  define e where "e = d\<lparr>dtor := D_end\<rparr>"
  have "tp_run 1 [] (ThreadPool_new 1 :: string tpool)" by (rule tp_run.start)
  moreover have "tp_step (ThreadPool_new 1) Tau a"
    using dtor_stop [of "ThreadPool_new 1 :: string tpool"] by (simp add: ThreadPool_new_def a_def)
  ultimately have "tp_run 1 [Tau] a" using tp_run.more by fastforce
  moreover have "tp_step a Tau b"
    using dtor_notify [of a] by (simp add: a_def b_def wake_all_def wake_def)
  ultimately have "tp_run 1 [Tau, Tau] b" using tp_run.more by fastforce
  moreover have "tp_step b Tau c"
  proof -
    have "worker_section b = (W_done, b)" by (simp add: worker_section_def b_def a_def)
    from idle [OF _ _ this, of 0] show ?thesis by (simp add: a_def b_def c_def set_worker_def)
  qed
  ultimately have "tp_run 1 [Tau, Tau, Tau] c" using tp_run.more by fastforce
  moreover have "tp_step c Tau d"
    using dtor_join [of c 0] by (simp add: a_def b_def c_def d_def)
  ultimately have "tp_run 1 [Tau, Tau, Tau, Tau] d" using tp_run.more by fastforce
  moreover have "tp_step d Tau e"
    using dtor_end [of d 1] by (simp add: a_def b_def c_def d_def e_def)
  ultimately have run: "tp_run 1 [Tau, Tau, Tau, Tau, Tau] e" using tp_run.more by fastforce
  have "dtor e = D_end" by (simp add: e_def)
  with thread_pool_shutdown [OF run] run show ?thesis by auto
qed

end
