(* ===== verification/Event_Loop.thy ===== *)
theory Event_Loop
  imports Socket Object_Pool Thread_Pool
begin

text \<open>
  \<^verbatim>\<open>src/socket/event_poller.cpp\<close> and \<^verbatim>\<open>src/socket/socket_handler.cpp\<close>: the wrapper around epoll
  and the loop that accepts connections, hands readable sockets to the thread pool and drops the
  closed ones.  The epoll calls are parameters like the other system calls; a socket object is an
  address of the object pool.
\<close>

section \<open>Event_Poller\<close>

datatype ptr = Server_ptr | Sock addr

record epoll_event =
  ev_events :: u32
  ev_ptr :: ptr

datatype epoll_op = EPOLL_CTL_ADD | EPOLL_CTL_MOD | EPOLL_CTL_DEL

record 'k epoll_sys =
  sys_epoll_create :: "int \<Rightarrow> 'k \<Rightarrow> int \<times> 'k"
  sys_epoll_ctl :: "int \<Rightarrow> epoll_op \<Rightarrow> int \<Rightarrow> epoll_event \<Rightarrow> 'k \<Rightarrow> int \<times> 'k"
  sys_epoll_wait :: "int \<Rightarrow> int \<Rightarrow> int \<Rightarrow> 'k \<Rightarrow> epoll_event list option \<times> 'k"

definition EPOLLIN :: u32 where "EPOLLIN = 0x001"
definition EPOLLERR :: u32 where "EPOLLERR = 0x008"
definition EPOLLHUP :: u32 where "EPOLLHUP = 0x010"
definition EPOLLONESHOT :: u32 where "EPOLLONESHOT = 0x40000000"
definition EPOLLET :: u32 where "EPOLLET = 0x80000000"

text \<open>\<open>m_events\<close> is the array the last wait filled, \<open>None\<close> for the null pointer.\<close>

record poller =
  m_epfd :: int
  m_max_connections :: int
  m_events :: "epoll_event list option"
  m_et :: bool

definition EventPoller_new :: "bool \<Rightarrow> poller" where
  "EventPoller_new et = \<lparr>m_epfd = 0, m_max_connections = 0, m_events = None, m_et = et\<rparr>"

definition EventPoller_destroy :: "'k sys \<Rightarrow> poller \<Rightarrow> 'k world \<Rightarrow> 'k world" where
  "EventPoller_destroy os p w =
     (if m_epfd p > 0 then w\<lparr>kern := sys_close os (m_epfd p) (kern w)\<rparr> else w)"

definition EventPoller_create :: "'k epoll_sys \<Rightarrow> int \<Rightarrow> poller \<Rightarrow> 'k world \<Rightarrow> poller \<times> 'k world" where
  "EventPoller_create ep n p w =
     (let (fd, k) = sys_epoll_create ep (n + 1) (kern w);
          p = p\<lparr>m_max_connections := n, m_epfd := fd\<rparr>;
          w = w\<lparr>kern := k\<rparr> in
      if fd < 0 then (p, w) else (p\<lparr>m_events := Some []\<rparr>, w))"

text \<open>The result of \<open>epoll_ctl\<close> is dropped.\<close>

definition ctrl :: "'k epoll_sys \<Rightarrow> poller \<Rightarrow> int \<Rightarrow> ptr \<Rightarrow> u32 \<Rightarrow> epoll_op \<Rightarrow> 'k world \<Rightarrow> 'k world" where
  "ctrl ep p fd pt events op w =
     w\<lparr>kern := snd (sys_epoll_ctl ep (m_epfd p) op fd
        \<lparr>ev_events = (if m_et p then events OR EPOLLET else events), ev_ptr = pt\<rparr> (kern w))\<rparr>"

definition EventPoller_add :: "'k epoll_sys \<Rightarrow> poller \<Rightarrow> int \<Rightarrow> ptr \<Rightarrow> u32 \<Rightarrow> 'k world \<Rightarrow> 'k world" where
  "EventPoller_add ep p fd pt events = ctrl ep p fd pt events EPOLL_CTL_ADD"

definition EventPoller_mod :: "'k epoll_sys \<Rightarrow> poller \<Rightarrow> int \<Rightarrow> ptr \<Rightarrow> u32 \<Rightarrow> 'k world \<Rightarrow> 'k world" where
  "EventPoller_mod ep p fd pt events = ctrl ep p fd pt events EPOLL_CTL_MOD"

definition EventPoller_del :: "'k epoll_sys \<Rightarrow> poller \<Rightarrow> int \<Rightarrow> ptr \<Rightarrow> u32 \<Rightarrow> 'k world \<Rightarrow> 'k world" where
  "EventPoller_del ep p fd pt events = ctrl ep p fd pt events EPOLL_CTL_DEL"

text \<open>\<open>wait\<close> returns the number of events written to the array, or \<open>-1\<close>.\<close>

definition EventPoller_wait :: "'k epoll_sys \<Rightarrow> int \<Rightarrow> poller \<Rightarrow> 'k world \<Rightarrow> (int \<times> poller) \<times> 'k world" where
  "EventPoller_wait ep ms p w =
     (let (r, k) = sys_epoll_wait ep (m_epfd p) (m_max_connections p + 1) ms (kern w);
          w = w\<lparr>kern := k\<rparr> in
      case r of None \<Rightarrow> ((-1, p), w)
      | Some evs \<Rightarrow> ((int (length evs), p\<lparr>m_events := Some evs\<rparr>), w))"

section \<open>Socket_Handler\<close>

record 'k loop =
  is_open :: bool
  m_epoll :: "poller option"
  m_server :: "socket option"
  object_pool :: pool
  sockets :: "addr \<Rightarrow> socket"
  thread_pool :: "addr tpool"
  lp_world :: "'k world"

definition SocketHandler_new :: "pool \<Rightarrow> addr tpool \<Rightarrow> 'k world \<Rightarrow> 'k loop" where
  "SocketHandler_new p tp w = \<lparr>is_open = True, m_epoll = None, m_server = None, object_pool = p,
     sockets = (\<lambda>_. Socket_default), thread_pool = tp, lp_world = w\<rparr>"

text \<open>A call through a pointer that may be null.\<close>

definition deref :: "'a option \<Rightarrow> 'a result" where
  "deref x = (case x of None \<Rightarrow> Inl NullDeref | Some v \<Rightarrow> Inr v)"

definition SocketHandler_listen :: "'k sys \<Rightarrow> string \<Rightarrow> int \<Rightarrow> 'k loop \<Rightarrow> 'k loop" where
  "SocketHandler_listen os ip port s =
     (let (sk, w) = ServerSocket_new os ip port (lp_world s) in s\<lparr>m_server := Some sk, lp_world := w\<rparr>)"

definition sock_events :: u32 where
  "sock_events = EPOLLONESHOT OR EPOLLIN OR EPOLLHUP OR EPOLLERR"

definition attach :: "'k epoll_sys \<Rightarrow> addr \<Rightarrow> 'k loop \<Rightarrow> 'k loop result" where
  "attach ep a s = res_bind (deref (m_epoll s)) (\<lambda>p.
     Inr (s\<lparr>lp_world := EventPoller_add ep p (m_sockfd (sockets s a)) (Sock a) sock_events (lp_world s)\<rparr>))"

definition detach :: "'k epoll_sys \<Rightarrow> addr \<Rightarrow> 'k loop \<Rightarrow> 'k loop result" where
  "detach ep a s = res_bind (deref (m_epoll s)) (\<lambda>p.
     Inr (s\<lparr>lp_world := EventPoller_del ep p (m_sockfd (sockets s a)) (Sock a) sock_events (lp_world s)\<rparr>))"

text \<open>\<open>remove\<close> closes the socket; the destructor inside \<open>Delete\<close> finds it closed.\<close>

definition remove :: "'k sys \<Rightarrow> addr \<Rightarrow> 'k loop \<Rightarrow> 'k loop result" where
  "remove os a s =
     (let ((_, sk), w) = Socket_close os (sockets s a) (lp_world s) in
      res_bind (Delete a (object_pool s)) (\<lambda>(_, p).
      Inr (s\<lparr>sockets := (sockets s)(a := sk), object_pool := p, lp_world := Socket_destroy os sk w\<rparr>)))"

text \<open>The part of \<open>handle\<close> before its loop.\<close>

definition handle_start :: "'k epoll_sys \<Rightarrow> int \<Rightarrow> 'k loop \<Rightarrow> 'k loop result" where
  "handle_start ep max_connections s =
     (let (p, w) = EventPoller_create ep max_connections (EventPoller_new False) (lp_world s);
          s = s\<lparr>is_open := True, m_epoll := Some p, lp_world := w\<rparr> in
      res_bind (deref (m_server s)) (\<lambda>sv.
      let s = s\<lparr>lp_world := EventPoller_add ep p (m_sockfd sv) Server_ptr (EPOLLIN OR EPOLLHUP OR EPOLLERR) (lp_world s)\<rparr> in
      res_bind (SetMaxSize (nat (max_connections mod 2 ^ 64)) (object_pool s)) (\<lambda>(_, op).
      Inr (s\<lparr>object_pool := op\<rparr>))))"

text \<open>
  The branch of a new connection: whether the loop over the events goes on, and the state.  The
  descriptor is taken before the object, and its failure is not looked at.
\<close>

definition on_accept :: "'k sys \<Rightarrow> 'k epoll_sys \<Rightarrow> 'k loop \<Rightarrow> (bool \<times> 'k loop) result" where
  "on_accept os ep s =
     res_bind (deref (m_server s)) (\<lambda>sv.
     let ((fd, address), w) = Socket_accept os sv (lp_world s); s = s\<lparr>lp_world := w\<rparr> in
     res_bind (Allocate (object_pool s)) (\<lambda>(x, p).
     let s = s\<lparr>object_pool := p\<rparr> in
     case x of
       None \<Rightarrow> Inr (False, s\<lparr>lp_world := ERROR ''socket pool is empty'' (lp_world s)\<rparr>)
     | Some a \<Rightarrow>
         (let sk = Socket_default\<lparr>m_sockfd := fd, m_ip := sys_inet_ntoa os address\<rparr>;
              w = snd (set_non_blocking os sk (lp_world s));
              s = s\<lparr>sockets := (sockets s)(a := sk), lp_world := w\<rparr>
          in res_map (Pair True) (attach ep a s))))"

definition drop_socket :: "'k sys \<Rightarrow> 'k epoll_sys \<Rightarrow> string \<Rightarrow> addr \<Rightarrow> 'k loop \<Rightarrow> 'k loop result" where
  "drop_socket os ep msg a s =
     (let s = s\<lparr>lp_world := ERROR (msg @ dec_int (m_sockfd (sockets s a))) (lp_world s)\<rparr>
      in res_bind (detach ep a s) (remove os a))"

definition on_socket :: "'k sys \<Rightarrow> 'k epoll_sys \<Rightarrow> u32 \<Rightarrow> addr \<Rightarrow> 'k loop \<Rightarrow> 'k loop result" where
  "on_socket os ep events a s =
     (if events AND EPOLLHUP \<noteq> 0 then drop_socket os ep ''socket closed by peer id :'' a s
      else if events AND EPOLLERR \<noteq> 0 then drop_socket os ep ''socket error id :'' a s
      else if events AND EPOLLIN \<noteq> 0 then
        res_bind (detach ep a s) (\<lambda>s.
        res_bind (Enqueue a (thread_pool s)) (\<lambda>tp. Inr (s\<lparr>thread_pool := tp\<rparr>)))
      else Inr s)"

definition on_event :: "'k sys \<Rightarrow> 'k epoll_sys \<Rightarrow> epoll_event \<Rightarrow> 'k loop \<Rightarrow> (bool \<times> 'k loop) result" where
  "on_event os ep e s =
     (case ev_ptr e of
        Server_ptr \<Rightarrow> on_accept os ep s
      | Sock a \<Rightarrow> res_map (Pair True) (on_socket os ep (ev_events e) a s))"

fun on_events :: "'k sys \<Rightarrow> 'k epoll_sys \<Rightarrow> epoll_event list \<Rightarrow> 'k loop \<Rightarrow> 'k loop result" where
  "on_events os ep [] s = Inr s"
| "on_events os ep (e # es) s =
     res_bind (on_event os ep e s) (\<lambda>(go, s). if go then on_events os ep es s else Inr s)"

text \<open>One turn of the loop.\<close>

definition handle_turn :: "'k sys \<Rightarrow> 'k epoll_sys \<Rightarrow> int \<Rightarrow> 'k loop \<Rightarrow> 'k loop result" where
  "handle_turn os ep wait_time s =
     res_bind (deref (m_epoll s)) (\<lambda>p.
     let ((num, p), w) = EventPoller_wait ep wait_time p (lp_world s);
         s = s\<lparr>m_epoll := Some p, lp_world := w\<rparr> in
     if num \<le> 0 then Inr s
     else res_bind (deref (m_events p)) (\<lambda>evs. on_events os ep (take (nat num) evs) s))"

partial_function (option) handle_loop :: "'k sys \<Rightarrow> 'k epoll_sys \<Rightarrow> int \<Rightarrow> 'k loop \<Rightarrow> 'k loop result option" where
  "handle_loop os ep wait_time s =
     (if is_open s then
        (case handle_turn os ep wait_time s of
           Inl e \<Rightarrow> Some (Inl e)
         | Inr s \<Rightarrow> handle_loop os ep wait_time s)
      else Some (Inr s))"

definition handle :: "'k sys \<Rightarrow> 'k epoll_sys \<Rightarrow> int \<Rightarrow> int \<Rightarrow> 'k loop \<Rightarrow> 'k loop result option" where
  "handle os ep max_connections wait_time s =
     (case handle_start ep max_connections s of
        Inl e \<Rightarrow> Some (Inl e)
      | Inr s \<Rightarrow> handle_loop os ep wait_time s)"

definition SocketHandler_stop :: "'k sys \<Rightarrow> 'k loop \<Rightarrow> 'k loop" where
  "SocketHandler_stop os s =
     (case m_epoll s of
        None \<Rightarrow> s\<lparr>is_open := False\<rparr>
      | Some p \<Rightarrow> s\<lparr>is_open := False, m_epoll := None, lp_world := EventPoller_destroy os p (lp_world s)\<rparr>)"

definition SocketHandler_destroy :: "'k sys \<Rightarrow> 'k loop \<Rightarrow> 'k loop" where
  "SocketHandler_destroy os s =
     (let s = (case m_epoll s of None \<Rightarrow> s
                | Some p \<Rightarrow> s\<lparr>m_epoll := None, lp_world := EventPoller_destroy os p (lp_world s)\<rparr>)
      in case m_server s of None \<Rightarrow> s
         | Some sv \<Rightarrow> s\<lparr>m_server := None, lp_world := Socket_destroy os sv (lp_world s)\<rparr>)"

end
