(* ===== verification/Ownership.thy ===== *)
theory Ownership
  imports Event_Loop
begin

text \<open>
  The event loop and the workers together: the interleavings of the loop's waits and events with
  the steps of the thread pool, and the ownership of the socket objects.  A socket is owned by the
  epoll instance, by the batch of events the loop is going through, by the queue or by a worker,
  or by nobody, and then it is lost.
\<close>

section \<open>Interleavings\<close>

text \<open>
  A state is the loop with the events of the current batch that are still to be handled.  A worker
  that ends its task on a socket attaches it again, removes it, or ends by an exception and does
  neither; while it works it receives and sends on its socket.
\<close>

inductive loop_step :: "'k sys \<Rightarrow> 'k epoll_sys \<Rightarrow> int \<Rightarrow> 'k loop \<times> epoll_event list \<Rightarrow> 'k loop \<times> epoll_event list \<Rightarrow> bool"
  for os ep wait_time where
  step_wait: "is_open s \<Longrightarrow> m_epoll s = Some p \<Longrightarrow> EventPoller_wait ep wait_time p (lp_world s) = ((num, p'), w) \<Longrightarrow>
    evs = (if num \<le> 0 then [] else take (nat num) (case m_events p' of None \<Rightarrow> [] | Some l \<Rightarrow> l)) \<Longrightarrow>
    loop_step os ep wait_time (s, []) (s\<lparr>m_epoll := Some p', lp_world := w\<rparr>, evs)"
| step_event: "on_event os ep e s = Inr (go, s') \<Longrightarrow>
    loop_step os ep wait_time (s, e # es) (s', if go then es else [])"
| step_pool: "tp_step (thread_pool s) ev tp \<Longrightarrow> ev = Tau \<or> ev = Start i a \<Longrightarrow>
    loop_step os ep wait_time (s, b) (s\<lparr>thread_pool := tp\<rparr>, b)"
| step_attach: "tp_step (thread_pool s) (Finish i a) tp \<Longrightarrow> attach ep a s = Inr s' \<Longrightarrow>
    loop_step os ep wait_time (s, b) (s'\<lparr>thread_pool := tp\<rparr>, b)"
| step_remove: "tp_step (thread_pool s) (Finish i a) tp \<Longrightarrow> remove os a s = Inr s' \<Longrightarrow>
    loop_step os ep wait_time (s, b) (s'\<lparr>thread_pool := tp\<rparr>, b)"
| step_throw: "tp_step (thread_pool s) (Finish i a) tp \<Longrightarrow>
    loop_step os ep wait_time (s, b) (s\<lparr>thread_pool := tp\<rparr>, b)"
| step_recv: "Socket_recv os (sockets s a) n (lp_world s) = (r, w) \<Longrightarrow>
    loop_step os ep wait_time (s, b) (s\<lparr>lp_world := w\<rparr>, b)"
| step_send: "sys_send os (m_sockfd (sockets s a)) buf (kern (lp_world s)) = (r', k) \<Longrightarrow>
    loop_step os ep wait_time (s, b) (s\<lparr>lp_world := (lp_world s)\<lparr>kern := k\<rparr>\<rparr>, b)"

text \<open>The states the program reaches once \<open>handle\<close> has begun, from a fresh handler.\<close>

inductive loop_reach :: "'k sys \<Rightarrow> 'k epoll_sys \<Rightarrow> int \<Rightarrow> int \<Rightarrow> 'k world \<Rightarrow> 'k loop \<times> epoll_event list \<Rightarrow> bool"
  for os ep wait_time max_connections w where
  reach_start: "ObjectPool_new n = Inr p \<Longrightarrow> n < 2 ^ 64 \<Longrightarrow>
    handle_start ep max_connections
      (SocketHandler_listen os ip port (SocketHandler_new p (ThreadPool_new threads) w)) = Inr s \<Longrightarrow>
    loop_reach os ep wait_time max_connections w (s, [])"
| reach_step: "loop_reach os ep wait_time max_connections w s \<Longrightarrow> loop_step os ep wait_time s s' \<Longrightarrow>
    loop_reach os ep wait_time max_connections w s'"

definition batch_addrs :: "epoll_event list \<Rightarrow> addr list" where
  "batch_addrs es = concat (map (\<lambda>e. case ev_ptr e of Sock a \<Rightarrow> [a] | Server_ptr \<Rightarrow> []) es)"

text \<open>The sockets on their way: in the batch, in the queue, at a worker.\<close>

definition in_flight :: "'k loop \<times> epoll_event list \<Rightarrow> addr multiset" where
  "in_flight = (\<lambda>(s, b). mset (batch_addrs b) + mset (tasks (thread_pool s)) + running (thread_pool s))"

lemma batch_addrs_simps [simp]:
  "batch_addrs [] = []"
  "batch_addrs (e # es) = (case ev_ptr e of Sock a \<Rightarrow> [a] | Server_ptr \<Rightarrow> []) @ batch_addrs es"
  by (simp_all add: batch_addrs_def)

section \<open>Owners\<close>

text \<open>\<open>armed k\<close> are the descriptors the epoll instance would report, with their pointers.\<close>

definition armed_in :: "('k \<Rightarrow> (int \<times> ptr) set) \<Rightarrow> 'k loop \<Rightarrow> (int \<times> ptr) set" where
  "armed_in armed s = armed (kern (lp_world s))"

text \<open>
  The ownership invariant on what matters for it, the pool, the armed descriptors, the socket
  objects and the sockets on their way: the pool is in order, a socket is on its way at most once,
  and then it is live; an armed connection is live, not on its way, and armed with its own
  descriptor.
\<close>

definition own :: "pool \<Rightarrow> (int \<times> ptr) set \<Rightarrow> (addr \<Rightarrow> socket) \<Rightarrow> addr multiset \<Rightarrow> bool" where
  "own P A sk F \<longleftrightarrow> pool_ok P \<and> (\<forall>a. count F a \<le> 1) \<and> set_mset F \<subseteq> live_objs P \<and>
     (\<forall>fd a. (fd, Sock a) \<in> A \<longrightarrow> fd = m_sockfd (sk a) \<and> a \<in> live_objs P \<and> a \<notin># F)"

text \<open>The live sockets nobody owns.\<close>

definition ownerless :: "pool \<Rightarrow> (int \<times> ptr) set \<Rightarrow> addr multiset \<Rightarrow> addr set" where
  "ownerless P A F = live_objs P - set_mset F - {a. \<exists>fd. (fd, Sock a) \<in> A}"

definition owned :: "('k \<Rightarrow> (int \<times> ptr) set) \<Rightarrow> 'k loop \<times> epoll_event list \<Rightarrow> bool" where
  "owned armed x \<longleftrightarrow> own (object_pool (fst x)) (armed_in armed (fst x)) (sockets (fst x)) (in_flight x)"

definition lost :: "('k \<Rightarrow> (int \<times> ptr) set) \<Rightarrow> 'k loop \<times> epoll_event list \<Rightarrow> addr set" where
  "lost armed x = ownerless (object_pool (fst x)) (armed_in armed (fst x)) (in_flight x)"

declare split_paired_All [simp del] split_paired_Ex [simp del]

lemma ownI:
  assumes "pool_ok P" "\<And>a. count F a \<le> 1" "\<And>a. a \<in># F \<Longrightarrow> a \<in> live_objs P"
    and "\<And>fd a. (fd, Sock a) \<in> A \<Longrightarrow> fd = m_sockfd (sk a) \<and> a \<in> live_objs P \<and> a \<notin># F"
  shows "own P A sk F"
  using assms unfolding own_def by blast

lemma own_pool: "own P A sk F \<Longrightarrow> pool_ok P"
  and own_once: "own P A sk F \<Longrightarrow> count F a \<le> 1"
  and own_live: "own P A sk F \<Longrightarrow> a \<in># F \<Longrightarrow> a \<in> live_objs P"
  and own_armed: "own P A sk F \<Longrightarrow> (fd, Sock a) \<in> A \<Longrightarrow> fd = m_sockfd (sk a) \<and> a \<in> live_objs P \<and> a \<notin># F"
  unfolding own_def by blast+

lemma in_ownerless:
  "x \<in> ownerless P A F \<longleftrightarrow> x \<in> live_objs P \<and> x \<notin># F \<and> (\<forall>fd. (fd, Sock x) \<notin> A)"
  unfolding ownerless_def by blast

text \<open>The transfers of ownership; each keeps the invariant and finds no lost socket again.\<close>

lemma own_shrink:
  assumes o: "own P A sk F" and A: "A' \<subseteq> A" and F: "F' \<subseteq># F"
  shows "own P A' sk F' \<and> ownerless P A F \<subseteq> ownerless P A' F'"
proof (rule conjI [OF ownI subsetI])
  show "count F' a \<le> 1" for a using mset_subset_eq_count [OF F] own_once [OF o] by (rule order_trans)
  have F: "a \<in># F' \<Longrightarrow> a \<in># F" for a using set_mset_mono [OF F] by blast
  show "pool_ok P" by (rule own_pool [OF o])
  show "a \<in> live_objs P" if "a \<in># F'" for a using own_live [OF o] F [OF that] .
  show "fd = m_sockfd (sk a) \<and> a \<in> live_objs P \<and> a \<notin># F'" if "(fd, Sock a) \<in> A'" for fd a
    using own_armed [OF o, of fd a] F [of a] that A by blast
  show "x \<in> ownerless P A' F'" if "x \<in> ownerless P A F" for x
    using that F [of x] A unfolding in_ownerless by blast
qed

lemma own_report:
  assumes o: "own P A sk F" and A: "A' \<subseteq> A" and d: "distinct as"
    and r: "\<And>a. a \<in> set as \<Longrightarrow> (\<exists>fd. (fd, Sock a) \<in> A) \<and> (\<forall>fd. (fd, Sock a) \<notin> A')"
  shows "own P A' sk (mset as + F) \<and> ownerless P A F \<subseteq> ownerless P A' (mset as + F)"
proof (rule conjI [OF ownI subsetI])
  have out: "a \<notin># F \<and> a \<in> live_objs P" if "a \<in> set as" for a
    using own_armed [OF o] r [OF that] by blast
  show "count (mset as + F) a \<le> 1" for a
  proof (cases "a \<in> set as")
    case True
    then have "count F a = 0" "count (mset as) a = 1"
      using out d by (simp_all add: count_eq_zero_iff distinct_count_atmost_1)
    then show ?thesis by simp
  next
    case False
    then have "count (mset as) a = 0" by (simp add: count_eq_zero_iff)
    then show ?thesis using own_once [OF o, of a] unfolding count_union by linarith
  qed
  show "a \<in> live_objs P" if "a \<in># mset as + F" for a
    using that out [of a] own_live [OF o, of a] unfolding union_iff set_mset_mset by blast
  show "fd = m_sockfd (sk a) \<and> a \<in> live_objs P \<and> a \<notin># mset as + F" if "(fd, Sock a) \<in> A'" for fd a
    using that own_armed [OF o, of fd a] r [of a] A by auto
  show "x \<in> ownerless P A' (mset as + F)" if "x \<in> ownerless P A F" for x
    using that r [of x] A by (auto simp: in_ownerless)
qed (rule own_pool [OF o])

lemma own_accept:
  assumes o: "own P A sk F" and a: "Allocate P = Inr (Some a, P')" and A: "A' \<subseteq> A \<union> {(m_sockfd x, Sock a)}"
  shows "own P' A' (sk(a := x)) F \<and> ownerless P A F \<subseteq> ownerless P' A' F"
proof (rule conjI [OF ownI subsetI])
  note al = pool_ok_Allocate [OF own_pool [OF o] a]
  have new: "a \<notin># F" "\<And>fd. (fd, Sock a) \<notin> A" using al own_live [OF o] own_armed [OF o] by blast+
  show "pool_ok P'" using al by blast
  show "b \<in> live_objs P'" if "b \<in># F" for b using own_live [OF o that] al by blast
  show "fd = m_sockfd ((sk(a := x)) b) \<and> b \<in> live_objs P' \<and> b \<notin># F" if "(fd, Sock b) \<in> A'" for fd b
    using that A new al own_armed [OF o, of fd b] by (cases "b = a") auto
  show "b \<in> ownerless P' A' F" if "b \<in> ownerless P A F" for b
    using that A al by (auto simp: in_ownerless)
qed (rule own_once [OF o])

lemma own_uniq:
  assumes o: "own P A sk (add_mset a F)"
  shows "a \<notin># F" "count F b \<le> 1"
proof -
  show "a \<notin># F" using own_once [OF o, of a] by (simp add: count_eq_zero_iff)
  show "count F b \<le> 1" using own_once [OF o, of b] by (simp split: if_splits)
qed

lemma own_attach:
  assumes o: "own P A sk (add_mset a F)" and A: "A' \<subseteq> A \<union> {(m_sockfd (sk a), Sock a)}"
  shows "own P A' sk F \<and> ownerless P A (add_mset a F) \<subseteq> ownerless P A' F"
proof (rule conjI [OF ownI subsetI])
  show "fd = m_sockfd (sk b) \<and> b \<in> live_objs P \<and> b \<notin># F" if "(fd, Sock b) \<in> A'" for fd b
    using that A own_armed [OF o, of fd b] own_uniq(1) [OF o] own_live [OF o, of a] by (cases "b = a") auto
  show "b \<in> ownerless P A' F" if "b \<in> ownerless P A (add_mset a F)" for b
    using that A by (auto simp: in_ownerless)
qed (use own_pool [OF o] own_uniq(2) [OF o] own_live [OF o] in auto)

lemma own_delete:
  assumes o: "own P A sk (add_mset a F)" and A: "A' \<subseteq> A" and D: "Delete a P = Inr (u, P')"
  shows "own P' A' (sk(a := x)) F \<and> ownerless P A (add_mset a F) \<subseteq> ownerless P' A' F"
proof (rule conjI [OF ownI subsetI])
  have "a \<in> live_objs P" using own_live [OF o, of a] by simp
  then obtain Q where "Delete a P = Inr ((), Q)" and Q: "live_objs Q = live_objs P - {a}" "pool_ok Q"
    using pool_ok_Delete [OF own_pool [OF o]] by blast
  then have P': "P' = Q" using D by simp
  show "pool_ok P'" using Q P' by simp
  show "b \<in> live_objs P'" if "b \<in># F" for b
    using own_live [OF o, of b] that own_uniq(1) [OF o] Q P' by auto
  show "fd = m_sockfd ((sk(a := x)) b) \<and> b \<in> live_objs P' \<and> b \<notin># F" if "(fd, Sock b) \<in> A'" for fd b
    using that A own_armed [OF o, of fd b] Q P' by auto
  show "b \<in> ownerless P' A' F" if "b \<in> ownerless P A (add_mset a F)" for b
    using that A Q P' by (auto simp: in_ownerless)
qed (rule own_uniq(2) [OF o])

text \<open>What the steps of the pool do to the sockets on their way.\<close>

lemma tp_step_flight:
  assumes "tp_step s e s'"
  shows "(e = Tau \<or> e = Start i a \<longrightarrow> mset (tasks s') + running s' = mset (tasks s) + running s) \<and>
     (e = Finish i a \<longrightarrow> mset (tasks s) + running s = add_mset a (mset (tasks s') + running s'))"
  using assms
proof cases
  case (take j b s1)
  then show ?thesis
    using running_set_worker [of j s1 "W_run b"] by (auto simp: worker_section_cases)
next
  case (idle j v s1)
  then show ?thesis
    using running_set_worker [of j s1 v] by (auto simp: worker_section_cases)
next
  case (finish j b)
  then show ?thesis
    using running_set_worker [of j s W_lock] by auto
next
  case (notify_one m j)
  then show ?thesis
    using running_set_worker [of j "s\<lparr>pending := m\<rparr>" W_lock] by auto
next
  case (spurious j)
  then show ?thesis
    using running_set_worker [of j s W_lock] by auto
qed auto

section \<open>Kernels with an epoll instance\<close>

text \<open>
  What the documentation says of an epoll instance; \<open>armed k\<close> are the descriptors it would report,
  with the pointer they were added with.  Adding a descriptor can arm it (or fail), no other call
  arms one, and a wait reports armed descriptors, each once, and disarms those added with
  \<open>EPOLLONESHOT\<close>, which are the connections.
\<close>

locale epoll_kernel =
  fixes os :: "'k sys" and ep :: "'k epoll_sys" and armed :: "'k \<Rightarrow> (int \<times> ptr) set"
  assumes armed_ctl: "armed (snd (sys_epoll_ctl ep epfd op fd e k)) \<subseteq>
      armed k \<union> (if op = EPOLL_CTL_DEL then {} else {(fd, ev_ptr e)})"
    and armed_wait: "sys_epoll_wait ep epfd n ms k = (Some evs, k') \<Longrightarrow>
      armed k' \<subseteq> armed k \<and>
      (\<exists>fds. distinct fds \<and>
        list_all2 (\<lambda>fd e. (fd, ev_ptr e) \<in> armed k \<and> (ev_ptr e \<noteq> Server_ptr \<longrightarrow> (fd, ev_ptr e) \<notin> armed k')) fds evs)"
    and armed_wait_none: "sys_epoll_wait ep epfd n ms k = (None, k') \<Longrightarrow> armed k' \<subseteq> armed k"
    and armed_create: "armed (snd (sys_epoll_create ep n k)) \<subseteq> armed k"
    and armed_accept: "armed (snd (sys_accept os fd k)) \<subseteq> armed k"
    and armed_close: "armed (sys_close os fd k) \<subseteq> armed k"
    and armed_recv: "armed (snd (sys_recv os fd len k)) \<subseteq> armed k"
    and armed_send: "armed (snd (sys_send os fd buf k)) \<subseteq> armed k"
    and armed_flags: "armed (snd (sys_getfl os fd k)) \<subseteq> armed k" "armed (snd (sys_setfl os fd fl k)) \<subseteq> armed k"
    and armed_opts: "armed (snd (sys_setsockopt os fd opt k)) \<subseteq> armed k"
    and armed_socket: "armed (snd (sys_socket os k)) \<subseteq> armed k" "armed (snd (sys_bind os fd adr k)) \<subseteq> armed k"
      "armed (snd (sys_listen os fd backlog k)) \<subseteq> armed k"
begin

lemma checked_armed:
  assumes "\<And>k. armed (snd (call k)) \<subseteq> armed k"
  shows "armed (kern (snd (checked name call w))) \<subseteq> armed (kern w)"
  using assms by (auto simp: checked_def Let_def ERROR_def case_prod_unfold)

lemma set_non_blocking_armed: "armed (kern (snd (set_non_blocking os sk w))) \<subseteq> armed (kern w)"
proof -
  define k where "k = snd (sys_getfl os (m_sockfd sk) (kern w))"
  have "armed (kern (snd (set_non_blocking os sk w))) \<subseteq> armed k"
    using checked_armed [of "sys_setfl os (m_sockfd sk) f" n "w\<lparr>kern := k\<rparr>" for f n] armed_flags
    by (auto simp: set_non_blocking_def Let_def ERROR_def case_prod_unfold k_def)
  then show ?thesis using armed_flags(1) [of "m_sockfd sk" "kern w"] by (auto simp: k_def)
qed

lemma Socket_accept_armed: "armed (kern (snd (Socket_accept os sk w))) \<subseteq> armed (kern w)"
  using armed_accept [of "m_sockfd sk" "kern w"]
  by (auto simp: Socket_accept_def Let_def ERROR_def case_prod_unfold)

lemma Socket_close_armed: "armed (kern (snd (Socket_close os sk w))) \<subseteq> armed (kern w)"
  using armed_close by (auto simp: Socket_close_def)

lemma Socket_destroy_armed: "armed (kern (Socket_destroy os sk w)) \<subseteq> armed (kern w)"
  using Socket_close_armed by (simp add: Socket_destroy_def)

lemma ERROR_kern [simp]: "kern (ERROR msg w) = kern w"
  by (simp add: ERROR_def)

lemma ctrl_armed:
  "armed (kern (ctrl ep p fd pt evs op w)) \<subseteq> armed (kern w) \<union> (if op = EPOLL_CTL_DEL then {} else {(fd, pt)})"
proof -
  obtain e where e: "kern (ctrl ep p fd pt evs op w) = snd (sys_epoll_ctl ep (m_epfd p) op fd e (kern w))" "ev_ptr e = pt"
    by (simp add: ctrl_def)
  show ?thesis using armed_ctl [of "m_epfd p" op fd e "kern w"] unfolding e .
qed

lemma attach_effect:
  assumes "attach ep a s = Inr s'"
  shows "object_pool s' = object_pool s \<and> sockets s' = sockets s \<and> thread_pool s' = thread_pool s \<and>
     armed_in armed s' \<subseteq> armed_in armed s \<union> {(m_sockfd (sockets s a), Sock a)}"
proof -
  obtain p where "s' = s\<lparr>lp_world := ctrl ep p (m_sockfd (sockets s a)) (Sock a) sock_events EPOLL_CTL_ADD (lp_world s)\<rparr>"
    using assms by (auto simp: attach_def res_bind_eq_Inr EventPoller_add_def)
  then show ?thesis
    using ctrl_armed [of p "m_sockfd (sockets s a)" "Sock a" sock_events EPOLL_CTL_ADD "lp_world s"]
    by (simp add: armed_in_def)
qed

lemma detach_effect:
  assumes "detach ep a s = Inr s'"
  shows "object_pool s' = object_pool s \<and> sockets s' = sockets s \<and> thread_pool s' = thread_pool s \<and>
     armed_in armed s' \<subseteq> armed_in armed s"
proof -
  obtain p where "s' = s\<lparr>lp_world := ctrl ep p (m_sockfd (sockets s a)) (Sock a) sock_events EPOLL_CTL_DEL (lp_world s)\<rparr>"
    using assms by (auto simp: detach_def res_bind_eq_Inr EventPoller_del_def)
  then show ?thesis
    using ctrl_armed [of p "m_sockfd (sockets s a)" "Sock a" sock_events EPOLL_CTL_DEL "lp_world s"]
    by (simp add: armed_in_def)
qed

lemma remove_effect:
  assumes "remove os a s = Inr s'"
  shows "\<exists>u sk. Delete a (object_pool s) = Inr (u, object_pool s') \<and> sockets s' = (sockets s)(a := sk) \<and>
     thread_pool s' = thread_pool s \<and> armed_in armed s' \<subseteq> armed_in armed s"
proof -
  obtain b sk w where c: "Socket_close os (sockets s a) (lp_world s) = ((b, sk), w)" by (metis surj_pair)
  then have "armed (kern (Socket_destroy os sk w)) \<subseteq> armed_in armed s"
    using Socket_close_armed [of "sockets s a" "lp_world s"] Socket_destroy_armed [of sk w]
    by (auto simp: armed_in_def)
  then show ?thesis using assms c by (auto simp: remove_def res_bind_eq_Inr armed_in_def)
qed

text \<open>A connection is accepted into a new object, or the pool has none and nothing changes hands.\<close>

lemma on_accept_effect:
  assumes "on_accept os ep s = Inr (go, s')" "pool_ok (object_pool s)"
  shows "thread_pool s' = thread_pool s \<and>
     (if go then \<exists>a sk. Allocate (object_pool s) = Inr (Some a, object_pool s') \<and> sockets s' = (sockets s)(a := sk) \<and>
          armed_in armed s' \<subseteq> armed_in armed s \<union> {(m_sockfd sk, Sock a)}
      else object_pool s' = object_pool s \<and> sockets s' = sockets s \<and> armed_in armed s' \<subseteq> armed_in armed s)"
proof -
  obtain sv where sv: "m_server s = Some sv" using assms(1) by (auto simp: on_accept_def res_bind_eq_Inr deref_def split: option.splits)
  obtain fd adr w where a: "Socket_accept os sv (lp_world s) = ((fd, adr), w)" by (metis surj_pair)
  have wa: "armed (kern w) \<subseteq> armed_in armed s"
    using Socket_accept_armed [of sv "lp_world s"] a by (simp add: armed_in_def)
  obtain x P where al: "Allocate (object_pool s) = Inr (x, P)"
    using assms(1) a sv by (auto simp: on_accept_def res_bind_eq_Inr deref_def)
  show ?thesis
  proof (cases x)
    case None
    then have "P = object_pool s" using al assms(2) by (auto simp: Allocate_cases pool_ok_def split: if_splits)
    with None show ?thesis
      using assms(1) a al sv wa by (auto simp: on_accept_def deref_def armed_in_def)
  next
    case (Some b)
    define sk where "sk = Socket_default\<lparr>m_sockfd := fd, m_ip := sys_inet_ntoa os adr\<rparr>"
    define s1 where "s1 = s\<lparr>object_pool := P, sockets := (sockets s)(b := sk), lp_world := snd (set_non_blocking os sk w)\<rparr>"
    have at: "go" "attach ep b s1 = Inr s'"
      using assms(1) a al sv Some by (auto simp: on_accept_def deref_def Let_def sk_def s1_def res_map_def split: sum.splits)
    have "armed_in armed s1 \<subseteq> armed_in armed s"
      using set_non_blocking_armed [of sk w] wa by (auto simp: s1_def armed_in_def)
    with at attach_effect [OF at(2)] al Some show ?thesis by (auto simp: s1_def intro!: exI [of _ b])
  qed
qed

definition moves :: "'k loop \<times> epoll_event list \<Rightarrow> 'k loop \<times> epoll_event list \<Rightarrow> bool" where
  "moves x y \<longleftrightarrow> owned armed y \<and> lost armed x \<subseteq> lost armed y"

lemma moves_shrink:
  assumes "owned armed (s, b)" "armed_in armed s' \<subseteq> armed_in armed s" "object_pool s' = object_pool s"
    "sockets s' = sockets s" "in_flight (s', b') \<subseteq># in_flight (s, b)"
  shows "moves (s, b) (s', b')"
  using own_shrink [OF assms(1) [unfolded owned_def fst_conv] assms(2,5)] assms(3,4)
  by (simp add: moves_def owned_def lost_def)

lemma moves_remove:
  assumes "owned armed (s, b)" "remove os a s1 = Inr s'" "armed_in armed s1 \<subseteq> armed_in armed s"
    "object_pool s1 = object_pool s" "sockets s1 = sockets s" "in_flight (s, b) = add_mset a (in_flight (s'', b'))"
    "s'' = s'\<lparr>thread_pool := tp\<rparr>"
  shows "moves (s, b) (s'', b')"
proof -
  obtain u sk where "Delete a (object_pool s) = Inr (u, object_pool s')" "sockets s' = (sockets s)(a := sk)"
    "armed_in armed s' \<subseteq> armed_in armed s"
    using remove_effect [OF assms(2)] assms(3,4,5) by auto
  with own_delete [OF assms(1) [unfolded owned_def fst_conv assms(6)] _ this(1), of "armed_in armed s'" sk]
  show ?thesis using assms(6,7) by (simp add: moves_def owned_def lost_def armed_in_def)
qed

lemma moves_event:
  assumes "owned armed (s, e # es)" "on_event os ep e s = Inr (go, s')"
  shows "moves (s, e # es) (s', if go then es else [])"
proof (cases "ev_ptr e")
  case Server_ptr
  note ac = on_accept_effect [of s go s'] own_pool [OF assms(1) [unfolded owned_def fst_conv]]
  have ev: "on_accept os ep s = Inr (go, s')" using assms(2) Server_ptr by (simp add: on_event_def)
  show ?thesis
  proof (cases go)
    case True
    then obtain a sk where "Allocate (object_pool s) = Inr (Some a, object_pool s')" "sockets s' = (sockets s)(a := sk)"
      "armed_in armed s' \<subseteq> armed_in armed s \<union> {(m_sockfd sk, Sock a)}" "thread_pool s' = thread_pool s"
      using ac ev by auto
    with own_accept [OF assms(1) [unfolded owned_def fst_conv] this(1,3)] True Server_ptr
    show ?thesis by (simp add: moves_def owned_def lost_def in_flight_def)
  next
    case False
    then show ?thesis
      using ac ev Server_ptr assms(1) by (auto intro!: moves_shrink simp: in_flight_def)
  qed
next
  case (Sock a)
  have s': "go" "on_socket os ep (ev_events e) a s = Inr s'"
    using assms(2) Sock by (auto simp: on_event_def res_map_eq_Inr)
  have drop: "moves (s, e # es) (s', es)" if ds: "drop_socket os ep msg a s = Inr s'" for msg
  proof -
    obtain s1 where d: "detach ep a (s\<lparr>lp_world := ERROR (msg @ dec_int (m_sockfd (sockets s a))) (lp_world s)\<rparr>) = Inr s1"
      "remove os a s1 = Inr s'"
      using ds by (auto simp: drop_socket_def Let_def res_bind_eq_Inr)
    then have "thread_pool s' = thread_pool s"
      using detach_effect [OF d(1)] remove_effect [OF d(2)] by auto
    then show ?thesis
      using detach_effect [OF d(1)] Sock
      by (intro moves_remove [OF assms(1) d(2), of _ _ "thread_pool s'"]) (auto simp: armed_in_def in_flight_def)
  qed
  have "moves (s, e # es) (s', es)"
  proof (cases "ev_events e AND EPOLLHUP \<noteq> 0 \<or> ev_events e AND EPOLLERR \<noteq> 0")
    case True
    then show ?thesis using s'(2) drop by (auto simp: on_socket_def split: if_splits)
  next
    case False
    show ?thesis
    proof (cases "ev_events e AND EPOLLIN = 0")
      case True
      then have "s' = s" using False s'(2) by (simp add: on_socket_def)
      then show ?thesis using assms(1) Sock by (intro moves_shrink) (auto simp: in_flight_def)
    next
      case in_event: False
      then obtain s1 tp where d: "detach ep a s = Inr s1" and q: "Enqueue a (thread_pool s1) = Inr tp" "s' = s1\<lparr>thread_pool := tp\<rparr>"
        using False s'(2) by (auto simp: on_socket_def res_bind_eq_Inr)
      note de = detach_effect [OF d]
      have "in_flight (s', es) = in_flight (s, e # es)"
        using q de Sock by (auto simp: in_flight_def Enqueue_cases)
      with de q(2) show ?thesis by (intro moves_shrink [OF assms(1)]) (simp_all add: armed_in_def)
    qed
  qed
  with s' show ?thesis by simp
qed

lemma reported:
  assumes "list_all2 (\<lambda>fd e. (fd, ev_ptr e) \<in> A \<and> (ev_ptr e \<noteq> Server_ptr \<longrightarrow> (fd, ev_ptr e) \<notin> A')) fds evs" "distinct fds"
    and "\<And>fd a. (fd, Sock a) \<in> A \<Longrightarrow> fd = g a"
  shows "distinct (batch_addrs evs) \<and> (\<forall>a \<in> set (batch_addrs evs). g a \<in> set fds \<and> (g a, Sock a) \<in> A \<and> (g a, Sock a) \<notin> A')"
  using assms(1,2)
proof (induction fds evs rule: list_all2_induct)
  case (Cons fd fds e evs)
  then show ?case using assms(3) by (cases "ev_ptr e") auto
qed simp

lemma moves_wait:
  assumes o: "owned armed (s, [])" and w: "EventPoller_wait ep wait_time p (lp_world s) = ((num, p'), w)"
    and evs: "evs = (if num \<le> 0 then [] else take (nat num) (case m_events p' of None \<Rightarrow> [] | Some l \<Rightarrow> l))"
  shows "moves (s, []) (s\<lparr>m_epoll := Some p', lp_world := w\<rparr>, evs)"
proof -
  obtain r k where r: "sys_epoll_wait ep (m_epfd p) (m_max_connections p + 1) wait_time (kern (lp_world s)) = (r, k)"
    by force
  note o' = o [unfolded owned_def fst_conv]
  have a: "armed_in armed (s\<lparr>m_epoll := Some p', lp_world := w\<rparr>) = armed k"
    using w r by (auto simp: EventPoller_wait_def armed_in_def Let_def split: option.splits)
  show ?thesis
  proof (cases r)
    case None
    then have "evs = []" using w r evs by (simp add: EventPoller_wait_def)
    then show ?thesis
      using o armed_wait_none [OF r [unfolded None]] a
      by (intro moves_shrink) (auto simp: in_flight_def armed_in_def)
  next
    case (Some l)
    then have e: "evs = l" using w r evs by (auto simp: EventPoller_wait_def)
    obtain fds where f: "armed k \<subseteq> armed (kern (lp_world s))" "distinct fds"
      "list_all2 (\<lambda>fd e. (fd, ev_ptr e) \<in> armed (kern (lp_world s)) \<and> (ev_ptr e \<noteq> Server_ptr \<longrightarrow> (fd, ev_ptr e) \<notin> armed k)) fds l"
      using armed_wait [OF r [unfolded Some]] by blast
    have sk: "fd = m_sockfd (sockets s a)" if "(fd, Sock a) \<in> armed (kern (lp_world s))" for fd a
      using own_armed [OF o', of fd a] that by (simp add: armed_in_def)
    note rep = reported [OF f(3,2), of "\<lambda>a. m_sockfd (sockets s a)", OF sk]
    have out: "(\<exists>fd. (fd, Sock a) \<in> armed (kern (lp_world s))) \<and> (\<forall>fd. (fd, Sock a) \<notin> armed k)"
      if "a \<in> set (batch_addrs l)" for a
      using rep that sk [of _ a] f(1) by blast
    have "own (object_pool s) (armed k) (sockets s) (mset (batch_addrs l) + in_flight (s, [])) \<and>
        lost armed (s, []) \<subseteq> ownerless (object_pool s) (armed k) (mset (batch_addrs l) + in_flight (s, []))"
      using own_report [OF o' _ conjunct1 [OF rep], of "armed k"] f(1) out
      by (simp add: armed_in_def lost_def)
    then show ?thesis by (simp add: moves_def owned_def lost_def a e in_flight_def add.assoc)
  qed
qed

lemma moves_step: "loop_step os ep wait_time x y \<Longrightarrow> owned armed x \<Longrightarrow> moves x y"
proof (induction rule: loop_step.induct)
  case (step_wait s p num p' w evs)
  then show ?case by (intro moves_wait) auto
next
  case (step_event e s go s' es)
  then show ?case by (intro moves_event) auto
next
  case (step_pool s ev tp i a b)
  then have "mset (tasks tp) + running tp = mset (tasks (thread_pool s)) + running (thread_pool s)"
    using tp_step_flight [OF step_pool(1), of i a] by blast
  then have "in_flight (s\<lparr>thread_pool := tp\<rparr>, b) = in_flight (s, b)"
    by (simp add: in_flight_def add.assoc)
  then show ?case by (intro moves_shrink [OF step_pool.prems]) (simp_all add: armed_in_def)
next
  case (step_attach s i a tp s' b)
  have f: "in_flight (s, b) = add_mset a (in_flight (s'\<lparr>thread_pool := tp\<rparr>, b))"
    using tp_step_flight [OF step_attach(1), of i a] by (simp add: in_flight_def add.assoc)
  then show ?case
    using own_attach [OF step_attach.prems [unfolded owned_def fst_conv f]] attach_effect [OF step_attach(2)]
    by (simp add: moves_def owned_def lost_def armed_in_def)
next
  case (step_remove s i a tp s' b)
  have "in_flight (s, b) = add_mset a (in_flight (s'\<lparr>thread_pool := tp\<rparr>, b))"
    using tp_step_flight [OF step_remove(1), of i a] by (simp add: in_flight_def add.assoc)
  then show ?case by (intro moves_remove [OF step_remove.prems step_remove(2)]) auto
next
  case (step_throw s i a tp b)
  have "in_flight (s, b) = add_mset a (in_flight (s\<lparr>thread_pool := tp\<rparr>, b))"
    using tp_step_flight [OF step_throw(1), of i a] by (simp add: in_flight_def add.assoc)
  then show ?case using step_throw.prems by (intro moves_shrink) (auto simp: armed_in_def)
next
  case (step_recv s a n r w b)
  then show ?case
    using armed_recv [of "m_sockfd (sockets s a)" n "kern (lp_world s)"]
    by (intro moves_shrink) (auto simp: in_flight_def armed_in_def Socket_recv_def case_prod_unfold Let_def)
next
  case (step_send s a buf r' k b)
  then show ?case
    using armed_send [of "m_sockfd (sockets s a)" buf "kern (lp_world s)"]
    by (intro moves_shrink) (auto simp: in_flight_def armed_in_def)
qed

lemma steps_owned:
  assumes "(loop_step os ep wait_time)\<^sup>*\<^sup>* x y" "owned armed x"
  shows "owned armed y \<and> lost armed x \<subseteq> lost armed y"
  using assms
proof (induction rule: rtranclp_induct)
  case (step y z)
  then show ?case using moves_step [OF step.hyps(2)] by (auto simp: moves_def)
qed simp

lemma ServerSocket_new_armed: "armed (kern (snd (ServerSocket_new os ip port w))) \<subseteq> armed (kern w)"
proof
  fix x assume x: "x \<in> armed (kern (snd (ServerSocket_new os ip port w)))"
  obtain fd k where sk: "sys_socket os (kern w) = (fd, k)" by force
  have k: "armed k \<subseteq> armed (kern w)" using armed_socket(1) [of "kern w"] sk by simp
  have call: "x \<in> armed (kern v)" if "x \<in> armed (kern (snd (checked n c v)))"
    "\<And>k. armed (snd (c k)) \<subseteq> armed k" for n c v
    using checked_armed [OF that(2)] that(1) by blast
  show "x \<in> armed (kern w)"
  proof (cases "fd < 0")
    case True
    then show ?thesis using x sk k by (auto simp: ServerSocket_new_def)
  next
    case False
    define s where "s = (Socket_at ip port)\<lparr>m_sockfd := fd\<rparr>"
    have "x \<in> armed (kern (snd (set_non_blocking os s (w\<lparr>kern := k\<rparr>))))"
      using x sk False
      unfolding ServerSocket_new_def set_recv_buffer_def set_send_buffer_def set_linger_def
        set_keep_alive_def set_reuse_addr_def Socket_bind_def Socket_listen_def Let_def
      by (auto simp: s_def dest!: call [OF _ armed_socket(3)] call [OF _ armed_socket(2)] call [OF _ armed_opts])
    then show ?thesis using set_non_blocking_armed [of s "w\<lparr>kern := k\<rparr>"] k by auto
  qed
qed

lemma start_owned:
  assumes "ObjectPool_new n = Inr p" "n < 2 ^ 64"
    and "handle_start ep m (SocketHandler_listen os ip port (SocketHandler_new p (ThreadPool_new threads) w)) = Inr s"
    and "\<And>fd a. (fd, Sock a) \<notin> armed (kern w)"
  shows "owned armed (s, []) \<and> max_size (object_pool s) = nat (m mod 2 ^ 64) \<and> now_size (object_pool s) = 0"
proof -
  define P where "P = \<lparr>all_memory = [n], idle_objs = map (Pair 0) [0..<n], block_size = n, locked = False,
     max_size = nat (m mod 2 ^ 64), now_size = 0\<rparr>"
  have ok: "pool_ok P" unfolding P_def by (rule pool_ok_new [OF assms(2)])
  obtain sv w1 where l: "ServerSocket_new os ip port w = (sv, w1)" by force
  obtain ev w2 where c: "EventPoller_create ep m (EventPoller_new False) w1 = (ev, w2)" by force
  have s: "object_pool s = P" "thread_pool s = ThreadPool_new threads"
      "lp_world s = EventPoller_add ep ev (m_sockfd sv) Server_ptr (EPOLLIN OR EPOLLHUP OR EPOLLERR) w2"
    using assms(1,3) l c unfolding P_def
    by (auto simp: handle_start_def SocketHandler_listen_def SocketHandler_new_def deref_def ObjectPool_new_simp
        SetMaxSize_simp Let_def)
  have "armed (kern w2) \<subseteq> armed (kern w1)"
    using c armed_create [of "m + 1" "kern w1"]
    by (auto simp: EventPoller_create_def EventPoller_new_def Let_def case_prod_unfold split: if_splits)
  then have "armed (kern w2) \<subseteq> armed (kern w)" using ServerSocket_new_armed [of ip port w] l by simp
  then have A: "(fd, Sock a) \<notin> armed_in armed s" for fd a
    using ctrl_armed [of ev "m_sockfd sv" Server_ptr "EPOLLIN OR EPOLLHUP OR EPOLLERR" EPOLL_CTL_ADD w2] assms(4) [of fd a]
    by (auto simp: armed_in_def s EventPoller_add_def)
  have "tasks (ThreadPool_new threads) = []" by (simp add: ThreadPool_new_def)
  then have "in_flight (s, []) = {#}" by (simp add: in_flight_def s running_new)
  then have "own (object_pool s) (armed_in armed s) (sockets s) (in_flight (s, []))"
    using ok A by (intro ownI) (simp_all add: s)
  then show ?thesis by (simp add: owned_def s) (simp add: P_def)
qed

text \<open>The pool never grows past its maximum, which no step changes.\<close>

definition bounded :: "nat \<Rightarrow> 'k loop \<times> epoll_event list \<Rightarrow> bool" where
  "bounded m x \<longleftrightarrow> max_size (object_pool (fst x)) = m \<and> (m \<noteq> size_max \<longrightarrow> now_size (object_pool (fst x)) \<le> m)"

lemma bounded_delete:
  assumes "pool_ok P" "a \<in> live_objs P" "Delete a P = Inr (u, P')"
  shows "max_size P' = max_size P \<and> now_size P' \<le> now_size P"
proof -
  have c: "0 < now_size P" "now_size P < 2 ^ 64"
    using assms(1,2) live_objs_bound [OF assms(1)] by (auto simp: pool_ok_def card_gt_0_iff)
  then have "(now_size P + 2 ^ 64 - 1) mod 2 ^ 64 = now_size P - 1"
    by (metis Nat.add_diff_assoc2 One_nat_def Suc_leI add.commute less_imp_diff_less mod_add_self1 mod_less)
  then show ?thesis using assms by (auto simp: Delete_simp pool_ok_def)
qed

lemma bounded_allocate:
  assumes "\<not> locked P" "Allocate P = Inr (Some a, P')"
  shows "max_size P' = max_size P \<and> now_size P' \<le> Suc (now_size P) \<and> (max_size P \<noteq> size_max \<longrightarrow> now_size P \<noteq> max_size P)"
proof -
  have P': "P' = P\<lparr>idle_objs := butlast (idle_objs P), now_size := (now_size P + 1) mod 2 ^ 64\<rparr>"
    "max_size P \<noteq> size_max \<longrightarrow> now_size P \<noteq> max_size P"
    using assms(2) unfolding Allocate_cases [OF assms(1)] by (auto split: if_splits)
  have "(now_size P + 1) mod 2 ^ 64 \<le> Suc (now_size P)" using mod_less_eq_dividend [of "now_size P + 1" "2 ^ 64"] by simp
  then show ?thesis using P' by simp
qed

lemma bounded_step:
  "loop_step os ep wait_time x y \<Longrightarrow> owned armed x \<Longrightarrow> bounded m x \<Longrightarrow> bounded m y"
proof (induction rule: loop_step.induct)
  case (step_event e s go s' es)
  note o = step_event.prems(1) [unfolded owned_def fst_conv]
  note ok = own_pool [OF o]
  show ?case
  proof (cases "ev_ptr e")
    case Server_ptr
    then have "on_accept os ep s = Inr (go, s')" using step_event(1) by (simp add: on_event_def)
    note ac = on_accept_effect [OF this ok]
    show ?thesis
    proof (cases go)
      case True
      then obtain a where a: "Allocate (object_pool s) = Inr (Some a, object_pool s')" using ac by auto
      have "\<not> locked (object_pool s)" using ok by (simp add: pool_ok_def)
      from bounded_allocate [OF this a] step_event.prems(2) show ?thesis
        by (auto simp: bounded_def)
    next
      case False
      then show ?thesis using ac step_event.prems(2) by (simp add: bounded_def)
    qed
  next
    case (Sock a)
    then have live: "a \<in> live_objs (object_pool s)" using own_live [OF o, of a] by (simp add: in_flight_def)
    have ev: "on_socket os ep (ev_events e) a s = Inr s'"
      using step_event(1) Sock by (auto simp: on_event_def res_map_eq_Inr)
    have drop: "bounded m (s', [])" if ds: "drop_socket os ep msg a s = Inr s'" for msg
    proof -
      obtain s1 where d: "detach ep a (s\<lparr>lp_world := ERROR (msg @ dec_int (m_sockfd (sockets s a))) (lp_world s)\<rparr>) = Inr s1"
        "remove os a s1 = Inr s'"
        using ds by (auto simp: drop_socket_def Let_def res_bind_eq_Inr)
      then obtain u where "Delete a (object_pool s) = Inr (u, object_pool s')"
        using detach_effect [OF d(1)] remove_effect [OF d(2)] by auto
      from bounded_delete [OF ok live this] step_event.prems(2) show ?thesis by (auto simp: bounded_def)
    qed
    show ?thesis
    proof (cases "ev_events e AND EPOLLHUP \<noteq> 0 \<or> ev_events e AND EPOLLERR \<noteq> 0")
      case True
      then have "bounded m (s', [])" using ev drop by (auto simp: on_socket_def split: if_splits)
      then show ?thesis by (simp add: bounded_def)
    next
      case False
      then have "object_pool s' = object_pool s"
        using ev detach_effect [of a s] by (cases "ev_events e AND EPOLLIN = 0") (auto simp: on_socket_def res_bind_eq_Inr)
      then show ?thesis using step_event.prems(2) by (simp add: bounded_def)
    qed
  qed
next
  case (step_remove s i a tp s' b)
  note o = step_remove.prems(1) [unfolded owned_def fst_conv]
  have "a \<in># in_flight (s, b)"
    using tp_step_flight [OF step_remove(1), of i a] by (simp add: in_flight_def add.assoc)
  then have live: "a \<in> live_objs (object_pool s)" by (rule own_live [OF o])
  obtain u where "Delete a (object_pool s) = Inr (u, object_pool s')" using remove_effect [OF step_remove(2)] by auto
  from bounded_delete [OF own_pool [OF o] live this] step_remove.prems(2) show ?case by (auto simp: bounded_def)
next
  case (step_attach s i a tp s' b)
  then show ?case using attach_effect [OF step_attach(2)] by (simp add: bounded_def)
qed (simp_all add: bounded_def)

lemma reach_invariants:
  assumes "loop_reach os ep wait_time m w x" "\<And>fd a. (fd, Sock a) \<notin> armed (kern w)"
  shows "owned armed x \<and> bounded (nat (m mod 2 ^ 64)) x"
  using assms(1)
proof (induction rule: loop_reach.induct)
  case (reach_start n p ip port threads s)
  then show ?case using start_owned [OF reach_start(1,2,3) assms(2)] by (simp add: bounded_def)
next
  case (reach_step x y)
  then show ?case using moves_step bounded_step by (auto simp: moves_def)
qed

text \<open>Once every object the pool may give out is lost, no connection is accepted any more.\<close>

lemma exhausted:
  assumes "owned armed x" "bounded m x" "m \<noteq> size_max" "m \<le> card (lost armed x)"
  shows "Allocate (object_pool (fst x)) = Inr (None, object_pool (fst x))"
proof -
  note ok = own_pool [OF assms(1) [unfolded owned_def]]
  have "lost armed x \<subseteq> live_objs (object_pool (fst x))" by (auto simp: lost_def ownerless_def)
  then have "card (lost armed x) \<le> now_size (object_pool (fst x))"
    using ok card_mono [OF finite_live_objs] by (simp add: pool_ok_def)
  then show ?thesis using assms(2,3,4) ok by (simp add: bounded_def Allocate_cases pool_ok_def)
qed

end

section \<open>A kernel with an epoll instance\<close>

text \<open>
  A small kernel that keeps the contract: the armed descriptors, those that reported and are
  disarmed, the readiness of each wait to come and the connections to come.
\<close>

record epnet =
  ep_armed :: "(int \<times> ptr) list"
  ep_off :: "int list"
  ep_ready :: "(int \<times> u32) list list"
  ep_conns :: "int list"

definition ep_sys :: "epnet sys" where
  "ep_sys = \<lparr>
     sys_socket = (\<lambda>k. (3, k)), sys_bind = (\<lambda>_ _ k. (0, k)), sys_listen = (\<lambda>_ _ k. (0, k)),
     sys_connect = (\<lambda>_ _ k. (0, k)),
     sys_accept = (\<lambda>_ k. case ep_conns k of [] \<Rightarrow> ((-1, 0), k) | fd # fds \<Rightarrow> ((fd, 0), k\<lparr>ep_conns := fds\<rparr>)),
     sys_close = (\<lambda>fd k. k\<lparr>ep_armed := filter (\<lambda>x. fst x \<noteq> fd) (ep_armed k), ep_off := removeAll fd (ep_off k)\<rparr>),
     sys_recv = (\<lambda>_ _ k. (None, k)), sys_send = (\<lambda>_ buf k. (int (length buf), k)),
     sys_getfl = (\<lambda>_ k. (0, k)), sys_setfl = (\<lambda>_ _ k. (0, k)), sys_setsockopt = (\<lambda>_ _ k. (0, k)),
     sys_inet_addr = (\<lambda>_. 0), sys_inet_ntoa = (\<lambda>_. ''127.0.0.1''), sys_strerror = (\<lambda>_. ''error'')\<rparr>"

definition ep_reports :: "epnet \<Rightarrow> (int \<times> u32) list \<Rightarrow> nat \<Rightarrow> int list" where
  "ep_reports k ready n = take n (filter (\<lambda>fd. map_of (ep_armed k) fd \<noteq> None) (remdups (map fst ready)))"

definition ep_epoll :: "epnet epoll_sys" where
  "ep_epoll = \<lparr>
     sys_epoll_create = (\<lambda>_ k. (4, k)),
     sys_epoll_ctl = (\<lambda>_ op fd e k.
       case op of
         EPOLL_CTL_ADD \<Rightarrow>
           if fd < 0 \<or> map_of (ep_armed k) fd \<noteq> None \<or> fd \<in> set (ep_off k) then (-1, k)
           else (0, k\<lparr>ep_armed := (fd, ev_ptr e) # ep_armed k\<rparr>)
       | EPOLL_CTL_MOD \<Rightarrow> (-1, k)
       | EPOLL_CTL_DEL \<Rightarrow>
           (0, k\<lparr>ep_armed := filter (\<lambda>x. fst x \<noteq> fd) (ep_armed k), ep_off := removeAll fd (ep_off k)\<rparr>)),
     sys_epoll_wait = (\<lambda>_ n _ k.
       case ep_ready k of
         [] \<Rightarrow> (Some [], k)
       | ready # rest \<Rightarrow>
           (let fds = ep_reports k ready (nat n);
                evs = map (\<lambda>fd. \<lparr>ev_events = the (map_of ready fd), ev_ptr = the (map_of (ep_armed k) fd)\<rparr>) fds;
                off = filter (\<lambda>fd. map_of (ep_armed k) fd \<noteq> Some Server_ptr) fds
            in (Some evs, k\<lparr>ep_armed := filter (\<lambda>x. snd x = Server_ptr \<or> fst x \<notin> set fds) (ep_armed k),
                 ep_off := ep_off k @ off, ep_ready := rest\<rparr>)))\<rparr>"

definition ep_set :: "epnet \<Rightarrow> (int \<times> ptr) set" where
  "ep_set k = set (ep_armed k)"

lemma ep_wait_reports:
  assumes "set fds \<subseteq> dom (map_of xs)" "Y = {x \<in> set xs. snd x = Server_ptr \<or> fst x \<notin> F}" "set fds \<subseteq> F"
  shows "list_all2 (\<lambda>fd e. (fd, ev_ptr e) \<in> set xs \<and> (ev_ptr e \<noteq> Server_ptr \<longrightarrow> (fd, ev_ptr e) \<notin> Y)) fds
     (map (\<lambda>fd. \<lparr>ev_events = g fd, ev_ptr = the (map_of xs fd)\<rparr>) fds)"
  using assms(1,3)
proof (induction fds)
  case (Cons fd fds)
  then obtain p where "map_of xs fd = Some p" by auto
  then show ?case using Cons assms(2) map_of_SomeD [of xs fd p] by auto
qed simp

text \<open>The handler on it with one object to give out; the accept of the first event fails.\<close>

definition ep_w0 :: "(int \<times> u32) list list \<Rightarrow> int list \<Rightarrow> epnet world" where
  "ep_w0 ready conns = \<lparr>kern = \<lparr>ep_armed = [], ep_off = [], ep_ready = ready, ep_conns = conns\<rparr>, logged = []\<rparr>"

definition ep_s0 :: "(int \<times> u32) list list \<Rightarrow> int list \<Rightarrow> epnet loop" where
  "ep_s0 ready conns = \<lparr>is_open = True,
     m_epoll = Some \<lparr>m_epfd = 4, m_max_connections = 1, m_events = Some [], m_et = False\<rparr>,
     m_server = Some \<lparr>m_ip = '''', m_port = 80, m_sockfd = 3\<rparr>,
     object_pool = \<lparr>all_memory = [1], idle_objs = [(0, 0)], block_size = 1, locked = False, max_size = 1, now_size = 0\<rparr>,
     sockets = (\<lambda>_. Socket_default), thread_pool = ThreadPool_new 1,
     lp_world = \<lparr>kern = \<lparr>ep_armed = [(3, Server_ptr)], ep_off = [], ep_ready = ready, ep_conns = conns\<rparr>, logged = []\<rparr>\<rparr>"

lemma ep_s0_reach: "loop_reach ep_sys ep_epoll t 1 (ep_w0 ready conns) (ep_s0 ready conns, [])"
proof (rule reach_start [OF ObjectPool_new_simp [of 1]])
  have l: "ServerSocket_new ep_sys '''' 80 (ep_w0 ready conns) = (\<lparr>m_ip = '''', m_port = 80, m_sockfd = 3\<rparr>, ep_w0 ready conns)"
    by (simp add: ServerSocket_new_def ep_sys_def Let_def Socket_at_def set_non_blocking_def set_recv_buffer_def
        set_send_buffer_def set_linger_def set_keep_alive_def set_reuse_addr_def Socket_bind_def Socket_listen_def checked_def)
  show "handle_start ep_epoll 1 (SocketHandler_listen ep_sys '''' 80
      (SocketHandler_new \<lparr>all_memory = [1], idle_objs = map (Pair 0) [0..<1], block_size = 1, locked = False,
        max_size = size_max, now_size = 0\<rparr> (ThreadPool_new 1) (ep_w0 ready conns))) = Inr (ep_s0 ready conns)"
    using l by (simp add: handle_start_def SocketHandler_listen_def SocketHandler_new_def EventPoller_create_def
        EventPoller_new_def ep_epoll_def ep_w0_def ep_s0_def deref_def EventPoller_add_def ctrl_def SetMaxSize_simp)
qed simp

interpretation epoll_net: epoll_kernel ep_sys ep_epoll ep_set
proof
  fix epfd op fd e k
  show "ep_set (snd (sys_epoll_ctl ep_epoll epfd op fd e k)) \<subseteq>
      ep_set k \<union> (if op = EPOLL_CTL_DEL then {} else {(fd, ev_ptr e)})"
    by (cases op) (auto simp: ep_epoll_def ep_set_def)
next
  fix epfd n ms k evs k'
  assume w: "sys_epoll_wait ep_epoll epfd n ms k = (Some evs, k')"
  show "ep_set k' \<subseteq> ep_set k \<and> (\<exists>fds. distinct fds \<and>
        list_all2 (\<lambda>fd e. (fd, ev_ptr e) \<in> ep_set k \<and> (ev_ptr e \<noteq> Server_ptr \<longrightarrow> (fd, ev_ptr e) \<notin> ep_set k')) fds evs)"
  proof (cases "ep_ready k")
    case Nil
    then show ?thesis using w by (auto simp: ep_epoll_def)
  next
    case (Cons ready rest)
    define fds where "fds = ep_reports k ready (nat n)"
    have ok: "set fds \<subseteq> dom (map_of (ep_armed k))" "distinct fds"
      unfolding fds_def ep_reports_def by (auto dest!: in_set_takeD)
    have evs: "evs = map (\<lambda>fd. \<lparr>ev_events = the (map_of ready fd), ev_ptr = the (map_of (ep_armed k) fd)\<rparr>) fds"
      and k': "ep_set k' = {x \<in> set (ep_armed k). snd x = Server_ptr \<or> fst x \<notin> set fds}"
      using w Cons by (auto simp: ep_epoll_def ep_set_def Let_def fds_def)
    show ?thesis
      using ep_wait_reports [OF ok(1) k' order.refl, of "\<lambda>fd. the (map_of ready fd)"] ok(2) k'
      unfolding evs ep_set_def by (intro conjI exI [of _ fds]) auto
  qed
qed (auto simp: ep_sys_def ep_epoll_def ep_set_def Let_def split: list.splits)


section \<open>The properties of the loop and the workers\<close>

text \<open>A turn of the loop is a sequence of these steps.\<close>

lemma on_events_steps:
  "on_events os ep es s = Inr s' \<Longrightarrow> (loop_step os ep wait_time)\<^sup>*\<^sup>* (s, es) (s', [])"
proof (induction es arbitrary: s)
  case (Cons e es)
  then obtain go s1 where e: "on_event os ep e s = Inr (go, s1)"
    and r: "(if go then on_events os ep es s1 else Inr s1) = Inr s'"
    by (auto simp: res_bind_eq_Inr)
  have "(loop_step os ep wait_time)\<^sup>*\<^sup>* (s1, if go then es else []) (s', [])"
    using r Cons.IH by (cases go) auto
  with step_event [OF e] show ?case by (rule converse_rtranclp_into_rtranclp)
qed simp

lemma handle_turn_refines_steps:
  assumes "is_open s" "handle_turn os ep wait_time s = Inr s'"
  shows "(loop_step os ep wait_time)\<^sup>*\<^sup>* (s, []) (s', [])"
proof -
  obtain p where p: "m_epoll s = Some p" using assms(2) by (auto simp: handle_turn_def deref_def split: option.splits)
  obtain num p' w where w: "EventPoller_wait ep wait_time p (lp_world s) = ((num, p'), w)" by (metis surj_pair)
  define s1 where "s1 = s\<lparr>m_epoll := Some p', lp_world := w\<rparr>"
  define evs where "evs = (if num \<le> 0 then [] else take (nat num) (case m_events p' of None \<Rightarrow> [] | Some l \<Rightarrow> l))"
  have "loop_step os ep wait_time (s, []) (s1, evs)"
    unfolding s1_def by (rule step_wait [OF assms(1) p w evs_def])
  moreover have "on_events os ep evs s1 = Inr s'"
    using assms(2) p w by (auto simp: handle_turn_def deref_def evs_def s1_def Let_def split: if_splits option.splits)
  ultimately show ?thesis using on_events_steps by (meson converse_rtranclp_into_rtranclp)
qed

text \<open>
  The loop refines the interleaving model: a whole turn of \<open>handle\<close> that ends without an error, the
  wait and the branches of all its events, is a sequence of steps of the model from an empty batch
  to an empty batch.
\<close>

lemma handle_turn_refines:
  assumes "is_open s" "handle_turn os ep wait_time s = Inr s'"
  shows "(loop_step os ep wait_time)\<^sup>*\<^sup>* (s, []) (s', [])"
  using assms by (rule handle_turn_refines_steps)


lemma finish_loses:
  assumes "owned armed (s, b)" "tp_step (thread_pool s) (Finish i a) tp"
  shows "a \<in> lost armed (s\<lparr>thread_pool := tp\<rparr>, b)"
proof -
  have "in_flight (s, b) = add_mset a (in_flight (s\<lparr>thread_pool := tp\<rparr>, b))"
    using tp_step_flight [OF assms(2), of i a] by (simp add: in_flight_def add.assoc)
  note o = assms(1) [unfolded owned_def fst_conv this]
  show ?thesis using own_uniq(1) [OF o] own_live [OF o, of a] own_armed [OF o, of _ a]
    by (auto simp: lost_def in_ownerless armed_in_def)
qed

lemma steps_reach:
  "(loop_step os ep wait_time)\<^sup>*\<^sup>* x y \<Longrightarrow> loop_reach os ep wait_time m w x \<Longrightarrow> loop_reach os ep wait_time m w y"
  by (induction rule: rtranclp_induct) (blast intro: reach_step)+


text \<open>
  After \<open>stop\<close> the event poller is gone: a loop that looks at its flag ends, but a turn that goes
  on, an event of the batch under way and a task that attaches its socket again all go through the
  null pointer.
\<close>

lemma stop_leaves_null_poller:
  "attach ep a (SocketHandler_stop os s) = Inl NullDeref \<and> detach ep a (SocketHandler_stop os s) = Inl NullDeref \<and>
   handle_turn os ep wait_time (SocketHandler_stop os s) = Inl NullDeref \<and>
   on_socket os ep EPOLLIN a (SocketHandler_stop os s) = Inl NullDeref \<and>
   on_socket os ep EPOLLHUP a (SocketHandler_stop os s) = Inl NullDeref \<and>
   handle_loop os ep wait_time (SocketHandler_stop os s) = Some (Inr (SocketHandler_stop os s))"
proof -
  define s1 where "s1 = SocketHandler_stop os s"
  have s1: "m_epoll s1 = None" "\<not> is_open s1" by (auto simp: s1_def SocketHandler_stop_def split: option.splits)
  have bits: "EPOLLIN AND EPOLLHUP = 0" "EPOLLIN AND EPOLLERR = 0" "EPOLLIN AND EPOLLIN \<noteq> 0" "EPOLLHUP AND EPOLLHUP \<noteq> 0"
    by (simp_all add: EPOLLIN_def EPOLLHUP_def EPOLLERR_def)
  have "handle_loop os ep wait_time s1 = Some (Inr s1)" using s1 by (subst handle_loop.simps) simp
  then show ?thesis
    unfolding s1_def [symmetric] using s1 bits
    by (simp add: attach_def detach_def handle_turn_def on_socket_def drop_socket_def deref_def)
qed


text \<open>The first turn of the small example: the accept fails, its object is lost.\<close>

definition ep_s1 :: "epnet loop" where
  "ep_s1 = (ep_s0 [] [])\<lparr>
     m_epoll := Some \<lparr>m_epfd = 4, m_max_connections = 1,
       m_events = Some [\<lparr>ev_events = EPOLLIN, ev_ptr = Server_ptr\<rparr>], m_et = False\<rparr>,
     object_pool := \<lparr>all_memory = [1], idle_objs = [], block_size = 1, locked = False, max_size = 1, now_size = 1\<rparr>,
     sockets := (\<lambda>_. Socket_default)((0, 0) := \<lparr>m_ip = ''127.0.0.1'', m_port = 0, m_sockfd = -1\<rparr>),
     lp_world := ERROR ''accept'' (lp_world (ep_s0 [] []))\<rparr>"

lemma ep_turn: "handle_turn ep_sys ep_epoll 0 (ep_s0 [[(3, EPOLLIN)]] []) = Inr ep_s1"
proof -
  have "ep_reports (kern (lp_world (ep_s0 [[(3, EPOLLIN)]] []))) [(3, EPOLLIN)] 2 = [3]"
    by (simp add: ep_reports_def ep_s0_def)
  then show ?thesis
    by (simp add: handle_turn_def deref_def ep_s0_def ep_s1_def EventPoller_wait_def ep_epoll_def ep_sys_def
        on_event_def on_accept_def Socket_accept_def Allocate_cases ERROR_def set_non_blocking_def checked_def
        attach_def EventPoller_add_def ctrl_def Socket_default_def size_max_def Let_def)
qed

lemma handle_turn_refines_witness:
  "handle_turn ep_sys ep_epoll 0 (ep_s0 [[(3, EPOLLIN)]] []) = Inr ep_s1 \<and>
     (loop_step ep_sys ep_epoll 0)\<^sup>*\<^sup>* (ep_s0 [[(3, EPOLLIN)]] [], []) (ep_s1, [])"
  using handle_turn_refines [OF _ ep_turn] ep_turn by (simp add: ep_s0_def)




declare split_paired_All [simp] split_paired_Ex [simp]

end
