(* ===== verification/Http_Task.thy ===== *)
theory Http_Task
  imports Server Ownership
begin

text \<open>
  \<^verbatim>\<open>src/web/http_task.cpp\<close>, the task a worker runs on a readable socket, and the start and stop of
  \<^verbatim>\<open>src/web/server.cpp\<close>, which tie the server, the event loop and the thread pool together.
\<close>

section \<open>The log line\<close>

text \<open>\<open>to_string\<close> of a \<open>size_t\<close> as a \<open>double\<close>, divided by 1024 twice, which is exact.\<close>

definition megabytes :: "nat \<Rightarrow> string" where
  "megabytes n = print_double (Finite False (to_double n) (-20))"

definition task_line :: "socket \<Rightarrow> request \<Rightarrow> response \<Rightarrow> string" where
  "task_line sk req res =
     m_ip sk @ '' '' @ req_method req @ ''-'' @ dec_int (res_code res) @
     [CHR 0x09] @ dec (req_body_size req) @ ''Byte '' @ ''--> '' @
     megabytes (DataReader_Size (res_data_reader res)) @ ''MB'' @ [CHR 0x09] @ path req"


definition WARNING :: "string \<Rightarrow> 'k world \<Rightarrow> 'k world" where
  "WARNING s w = w\<lparr>logged := logged w @ [Logger_Warning s]\<rparr>"

text \<open>The warnings of \<open>next_func\<close>; at that point it has called every handler of the path.\<close>

definition handle_warnings :: "'a server \<Rightarrow> request \<Rightarrow> nat \<Rightarrow> 'k world \<Rightarrow> 'k world" where
  "handle_warnings srv req n =
     (let idx = (case srv_handlers srv (path req) of None \<Rightarrow> -1 | Some fs \<Rightarrow> int (length fs) - 1)
      in WARNING (''Func_list is over, call with nothing at '' @ path req @ '' '' @ dec_int idx) ^^ n)"

section \<open>The task\<close>

text \<open>
  How a task ends: the socket is attached again, it is removed, or an exception leaves the task,
  which the packaged task keeps in a future nobody looks at.  What the handlers change of the table
  of content types and of the application's state is part of the result.  The value \<open>None\<close> is a
  task that never ends.
\<close>

datatype task_end = Attached | Removed | Threw exn

definition HttpTask :: "'k sys \<Rightarrow> 'k epoll_sys \<Rightarrow> 'a server \<Rightarrow> (string \<Rightarrow> bool) \<Rightarrow> filesystem \<Rightarrow> string \<Rightarrow> addr \<Rightarrow>
    'k loop \<Rightarrow> content_types \<Rightarrow> 'a \<Rightarrow> (task_end \<times> 'k loop \<times> content_types \<times> 'a) result option" where
  "HttpTask os ep srv regular fs stk a lp types app =
     (let sk = sockets lp a in
      case Parse os stk sk Request_default (lp_world lp) of
        Inl e \<Rightarrow> Some (Inl e)
      | Inr ((parsed, req), w) \<Rightarrow>
          if \<not> parsed then
            Some (res_map (\<lambda>lp. (Removed, lp, types, app)) (remove os a (lp\<lparr>lp_world := w\<rparr>)))
          else
            Option.bind (Handle srv regular fs req types app) (\<lambda>(r, n).
            let w = handle_warnings srv req n w in
            case r of
              Thrown e s \<Rightarrow> Some (Inr (Threw e, lp\<lparr>lp_world := w\<rparr>, hs_types s, hs_app s))
            | Done s \<Rightarrow>
                (let res = GetDataReader (hs_resp s) in
                 Option.bind (BufferRead (Socket_send os sk) (res_data_reader res) w) (\<lambda>(dr, w).
                 let w = INFO (task_line sk (hs_req s) (res\<lparr>res_data_reader := dr\<rparr>)) w in
                 Some (res_map (\<lambda>lp. (Attached, lp, hs_types s, hs_app s))
                   (attach ep a (lp\<lparr>lp_world := w\<rparr>)))))))"

section \<open>Start and stop of the server\<close>

text \<open>
  \<open>Start\<close> creates the pool and the handler and stays in the loop; a number of threads is converted
  to \<open>size_t\<close>.  \<open>Stop\<close> gives up the last reference to the handler, which destroys it.
\<close>

record ('a, 'k) host =
  hst_server :: "'a server"
  hst_handler :: "'k loop option"

definition Start :: "'k sys \<Rightarrow> 'k epoll_sys \<Rightarrow> pool \<Rightarrow> ('a, 'k) host \<Rightarrow> 'k world \<Rightarrow> ('a, 'k) host result option" where
  "Start os ep instance h w =
     (let srv = hst_server h;
          tp = ThreadPool_new (nat (srv_threads srv mod 2 ^ 64));
          lp = SocketHandler_new instance tp (SYSTEM (''Listen at port '' @ dec_int (srv_port srv)) w);
          lp = SocketHandler_listen os (srv_ip srv) (srv_port srv) lp
      in map_option (res_map (\<lambda>lp. h\<lparr>hst_handler := Some lp\<rparr>)) (handle os ep (srv_connects srv) (srv_wait_time srv) lp))"

definition Server_Stop :: "'k sys \<Rightarrow> ('a, 'k) host \<Rightarrow> (('a, 'k) host \<times> 'k loop) result" where
  "Server_Stop os h =
     res_bind (deref (hst_handler h)) (\<lambda>lp.
     Inr (h\<lparr>hst_handler := None\<rparr>, SocketHandler_destroy os (SocketHandler_stop os lp)))"

lemma stop_before_start: "hst_handler h = None \<Longrightarrow> Server_Stop os h = Inl NullDeref"
  by (simp add: Server_Stop_def deref_def)

lemma stop_twice: "Server_Stop os h = Inr (h', lp) \<Longrightarrow> Server_Stop os h' = Inl NullDeref"
  by (auto simp: Server_Stop_def deref_def split: option.splits)

section \<open>An exchange\<close>

lemma handle_warnings_kern [simp]: "kern (handle_warnings srv req n w) = kern w"
  unfolding handle_warnings_def Let_def by (induction n arbitrary: w) (simp_all add: WARNING_def)

lemma handle_warnings_0 [simp]: "handle_warnings srv req 0 w = w"
  by (simp add: handle_warnings_def)

text \<open>The bytes of an exchange, and the socket after it.\<close>

lemma exchange_attached:
  assumes "sending_kernel os (sockets lp a) kout kready tries"
    and "Parse os stk (sockets lp a) Request_default (lp_world lp) = Inr ((True, req), w)" "kready (kern w)"
    and "Handle srv regular fs req types app = Some (Done s, n)"
    and "res_data_reader (hs_resp s) = DataReader_default" "m_epoll lp = Some p"
    and "length (MakeHttpHead (length (res_body_data (hs_resp s))) (hs_resp s)) + length (res_body_data (hs_resp s)) < 2 ^ 64"
  shows "\<exists>w1. kout (kern w1) = kout (kern w) @ MakeHttpHead (length (res_body_data (hs_resp s))) (hs_resp s) @
       res_body_data (hs_resp s) \<and>
     HttpTask os ep srv regular fs stk a lp types app =
       Some (Inr (Attached, lp\<lparr>lp_world := EventPoller_add ep p (m_sockfd (sockets lp a)) (Sock a) sock_events w1\<rparr>,
         hs_types s, hs_app s))"
proof -
  define b where "b = res_body_data (hs_resp s)"
  define h where "h = MakeHttpHead (length b) (hs_resp s)"
  define w0 where "w0 = handle_warnings srv req n w"
  define res where "res = GetDataReader (hs_resp s)"
  have sk: "sink (Socket_send os (sockets lp a)) (\<lambda>w. kout (kern w)) (\<lambda>w. kready (kern w))"
    using sending_kernel.Socket_send_takes [OF assms(1)] by (intro sink.intro) blast
  have "length b < 2 ^ 64" using assms(7) by (simp add: b_def)
  then have d: "begin_data (res_data_reader res) = h @ b" "stream_size (res_data_reader res) = 0"
    by (simp_all add: res_def GetDataReader_def SetBeginData_def assms(5) DataReader_default_def h_def b_def)
  have "length (begin_data (res_data_reader res)) < 2 ^ 64" using assms(7) by (simp add: d h_def b_def)
  moreover have "kready (kern w0)" using assms(3) by (simp add: w0_def)
  ultimately obtain dr w2 where br: "BufferRead (Socket_send os (sockets lp a)) (res_data_reader res) w0 = Some (dr, w2)"
      "kout (kern w2) = kout (kern w0) @ h @ b"
    using sink.BufferRead_begin [OF sk _ _ d(2)] d(1) by metis
  define w1 where "w1 = INFO (task_line (sockets lp a) (hs_req s) (res\<lparr>res_data_reader := dr\<rparr>)) w2"
  have "kout (kern w1) = kout (kern w) @ h @ b" using br(2) by (simp add: w1_def w0_def INFO_def)
  moreover have "HttpTask os ep srv regular fs stk a lp types app =
       Some (Inr (Attached, lp\<lparr>lp_world := EventPoller_add ep p (m_sockfd (sockets lp a)) (Sock a) sock_events w1\<rparr>,
         hs_types s, hs_app s))"
    using assms(2,4,6) br(1)
    by (simp add: HttpTask_def Let_def attach_def deref_def w1_def res_def w0_def)
  ultimately show ?thesis by (auto simp: b_def h_def)
qed

text \<open>
  C13: A whole exchange: when a request was received, the handlers have answered it with a response
  without a stream and the connection stays up, the task ends, however the kernel cuts the sends;
  what the peer gets is exactly the head with the length of the body as its Content-Length and the
  body; and then the socket is armed again for the next request of the connection.
\<close>

theorem http_exchange:
  assumes "sending_kernel os (sockets lp a) kout kready tries"
    and "Parse os stk (sockets lp a) Request_default (lp_world lp) = Inr ((True, req), w)" "kready (kern w)"
    and "Handle srv regular fs req types app = Some (Done s, n)"
    and "res_data_reader (hs_resp s) = DataReader_default" "m_epoll lp = Some p"
    and "length (MakeHttpHead (length (res_body_data (hs_resp s))) (hs_resp s)) + length (res_body_data (hs_resp s)) < 2 ^ 64"
  shows "\<exists>w1. kout (kern w1) = kout (kern w) @ MakeHttpHead (length (res_body_data (hs_resp s))) (hs_resp s) @
       res_body_data (hs_resp s) \<and>
     HttpTask os ep srv regular fs stk a lp types app =
       Some (Inr (Attached, lp\<lparr>lp_world := EventPoller_add ep p (m_sockfd (sockets lp a)) (Sock a) sock_events w1\<rparr>,
         hs_types s, hs_app s))"
  using assms by (rule exchange_attached)

text \<open>
  A handler that throws leaks the connection: when a request was received and the exception
  passes all handlers, the task ends without sending a byte; it neither attaches nor removes the
  socket, so pool, sockets and kernel are those after the request was received; and the socket,
  owned by the worker until then, is lost from the moment the worker goes on.
\<close>

lemma http_exception_leaks_socket:
  assumes "Parse os stk (sockets lp a) Request_default (lp_world lp) = Inr ((True, req), w)"
    and "Handle srv regular fs req types app = Some (Thrown e s, n)"
    and "owned armed (lp\<lparr>lp_world := w\<rparr>, b)" "tp_step (thread_pool lp) (Finish i a) tp"
  shows "\<exists>lp'. HttpTask os ep srv regular fs stk a lp types app = Some (Inr (Threw e, lp', hs_types s, hs_app s)) \<and>
     object_pool lp' = object_pool lp \<and> sockets lp' = sockets lp \<and> kern (lp_world lp') = kern w \<and>
     a \<in> lost armed (lp'\<lparr>thread_pool := tp\<rparr>, b)"
proof -
  define lp' where "lp' = lp\<lparr>lp_world := handle_warnings srv req n w\<rparr>"
  have "HttpTask os ep srv regular fs stk a lp types app = Some (Inr (Threw e, lp', hs_types s, hs_app s))"
    using assms(1,2) by (simp add: HttpTask_def lp'_def)
  moreover have "owned armed (lp', b)"
    using assms(3) by (simp add: owned_def armed_in_def lp'_def in_flight_def)
  then have "a \<in> lost armed (lp'\<lparr>thread_pool := tp\<rparr>, b)"
    using finish_loses [of armed lp' b i a tp] assms(4) by (simp add: lp'_def)
  ultimately show ?thesis by (auto simp: lp'_def)
qed


section \<open>A worker on the scripted kernel\<close>

definition net_epoll :: "net epoll_sys" where
  "net_epoll = \<lparr>sys_epoll_create = (\<lambda>_ k. (4, k)), sys_epoll_ctl = (\<lambda>_ _ _ _ k. (0, k)),
     sys_epoll_wait = (\<lambda>_ _ _ k. (Some [], k))\<rparr>"

definition net_poller :: poller where
  "net_poller = \<lparr>m_epfd = 4, m_max_connections = 1, m_events = Some [], m_et = False\<rparr>"

definition net_loop :: "net world \<Rightarrow> net loop" where
  "net_loop w = \<lparr>is_open = True, m_epoll = Some net_poller, m_server = None,
     object_pool = \<lparr>all_memory = [1], idle_objs = [], block_size = 1, locked = False, max_size = 1, now_size = 1\<rparr>,
     sockets = (\<lambda>_. Socket_default),
     thread_pool = \<lparr>workers = [W_run (0, 0)], tasks = [], stop = False, pending = 0, dtor = D_none\<rparr>,
     lp_world = w\<rparr>"

definition net_request :: "net world" where
  "net_request = net_world [Some (render_head ''GET'' (UrlEncode ''/'') ''HTTP/1.1'' [(''Content-Length'', ''2'')] @ ''ab'')] []"

definition net_server :: "(unit hstate \<Rightarrow> unit hstate outcome) \<Rightarrow> unit server" where
  "net_server f = Bind ''/'' (final f) (Server_new ServerConfig_default)"

lemma net_request_parsed:
  "\<exists>req w. Parse net_sys [] Socket_default Request_default net_request = Inr ((True, req), w) \<and> path req = ''/'' \<and>
     net_send (kern w) = [] \<and> net_sent (kern w) = ''''"
proof -
  have "path ((parsed_head ''GET'' ''/'' ''HTTP/1.1'' [(''Content-Length'', ''2'')])
       \<lparr>req_body_size := 2, req_from_ip := '''', req_body := ''ab'', req_is_json := False\<rparr>) = ''/''"
    by (simp add: path_def parsed_head_def)
  with Parse_example show ?thesis unfolding net_request_def by blast
qed

lemma net_server_handle:
  assumes "path req = ''/''"
  shows "Handle (net_server f) regular fs req types () =
     Some (f \<lparr>hs_req = req, hs_resp = Response_default, hs_types = types, hs_app = ()\<rparr>, 0)"
proof -
  define s where "s = \<lparr>hs_req = req, hs_resp = Response_default, hs_types = types, hs_app = ()\<rparr>"
  obtain ix where "next_func [] [final f] s chain_start = Some (f s, ix)" "warnings ix = 0"
    using next_func_onion [of "[]" "[]" "[final f]" "[]" f "[]" s] by auto
  then show ?thesis
    using assms by (simp add: Handle_def net_server_def Bind_def Server_new_def flip: s_def)
qed


theorem http_exchange_witness:
  "\<exists>lp. HttpTask net_sys net_epoll (net_server (\<lambda>s. Done (s\<lparr>hs_resp := BodyData ''hi'' (hs_resp s)\<rparr>))) (\<lambda>_. False) Map.empty
       [] (0, 0) (net_loop net_request) Map.empty () = Some (Inr (Attached, lp, Map.empty, ())) \<and>
     net_sent (kern (lp_world lp)) = ''HTTP/1.1 200 OK'' @ crlf @ ''Content-Length: 2'' @ crlf @ crlf @ ''hi''"
proof -
  define f :: "unit hstate \<Rightarrow> unit hstate outcome" where "f = (\<lambda>s. Done (s\<lparr>hs_resp := BodyData ''hi'' (hs_resp s)\<rparr>))"
  obtain req w where P: "Parse net_sys [] (sockets (net_loop net_request) (0, 0)) Request_default (lp_world (net_loop net_request)) =
      Inr ((True, req), w)" and r: "path req = ''/''" and k: "net_ready (kern w)" "net_sent (kern w) = ''''"
    using net_request_parsed by (auto simp: net_ready_def net_loop_def)
  define s where "s = \<lparr>hs_req = req, hs_resp = BodyData ''hi'' Response_default, hs_types = Map.empty, hs_app = ()\<rparr>"
  define hd where "hd = ''HTTP/1.1 200 OK'' @ crlf @ ''Content-Length: 2'' @ crlf @ crlf"
  have H: "Handle (net_server f) (\<lambda>_. False) Map.empty req Map.empty () = Some (Done s, 0)"
    using net_server_handle [OF r, of f] by (simp add: f_def s_def)
  have "MakeHttpHead 2 (BodyData ''hi'' Response_default) = hd" "length hd = 38"
    unfolding hd_def by code_simp+
  then have h: "MakeHttpHead 2 (hs_resp s) = hd" "length hd + 2 < 2 ^ 64" by (simp_all add: s_def)
  have b: "res_body_data (hs_resp s) = ''hi''" "length ''hi'' = 2" 
    "res_data_reader (hs_resp s) = DataReader_default" "hs_types s = Map.empty"
    by (simp_all add: s_def BodyData_def Response_default_def)
  have p: "m_epoll (net_loop net_request) = Some net_poller" by (simp add: net_loop_def)
  obtain w1 where "net_sent (kern w1) = hd @ ''hi''"
    "HttpTask net_sys net_epoll (net_server f) (\<lambda>_. False) Map.empty [] (0, 0) (net_loop net_request) Map.empty () =
       Some (Inr (Attached, (net_loop net_request)\<lparr>lp_world := EventPoller_add net_epoll net_poller
         (m_sockfd (sockets (net_loop net_request) (0, 0))) (Sock (0, 0)) sock_events w1\<rparr>, Map.empty, hs_app s))"
    using http_exchange [OF net.sending_kernel_axioms P k(1) H b(3) p, of net_epoll, unfolded b(1) b(2) h(1) b(4), OF h(2)]
    unfolding k(2) append_Nil by blast
  moreover have "kern (EventPoller_add net_epoll net_poller fd q e v) = kern v" for fd q e v
    by (simp add: EventPoller_add_def ctrl_def net_epoll_def)
  moreover have "hd @ ''hi'' = ''HTTP/1.1 200 OK'' @ crlf @ ''Content-Length: 2'' @ crlf @ crlf @ ''hi''"
    unfolding hd_def append_assoc ..
  ultimately show ?thesis
    unfolding f_def [symmetric] by (intro exI [of _ "(net_loop net_request)\<lparr>lp_world := EventPoller_add net_epoll net_poller
      (m_sockfd (sockets (net_loop net_request) (0, 0))) (Sock (0, 0)) sock_events w1\<rparr>"]) simp
qed

lemma net_loop_owned: "owned (\<lambda>_. {}) ((net_loop w0)\<lparr>lp_world := w\<rparr>, [])"
proof -
  have l: "live_objs \<lparr>all_memory = [1], idle_objs = [], block_size = 1, locked = False, max_size = 1, now_size = 1\<rparr> = {(0, 0)}"
    "all_objs \<lparr>all_memory = [1], idle_objs = [], block_size = 1, locked = False, max_size = 1, now_size = 1\<rparr> = {(0, 0)}"
    by (auto simp: live_objs_def all_objs_def)
  have "running \<lparr>workers = [W_run (0 :: nat, 0 :: nat)], tasks = [], stop = False, pending = 0, dtor = D_none\<rparr> = {#(0, 0)#}"
    by (simp add: running_def)
  then show ?thesis
    by (simp add: owned_def own_def armed_in_def net_loop_def in_flight_def pool_ok_def l [simplified])
qed

lemma net_loop_finish:
  "tp_step (thread_pool (net_loop w0)) (Finish 0 (0, 0)) (set_worker 0 W_lock (thread_pool (net_loop w0)))"
  by (rule finish) (simp_all add: net_loop_def)

lemma http_exception_leaks_socket_witness:
  "\<exists>lp. HttpTask net_sys net_epoll (net_server (Thrown (JsonExc ''e''))) (\<lambda>_. False) Map.empty
       [] (0, 0) (net_loop net_request) Map.empty () = Some (Inr (Threw (JsonExc ''e''), lp, Map.empty, ())) \<and>
     (0, 0) \<in> lost (\<lambda>_. {}) (lp\<lparr>thread_pool := set_worker 0 W_lock (thread_pool (net_loop net_request))\<rparr>, [])"
proof -
  obtain req w where P: "Parse net_sys [] (sockets (net_loop net_request) (0, 0)) Request_default (lp_world (net_loop net_request)) =
      Inr ((True, req), w)" and r: "path req = ''/''"
    using net_request_parsed by (auto simp: net_loop_def)
  define s where "s = \<lparr>hs_req = req, hs_resp = Response_default, hs_types = Map.empty, hs_app = ()\<rparr>"
  have H: "Handle (net_server (Thrown (JsonExc ''e''))) (\<lambda>_. False) Map.empty req Map.empty () = Some (Thrown (JsonExc ''e'') s, 0)"
    using net_server_handle [OF r, of "Thrown (JsonExc ''e'')"] by (simp add: s_def)
  from http_exception_leaks_socket [OF P H net_loop_owned net_loop_finish, of net_epoll]
  show ?thesis by (auto simp: s_def)
qed

end
