(* ===== verification/Json.thy ===== *)
theory Json
  imports Server "HOL-Library.List_Lexorder" "HOL-Library.Char_ord"
begin

text \<open>
  The operations on JSON values that the application uses, as the JSON library documents them, with
  the exceptions it throws.  An object is kept sorted by its keys, as the library's map is.
\<close>

type_synonym 'a jresult = "exn + 'a"

definition type_name :: "json \<Rightarrow> string" where
  "type_name j =
     (case j of JNull \<Rightarrow> ''null'' | JBool _ \<Rightarrow> ''boolean'' | JInt _ \<Rightarrow> ''number'' | JDouble _ \<Rightarrow> ''number''
      | JStr _ \<Rightarrow> ''string'' | JArr _ \<Rightarrow> ''array'' | JObj _ \<Rightarrow> ''object'')"

definition type_error :: "nat \<Rightarrow> string \<Rightarrow> json \<Rightarrow> exn" where
  "type_error n msg j = JsonExc (''[json.exception.type_error.'' @ dec n @ ''] '' @ msg @ type_name j)"

definition jfind :: "string \<Rightarrow> json \<Rightarrow> json option" where
  "jfind k j = (case j of JObj kvs \<Rightarrow> map_of kvs k | _ \<Rightarrow> None)"

fun put_key :: "string \<Rightarrow> 'a \<Rightarrow> (string \<times> 'a) list \<Rightarrow> (string \<times> 'a) list" where
  "put_key k v [] = [(k, v)]"
| "put_key k v ((k', v') # m) =
     (if k = k' then (k, v) # m else if k < k' then (k, v) # (k', v') # m else (k', v') # put_key k v m)"

text \<open>\<open>j[k] = v\<close> on a mutable value, and \<open>j[k]\<close> on a constant one, where the key must be there.\<close>

definition jset :: "string \<Rightarrow> json \<Rightarrow> json \<Rightarrow> json jresult" where
  "jset k v j =
     (case j of
        JNull \<Rightarrow> Inr (JObj [(k, v)])
      | JObj m \<Rightarrow> Inr (JObj (put_key k v m))
      | _ \<Rightarrow> Inl (type_error 305 ''cannot use operator[] with a string argument with '' j))"

definition jat :: "json \<Rightarrow> string \<Rightarrow> json jresult" where
  "jat j k =
     (case j of
        JObj m \<Rightarrow> (case map_of m k of Some v \<Rightarrow> Inr v | None \<Rightarrow> Inl (CppExc OutOfBounds))
      | _ \<Rightarrow> Inl (type_error 305 ''cannot use operator[] with a string argument with '' j))"

definition get_string :: "json \<Rightarrow> string jresult" where
  "get_string j = (case j of JStr s \<Rightarrow> Inr s | _ \<Rightarrow> Inl (type_error 302 ''type must be string, but is '' j))"

definition get_bool :: "json \<Rightarrow> bool jresult" where
  "get_bool j = (case j of JBool b \<Rightarrow> Inr b | _ \<Rightarrow> Inl (type_error 302 ''type must be boolean, but is '' j))"

definition get_double :: "json \<Rightarrow> dbl jresult" where
  "get_double j = (case j of JInt i \<Rightarrow> Inr (double_of_int i) | JDouble d \<Rightarrow> Inr d
     | _ \<Rightarrow> Inl (type_error 302 ''type must be number, but is '' j))"

text \<open>An object from an initializer list; the first value of a key stays.\<close>

definition jobject :: "(string \<times> json) list \<Rightarrow> json" where
  "jobject kvs = JObj (foldl (\<lambda>m (k, v). if map_of m k = None then put_key k v m else m) [] kvs)"

lemma put_key_map_of: "sorted (map fst m) \<Longrightarrow> map_of (put_key k v m) = (map_of m)(k \<mapsto> v)"
proof (induction k v m rule: put_key.induct)
  case (2 k v k' v' m)
  then show ?case by (auto simp: fun_eq_iff)
qed (simp add: fun_eq_iff)

lemma put_key_same [simp]: "map_of (put_key k v m) k = Some v"
  by (induction k v m rule: put_key.induct) auto

lemma put_key_set: "fst ` set (put_key k v m) = insert k (fst ` set m)"
  by (induction k v m rule: put_key.induct) auto

lemma put_key_sorted: "sorted (map fst m) \<Longrightarrow> distinct (map fst m) \<Longrightarrow>
    sorted (map fst (put_key k v m)) \<and> distinct (map fst (put_key k v m))"
proof (induction k v m rule: put_key.induct)
  case (2 k v k' v' m)
  have s: "set (map fst (put_key k v m)) = insert k (set (map fst m))" using put_key_set [of k v m] by simp
  show ?case
  proof (cases "k = k' \<or> k < k'")
    case True
    then show ?thesis using 2(2,3) by (auto simp del: set_map intro: order_trans less_imp_le)
  next
    case False
    then show ?thesis using 2 s by (auto simp del: set_map)
  qed
qed simp

lemma jfind_jset: "jset k v j = Inr j' \<Longrightarrow> j = JObj m \<Longrightarrow> sorted (map fst m) \<Longrightarrow> jfind k' j' = (if k' = k then Some v else jfind k' j)"
  by (auto simp: jset_def jfind_def put_key_map_of)

end
