(* ===== verification/Student_App.thy ===== *)
theory Student_App
  imports Json Token Sqlite Http_Task
begin

text \<open>
  \<^verbatim>\<open>example/app/app_business.cpp\<close> and \<^verbatim>\<open>student_mange_server.cpp\<close> with their header: the leave
  management built on the server, its status word, its handlers and its routes.  The database, the
  JSON parser and printer, the clock and the time zone are collected in an environment.
\<close>

section \<open>The status of a leave\<close>

text \<open>
  The status word holds three fields.  An enumerator is kept as the word it is stored in, since a
  cast can give it a value without a name; \<open>is_junior_\<close> shares its storage with \<open>st_mentor\<close> and is
  its lowest byte.
\<close>

type_synonym i32 = "32 word"

record StudentStatus =
  st_instructor :: i32
  st_mentor :: i32
  st_destroyed :: bool

definition PendingApproval :: i32 where "PendingApproval = 0x00"
definition Passed :: i32 where "Passed = 0x01"
definition Rejection :: i32 where "Rejection = 0x02"

definition StudentStatus_default :: StudentStatus where
  "StudentStatus_default = \<lparr>st_instructor = PendingApproval, st_mentor = PendingApproval, st_destroyed = False\<rparr>"

definition StudentStatus_of :: "i32 \<Rightarrow> StudentStatus" where
  "StudentStatus_of status =
     \<lparr>st_instructor = 0x03 AND status, st_mentor = 0x03 AND signed_drop_bit 2 status,
      st_destroyed = (0x01 AND signed_drop_bit 4 status \<noteq> 0)\<rparr>"

definition status :: "StudentStatus \<Rightarrow> i32" where
  "status s = st_instructor s OR push_bit 2 (st_mentor s) OR push_bit 4 (if st_destroyed s then 1 else 0)"

definition is_passed :: "StudentStatus \<Rightarrow> bool" where
  "is_passed s \<longleftrightarrow> \<not> st_destroyed s \<and> st_mentor s = Passed \<and> st_instructor s = Passed"

definition set_junior :: "bool \<Rightarrow> StudentStatus \<Rightarrow> StudentStatus" where
  "set_junior b s = s\<lparr>st_mentor := (st_mentor s AND NOT 0xFF) OR (if b then 1 else 0)\<rparr>"

section \<open>The environment\<close>

text \<open>
  \<open>env_call\<close> runs a named statement; \<open>env_parse\<close> and \<open>env_dump\<close> are the JSON library, which throws
  with a message; \<open>env_tm\<close> and \<open>env_now\<close> are the clock in local time and in nanoseconds.
\<close>

record 'd env =
  env_call :: "string \<Rightarrow> sql_param list \<Rightarrow> 'd \<Rightarrow> sqlite3_data list list \<times> 'd"
  env_parse :: "string \<Rightarrow> string + json"
  env_dump :: "json \<Rightarrow> string + string"
  env_tm :: tm
  env_now :: int
  env_localtime :: "int \<Rightarrow> tm"
  env_mktime :: "broken_time \<Rightarrow> int"
  env_stack :: "nat \<Rightarrow> string"

type_synonym 'd handler_fun = "'d hstate \<Rightarrow> 'd hstate outcome"

text \<open>Going on with a value or throwing; undefined behaviour ends a handler as well.\<close>

definition or_throw :: "'d hstate \<Rightarrow> 'a jresult \<Rightarrow> ('a \<Rightarrow> 'd hstate outcome) \<Rightarrow> 'd hstate outcome" where
  "or_throw s r k = (case r of Inl e \<Rightarrow> Thrown e s | Inr x \<Rightarrow> k x)"

definition cpp :: "'a result \<Rightarrow> 'a jresult" where
  "cpp r = (case r of Inl e \<Rightarrow> Inl (CppExc e) | Inr x \<Rightarrow> Inr x)"

definition throw_http :: "http_exception \<Rightarrow> 'd hstate \<Rightarrow> 'd hstate outcome" where
  "throw_http e s = Thrown (HttpExc e) s"

definition req_json :: "'d hstate \<Rightarrow> json" where
  "req_json s = req_body_json (hs_req s)"

definition call_sql :: "'d env \<Rightarrow> string \<Rightarrow> sql_param list \<Rightarrow> 'd hstate \<Rightarrow>
    (sqlite3_data list list \<Rightarrow> 'd hstate \<Rightarrow> 'd hstate outcome) \<Rightarrow> 'd hstate outcome" where
  "call_sql env n ps s k = (let (rows, d) = env_call env n ps (hs_app s) in k rows (s\<lparr>hs_app := d\<rparr>))"

text \<open>\<open>db_res[0][i]\<close>, out of bounds when the row is shorter.\<close>

definition col :: "sqlite3_data list \<Rightarrow> nat \<Rightarrow> sqlite3_data jresult" where
  "col r i = (if i < length r then Inr (r ! i) else Inl (CppExc OutOfBounds))"

definition cols :: "sqlite3_data list \<Rightarrow> nat \<Rightarrow> sqlite3_data list jresult" where
  "cols r n = (if n \<le> length r then Inr r else Inl (CppExc OutOfBounds))"

definition jtext :: "sqlite3_data \<Rightarrow> json" where "jtext d = JStr (text_data d)"
definition jint :: "sqlite3_data \<Rightarrow> json" where "jint d = JInt (int_data d)"

definition TestJsonParam :: "json \<Rightarrow> string list \<Rightarrow> unit jresult" where
  "TestJsonParam j params =
     (let lost_params = concat (map (\<lambda>str. if jfind str j = None then '', '' @ str else []) params)
      in if lost_params \<noteq> []
         then Inl (HttpExc (HttpException_msg 403 (''Lost param : '' @ drop 2 (c_str lost_params))))
         else Inr ())"


section \<open>The handlers around the others\<close>

definition json_answer :: "'d env \<Rightarrow> int \<Rightarrow> json jresult \<Rightarrow> 'd hstate \<Rightarrow> 'd hstate outcome" where
  "json_answer env code body s =
     (let s = s\<lparr>hs_resp := set_code code (hs_resp s)\<rparr> in
      or_throw s body (\<lambda>j.
      let (resp, types) = SetJsonType (hs_resp s, hs_types s); s = s\<lparr>hs_resp := resp, hs_types := types\<rparr> in
      case env_dump env j of
        Inl what \<Rightarrow> Thrown (JsonExc what) s
      | Inr text \<Rightarrow> Done (s\<lparr>hs_resp := BodyData text (hs_resp s)\<rparr>)))"

definition code_msg :: "int \<Rightarrow> string \<Rightarrow> json" where
  "code_msg code msg = jobject [(''code'', JInt code), (''msg'', JStr msg)]"

text \<open>Which errors are C++ exceptions; the others are undefined behaviour, which no handler catches.\<close>

definition is_exception :: "cpp_error \<Rightarrow> bool" where
  "is_exception e = (case e of LengthError \<Rightarrow> True | LogicError _ \<Rightarrow> True | InvalidArgument _ \<Rightarrow> True
     | RuntimeError _ \<Rightarrow> True | _ \<Rightarrow> False)"

definition catch_all :: "'d env \<Rightarrow> 'd hstate outcome \<Rightarrow> 'd hstate outcome" where
  "catch_all env r =
     (case r of
        Done s \<Rightarrow> Done s
      | Thrown (HttpExc e) s \<Rightarrow>
          json_answer env (he_base_code e)
            (res_bind (jset ''code'' (JInt (he_code e)) (he_body e)) (jset ''msg'' (JStr (he_msg e)))) s
      | Thrown (JsonExc what) s \<Rightarrow> json_answer env 403 (Inr (code_msg 403 what)) s
      | Thrown (CppExc e) s \<Rightarrow>
          if is_exception e then json_answer env 300 (Inr (code_msg 300 ''UnKnow Error'')) s else Thrown (CppExc e) s)"

text \<open>After \<open>next\<close> has returned, the rest of the \<open>try\<close> block.\<close>

definition answer_ok :: "'d env \<Rightarrow> 'd hstate outcome \<Rightarrow> 'd hstate outcome" where
  "answer_ok env r =
     (case r of Thrown e s \<Rightarrow> Thrown e s | Done s \<Rightarrow> json_answer env 200 (Inr (code_msg 200 ''ok'')) s)"

definition app_process_exception :: "'d env \<Rightarrow> 'd hstate handler" where
  "app_process_exception env s =
     (if req_method (hs_req s) \<noteq> ''POST'' then
        Stop (catch_all env (throw_http (HttpException_msg 405 ''Method Not Allowed, you must use POST method'') s))
      else
        (case (if req_is_json (hs_req s) then env_parse env (req_body (hs_req s)) else Inr (req_json s)) of
           Inl what \<Rightarrow> Stop (catch_all env (Thrown (JsonExc what) s))
         | Inr j \<Rightarrow>
             CallNext (s\<lparr>hs_req := (hs_req s)\<lparr>req_body_json := j\<rparr>\<rparr>) (\<lambda>r. Stop (catch_all env (answer_ok env r)))))"

definition app_token_parse :: "'d env \<Rightarrow> 'd hstate handler" where
  "app_token_parse env s =
     (let refuse = (\<lambda>msg. Stop (throw_http (HttpException_msg 403 (''Unauthorized, '' @ msg)) s)) in
      case jfind ''token'' (req_json s) of
        None \<Rightarrow> refuse ''not found token''
      | Some t \<Rightarrow>
          (case res_bind (get_string t) (\<lambda>tok. cpp (Token_parse (env_stack env) (env_mktime env) (env_now env) tok kTokenKey)) of
             Inl e \<Rightarrow> Stop (Thrown e s)
           | Inr token \<Rightarrow>
               if \<not> is_useful token then refuse ''token error''
               else if \<not> is_in_time token then refuse ''Login expired''
               else
                 (case jset ''user'' (JStr (user_id token)) (req_json s) of
                    Inl e \<Rightarrow> Stop (Thrown e s)
                  | Inr j \<Rightarrow> CallNext (s\<lparr>hs_req := (hs_req s)\<lparr>req_body_json := j\<rparr>\<rparr>) Stop)))"

section \<open>Logging in\<close>

definition is_teacher :: "string \<Rightarrow> bool" where
  "is_teacher user \<longleftrightarrow> length user < 10"

definition the_string :: "json \<Rightarrow> string \<Rightarrow> string jresult" where
  "the_string j k = res_bind (jat j k) get_string"

definition app_login :: "'d env \<Rightarrow> 'd handler_fun" where
  "app_login env s =
     (let j = req_json s; refuse = throw_http (HttpException_code_msg 202 400 ''Accepted, password error or no that user.'') in
      or_throw s (TestJsonParam j [''user'', ''password'']) (\<lambda>_.
      or_throw s (the_string j ''user'') (\<lambda>user.
      call_sql env (if is_teacher user then ''teacher_password'' else ''student_password'') [PText user] s (\<lambda>db_res s.
      if length db_res \<noteq> 1 then refuse s
      else
        or_throw s (col (db_res ! 0) 0) (\<lambda>c.
        or_throw s (jat j ''password'') (\<lambda>password.
        if jtext c \<noteq> password then refuse s
        else
          or_throw s (cpp (Token_new user (24 * 3600) (env_now env) (env_now env))) (\<lambda>token.
          or_throw s (cpp (Token_Encode (env_stack env) (env_localtime env) kTokenKey token)) (\<lambda>tok.
          throw_http (HttpException_body (jobject [(''token'', JStr tok)])) s))))))))"

section \<open>Information\<close>

definition teacher_json :: "sqlite3_data list \<Rightarrow> json" where
  "teacher_json r = jobject [(''data'', jobject [(''id'', jtext (r ! 0)), (''name'', jtext (r ! 1)),
     (''sex'', jtext (r ! 2)), (''age'', jint (r ! 3)), (''tel'', jtext (r ! 4))])]"

definition student_json :: "sqlite3_data list \<Rightarrow> json" where
  "student_json r = jobject [(''data'', jobject [(''id'', jtext (r ! 0)), (''name'', jtext (r ! 1)),
     (''specialty'', jtext (r ! 2)), (''class'', jint (r ! 3)), (''sex'', jtext (r ! 4)), (''tel'', jtext (r ! 5)),
     (''instructor'', jtext (r ! 7)), (''mentor'', jtext (r ! 8))])]"

definition answer_row :: "(sqlite3_data list \<Rightarrow> json) \<Rightarrow> nat \<Rightarrow> sqlite3_data list list \<Rightarrow> 'd hstate \<Rightarrow> 'd hstate outcome" where
  "answer_row f n db_res s =
     (if length db_res \<noteq> 1 then throw_http (HttpException_msg 404 ''not found user'') s
      else or_throw s (cols (db_res ! 0) n) (\<lambda>r. throw_http (HttpException_body (f r)) s))"

definition app_self :: "'d env \<Rightarrow> 'd handler_fun" where
  "app_self env s =
     or_throw s (the_string (req_json s) ''user'') (\<lambda>user.
     if is_teacher user then call_sql env ''teacher_info'' [PText user] s (answer_row teacher_json 5)
     else call_sql env ''student_info'' [PText user] s (answer_row student_json 9))"

definition app_student_info :: "'d env \<Rightarrow> 'd handler_fun" where
  "app_student_info env s =
     or_throw s (the_string (req_json s) ''user'') (\<lambda>user.
     or_throw s (TestJsonParam (req_json s) [''id'']) (\<lambda>_.
     if is_teacher user then
       or_throw s (the_string (req_json s) ''id'') (\<lambda>i.
       call_sql env ''student_info'' [PText i] s (answer_row student_json 9))
     else throw_http (HttpException_msg 403 ''You must be teacher.'') s))"


section \<open>Leaves\<close>

text \<open>\<open>int\<close> arithmetic that must not overflow.\<close>

definition chk_int :: "int \<Rightarrow> int jresult" where
  "chk_int i = (if - (2 ^ 31) \<le> i \<and> i < 2 ^ 31 then Inr i else Inl (CppExc SignedOverflow))"

text \<open>
  Who has graduated by the clock: the year of \<open>struct tm\<close>, counted from 1900, is compared with
  the calendar year of the class.
\<close>

definition is_graduate :: "tm \<Rightarrow> int \<Rightarrow> bool" where
  "is_graduate now graduate_year \<longleftrightarrow>
     int (tm_year now) - graduate_year = 0 \<or> int (tm_year now) - graduate_year = 1 \<and> 8 < tm_mon now"

definition app_leave :: "'d env \<Rightarrow> 'd handler_fun" where
  "app_leave env s =
     (let j = req_json s in
      or_throw s (the_string j ''user'') (\<lambda>user.
      or_throw s (TestJsonParam j [''leave_type'', ''leave_reason'', ''time_begin'', ''time_end'', ''is_school'']) (\<lambda>_.
      call_sql env ''student_info'' [PText user] s (\<lambda>db_res s.
      if length db_res \<noteq> 1 then throw_http (HttpException_msg 404 ''Not found student's teachers'') s
      else
        or_throw s (cols (db_res ! 0) 9) (\<lambda>r.
        or_throw s (the_string j ''leave_type'') (\<lambda>leave_type.
        or_throw s (the_string j ''leave_reason'') (\<lambda>leave_reason.
        or_throw s (the_string j ''time_begin'') (\<lambda>time_begin.
        or_throw s (the_string j ''time_end'') (\<lambda>time_end.
        or_throw s (res_bind (jat j ''is_school'') get_bool) (\<lambda>is_school.
        or_throw s (chk_int (int_data (r ! 3) + 4)) (\<lambda>graduate_year.
        let st = set_junior (\<not> is_graduate (env_tm env) graduate_year) StudentStatus_default in
        call_sql env ''insert_leave_info''
          [PText user, PText (text_data (r ! 8)), PText (text_data (r ! 7)), PText leave_type, PText leave_reason,
           PText time_begin, PText time_end, PInt (if is_school then 1 else 0), PInt (sint (status st))] s
          (\<lambda>_ s. Done s))))))))))))"

definition the_int :: "json \<Rightarrow> string \<Rightarrow> int jresult" where
  "the_int j k = res_bind (jat j k) (\<lambda>v. res_bind (get_double v) (\<lambda>d. cpp (int_of_double d)))"

definition app_release :: "'d env \<Rightarrow> 'd handler_fun" where
  "app_release env s =
     (let j = req_json s in
      or_throw s (the_string j ''user'') (\<lambda>user.
      or_throw s (TestJsonParam j [''note_id'']) (\<lambda>_.
      or_throw s (the_int j ''note_id'') (\<lambda>note_id.
      call_sql env ''select_leave_status'' [PInt note_id] s (\<lambda>db_res s.
      if length db_res \<noteq> 1 then throw_http (HttpException_msg 404 ''Not found leave info'') s
      else
        or_throw s (col (db_res ! 0) 0) (\<lambda>c.
        let st = StudentStatus_of (word_of_int (int_data c)) in
        if \<not> is_passed st then throw_http (HttpException_code_msg 200 403 ''status must be passed.'') s
        else
          call_sql env ''update_leave_info_status'' [PInt note_id, PInt (sint (status (st\<lparr>st_destroyed := True\<rparr>)))] s
            (\<lambda>_ s. Done s)))))))"

text \<open>The decision of one of the two teachers; the first error is thrown.\<close>

definition decide :: "bool \<Rightarrow> i32 \<Rightarrow> json jresult \<Rightarrow> i32 jresult" where
  "decide mine field verdict =
     (if \<not> mine then Inr field
      else if field \<noteq> PendingApproval
      then Inl (HttpExc (HttpException_code_msg 200 403 ''status must be pending approval.''))
      else res_bind verdict (\<lambda>v. res_bind (get_bool v) (\<lambda>b. Inr (if b then Passed else Rejection))))"

definition app_approval :: "'d env \<Rightarrow> 'd handler_fun" where
  "app_approval env s =
     (let j = req_json s in
      or_throw s (the_string j ''user'') (\<lambda>user.
      or_throw s (TestJsonParam j [''note_id'', ''status'']) (\<lambda>_.
      or_throw s (the_int j ''note_id'') (\<lambda>note_id.
      call_sql env ''select_leave_status_teachers'' [PInt note_id] s (\<lambda>db_res s.
      if length db_res \<noteq> 1 then throw_http (HttpException_msg 404 ''Not found this leave.'') s
      else
        or_throw s (cols (db_res ! 0) 3) (\<lambda>r.
        let st = StudentStatus_of (word_of_int (int_data (r ! 0)));
            instructor = (user = text_data (r ! 1)); mentor = (user = text_data (r ! 2)) in
        if \<not> instructor \<and> \<not> mentor then throw_http (HttpException_msg 403 ''No permissions, you must be leave's teacher.'') s
        else
          or_throw s (decide instructor (st_instructor st) (jat j ''status'')) (\<lambda>i.
          or_throw s (decide mentor (st_mentor st) (jat j ''status'')) (\<lambda>m.
          call_sql env ''update_leave_info_status''
            [PInt note_id, PInt (sint (status (st\<lparr>st_instructor := i, st_mentor := m\<rparr>)))] s (\<lambda>_ s. Done s)))))))))"

section \<open>Searching\<close>

definition leave_rows :: "'d env \<Rightarrow> string \<Rightarrow> 'd hstate \<Rightarrow> (sqlite3_data list list \<Rightarrow> 'd hstate \<Rightarrow> 'd hstate outcome) \<Rightarrow>
    'd hstate outcome" where
  "leave_rows env user s k =
     (if is_teacher user then
        call_sql env ''select_leave_info_instructor'' [PText user] s (\<lambda>rows s.
        if rows = [] then call_sql env ''select_leave_info_mentor'' [PText user] s k else k rows s)
      else call_sql env ''select_leave_info_student'' [PText user] s k)"

definition leave_json :: "sqlite3_data list \<Rightarrow> json" where
  "leave_json r = jobject [(''inform_id'', jint (r ! 0)), (''student_id'', jtext (r ! 1)), (''mentor_id'', jtext (r ! 2)),
     (''instructor_id'', jtext (r ! 3)), (''leave_type'', jtext (r ! 4)), (''leave_reason'', jtext (r ! 5)),
     (''time_begin'', jtext (r ! 6)), (''time_end'', jtext (r ! 7)), (''is_school'', JBool (int_data (r ! 8) \<noteq> 0)),
     (''status'', jint (r ! 9))]"

text \<open>The loop over the rows of a page; the comparison with the number of rows is unsigned.\<close>

definition page_rows :: "int \<Rightarrow> int \<Rightarrow> 'a list \<Rightarrow> 'a list" where
  "page_rows bg ed rows = (if bg < 0 then [] else take (nat (ed - bg)) (drop (nat bg) rows))"

definition page_bounds :: "json \<Rightarrow> (int \<times> int) jresult" where
  "page_bounds j =
     (if jfind ''page'' j \<noteq> None \<and> jfind ''page'' j \<noteq> None then
        res_bind (the_int j ''page'') (\<lambda>page.
        res_bind (the_int j ''max_num'') (\<lambda>max_num. Inr (max 1 page, max 1 max_num)))
      else Inr (1, 50))"

definition app_search_leave :: "'d env \<Rightarrow> 'd handler_fun" where
  "app_search_leave env s =
     or_throw s (the_string (req_json s) ''user'') (\<lambda>user.
     or_throw s (page_bounds (req_json s)) (\<lambda>(page, max_num).
     leave_rows env user s (\<lambda>db_res s.
     or_throw s (chk_int ((page - 1) * max_num)) (\<lambda>bg.
     or_throw s (chk_int (page * max_num)) (\<lambda>ed.
     let rows = page_rows bg ed db_res in
     if \<exists>r \<in> set rows. length r < 10 then Thrown (CppExc OutOfBounds) s
     else throw_http (HttpException_body (jobject [(''data'', if rows = [] then JNull else JArr (map leave_json rows))])) s)))))"

definition app_search_leave_num :: "'d env \<Rightarrow> 'd handler_fun" where
  "app_search_leave_num env s =
     or_throw s (the_string (req_json s) ''user'') (\<lambda>user.
     leave_rows env user s (\<lambda>db_res s.
     throw_http (HttpException_body (jobject [(''num'', JInt (int (length db_res)))])) s))"


section \<open>Tables, statements and routes\<close>

definition unlines :: "string list \<Rightarrow> string" where
  "unlines ls = concat (map (\<lambda>l. l @ [CHR 0x0A]) ls)"

definition students_SQL :: string where
  "students_SQL = unlines [''CREATE TABLE IF NOT EXISTS students ('', ''  id TEXT PRIMARY KEY,'', ''  name TEXT NOT NULL,'',
     ''  specialty TEXT NOT NULL,'', ''  class INTEGER NOT NULL,'', ''  sex TEXT NOT NULL,'', ''  tel TEXT NOT NULL,'',
     ''  password TEXT NOT NULL,'', ''  instructor_id TEXT NOT NULL,'', ''  mentor_id TEXT NOT NULL''] @ '')''"

definition teachers_SQL :: string where
  "teachers_SQL = unlines [''CREATE TABLE IF NOT EXISTS teachers ('', ''  id TEXT PRIMARY KEY,'', ''  name TEXT NOT NULL,'',
     ''  sex TEXT NOT NULL,'', ''  age INTEGER,'', ''  tel TEXT,'', ''  password TEXT NOT NULL''] @ '')''"

definition leave_info_SQL :: string where
  "leave_info_SQL = unlines [''CREATE TABLE IF NOT EXISTS leave_info('', ''  inform_id INTEGER PRIMARY KEY AUTOINCREMENT,'',
     ''  student_id TEXT NOT NULL,'', ''  mentor_id TEXT NOT NULL,'', ''  instructor_id TEXT NOT NULL,'',
     ''  leave_type TEXT NOT NULL,'', ''  leave_reason TEXT NOT NULL,'', ''  time_begin TEXT NOT NULL,'',
     ''  time_end TEXT NOT NULL,'', ''  is_school INTEGER NOT NULL,'', ''  status INTEGER NOT NULL''] @ '')''"

definition app_statements :: "(string \<times> string) list" where
  "app_statements = [
     (''insert_student'', ''INSERT INTO students(id, name, specialty, class, sex, tel, password, instructor_id, mentor_id)'' @
        ''VALUES (?1, ?2, ?3, ?4, ?5, ?6, ?7, ?8, ?9)''),
     (''insert_teacher'', ''INSERT INTO teachers(id, name, sex, age, tel, password)'' @ ''VALUES (?1, ?2, ?3, ?4, ?5, ?6)''),
     (''insert_leave_info'', ''INSERT INTO leave_info(student_id, mentor_id, instructor_id, leave_type, leave_reason, time_begin, time_end, is_school, status)'' @
        ''VALUES (?1, ?2, ?3, ?4, ?5, ?6, ?7, ?8, ?9)''),
     (''student_info'', ''SELECT * FROM students WHERE id = ?1''),
     (''student_password'', ''SELECT password FROM students WHERE id = ?1''),
     (''teacher_info'', ''SELECT * FROM teachers WHERE id = ?1''),
     (''teacher_password'', ''SELECT password FROM teachers WHERE id = ?1''),
     (''select_leave_status'', ''SELECT status FROM leave_info WHERE inform_id = ?1''),
     (''select_leave_status_teachers'', ''SELECT status, instructor_id, mentor_id FROM leave_info WHERE inform_id = ?1''),
     (''update_leave_info_status'', ''UPDATE leave_info SET status = ?2 WHERE inform_id = ?1''),
     (''select_leave_info_instructor'', ''SELECT * FROM leave_info WHERE instructor_id = ?1''),
     (''select_leave_info_mentor'', ''SELECT * FROM leave_info WHERE mentor_id = ?1''),
     (''select_leave_info_student'', ''SELECT * FROM leave_info WHERE student_id = ?1'')]"

definition load_table :: "'d sqlite_api \<Rightarrow> string \<Rightarrow> string \<Rightarrow> 'd world \<Rightarrow> 'd world option" where
  "load_table api name sql w = map_option snd (SQL api sql (SYSTEM (''Load table '' @ name) w))"

definition DataBaseInit :: "'d sqlite_api \<Rightarrow> sqlite \<Rightarrow> 'd world \<Rightarrow> (sqlite \<times> 'd world) option" where
  "DataBaseInit api s w =
     Option.bind (load_table api ''students'' students_SQL w) (\<lambda>w.
     Option.bind (load_table api ''teachers'' teachers_SQL w) (\<lambda>w.
     Option.bind (load_table api ''leave_info'' leave_info_SQL w) (\<lambda>w.
     Some (foldl (\<lambda>(s, w) (n, sql). BindCompiledSQL api n sql s w) (s, w) app_statements))))"

text \<open>The routes behind a token.\<close>

definition app_routes :: "(string \<times> ('d env \<Rightarrow> 'd handler_fun)) list" where
  "app_routes =
     [(''/self'', app_self), (''/leave'', app_leave), (''/release'', app_release),
      (''/student_info'', app_student_info), (''/search_leave'', app_search_leave),
      (''/search_leave_num'', app_search_leave_num), (''/approval'', app_approval)]"

definition app_server :: "'d env \<Rightarrow> int \<Rightarrow> 'd server" where
  "app_server env port =
     (let srv = ProcessBind (app_process_exception env)
            (StaticPath ''./static'' (Listen '''' port (Server_new ServerConfig_default)));
          guarded = (\<lambda>p f. Bind_list p [app_token_parse env, final (f env)])
      in foldl (\<lambda>srv (p, f). guarded p f srv) (Bind_list ''/login'' [final (app_login env)] srv) app_routes)"

text \<open>The environment whose database is the wrapper of SQLite, for a library whose statements end.\<close>

definition with_sqlite :: "'d sqlite_api \<Rightarrow> sqlite \<Rightarrow> 'd world env \<Rightarrow> 'd world env" where
  "with_sqlite api s env = env\<lparr>env_call := (\<lambda>n ps w. case CallCompiledSQL api s n ps w of Some r \<Rightarrow> r | None \<Rightarrow> ([], w))\<rparr>"

section \<open>Init, start and stop\<close>

text \<open>
  \<open>app_host\<close> is the server; its handler appears when the thread that \<open>Start\<close> created has got that
  far.  A failed assertion leaves the process: \<open>None\<close>.
\<close>

record ('d, 'k) app =
  is_init :: bool
  is_start :: bool
  app_host :: "('d, 'k) host option"

definition App_new :: "('d, 'k) app" where
  "App_new = \<lparr>is_init = False, is_start = False, app_host = None\<rparr>"

definition App_Init :: "'d sqlite_api \<Rightarrow> 'd world env \<Rightarrow> int \<Rightarrow> string \<Rightarrow> ('d world, 'k) app \<Rightarrow> 'd world \<Rightarrow>
    (('d world, 'k) app \<times> 'd world) option" where
  "App_Init api env port db_name a w =
     (case Sqlite3_new api db_name w of
        (None, w) \<Rightarrow> None
      | (Some db, w) \<Rightarrow>
          Option.bind (DataBaseInit api db w) (\<lambda>(db, w).
          Some (a\<lparr>app_host := Some \<lparr>hst_server = app_server (with_sqlite api db env) port, hst_handler = None\<rparr>,
                  is_init := True\<rparr>, w)))"

definition App_Start :: "('d, 'k) app \<Rightarrow> 'k world \<Rightarrow> (bool \<times> ('d, 'k) app \<times> 'k world) option" where
  "App_Start a w =
     (if \<not> is_init a then None
      else if is_start a then Some (False, a, WARNING ''http server have been started!'' w)
      else Some (True, a\<lparr>is_start := True\<rparr>, w))"

definition App_Stop :: "'k sys \<Rightarrow> ('d, 'k) app \<Rightarrow> 'k world \<Rightarrow> (('d, 'k) app \<times> 'k world) result" where
  "App_Stop os a w =
     (if \<not> is_start a then Inr (a, WARNING ''http server have been stop!'' w)
      else
        res_bind (deref (app_host a)) (\<lambda>h.
        res_bind (Server_Stop os h) (\<lambda>(h, lp).
        Inr (a\<lparr>app_host := Some h, is_start := False\<rparr>, lp_world lp))))"

end
