(* ===== verification/Student_Route.thy ===== *)
theory Student_Route
  imports Student_App
begin

text \<open>
  How a request gets through the application: the layer that answers exceptions, the layer that
  reads the token, and the handler of the route.  The state of the handlers is the database, so
  the lemmas say which requests can touch it at all.
\<close>

section \<open>Outcomes\<close>

text \<open>The state in which a handler ended.\<close>

definition final_state :: "'s outcome \<Rightarrow> 's" where
  "final_state r = (case r of Done s \<Rightarrow> s | Thrown e s \<Rightarrow> s)"

lemma final_state_simps [simp]: "final_state (Done s) = s" "final_state (Thrown e s) = s"
  "final_state (throw_http ex s) = s"
  by (simp_all add: final_state_def throw_http_def)

lemma or_throw_simps: "or_throw s (Inr x) k = k x" "or_throw s (Inl e) k = Thrown e s"
  by (simp_all add: or_throw_def)

lemma json_answer_app: "hs_app (final_state (json_answer env code body s)) = hs_app s"
  by (auto simp: json_answer_def or_throw_def Let_def split: sum.splits prod.splits)

lemma json_answer_code: "json_answer env code body s = Done s' \<Longrightarrow> res_code (hs_resp s') = code"
  by (auto simp: json_answer_def or_throw_def Let_def SetJsonType_def SetType_def SetHeader_def set_code_def
      BodyData_def split: sum.splits prod.splits)

lemma catch_all_app: "hs_app (final_state (catch_all env r)) = hs_app (final_state r)"
  by (auto simp: catch_all_def json_answer_app split: outcome.splits exn.splits)

lemma answer_ok_app: "hs_app (final_state (answer_ok env r)) = hs_app (final_state r)"
  by (auto simp: answer_ok_def json_answer_app split: outcome.splits)

section \<open>The chain of a route\<close>

lemma next_func_login:
  "a s = CallNext s1 k \<Longrightarrow> (\<And>r. k r = Stop (g r)) \<Longrightarrow>
   \<exists>ix. next_func [a] [final f] s chain_start = Some (g (f s1), ix) \<and> warnings ix = 0"
  by (subst next_func.simps, simp add: chain_start_def) (subst next_func.simps, simp add: final_def)

lemma next_func_stop:
  "a s = Stop r \<Longrightarrow> \<exists>ix. next_func [a] fs s chain_start = Some (r, ix) \<and> warnings ix = 0"
  by (subst next_func.simps) (simp add: chain_start_def)

lemma next_func_refused:
  "a s = CallNext s1 k \<Longrightarrow> (\<And>r. k r = Stop (g r)) \<Longrightarrow> b s1 = Stop r \<Longrightarrow>
   \<exists>ix. next_func [a] [b, c] s chain_start = Some (g r, ix) \<and> warnings ix = 0"
  by (subst next_func.simps, simp add: chain_start_def) (subst next_func.simps, simp)

lemma next_func_guarded:
  "a s = CallNext s1 k \<Longrightarrow> (\<And>r. k r = Stop (g r)) \<Longrightarrow> b s1 = CallNext s2 Stop \<Longrightarrow>
   \<exists>ix. next_func [a] [b, final f] s chain_start = Some (g (f s2), ix) \<and> warnings ix = 0"
  by (subst next_func.simps, simp add: chain_start_def) (subst next_func.simps, simp, subst next_func.simps, simp add: final_def)

text \<open>The handlers of every path.\<close>

lemma app_process: "srv_process_handles (app_server env port) = [app_process_exception env]"
  by (simp add: app_server_def app_routes_def Bind_list_def Bind_def ProcessBind_def StaticPath_def Listen_def Server_new_def Let_def)

lemma app_handlers:
  "srv_handlers (app_server env port) p =
    (if p = ''/login'' then Some [final (app_login env)]
     else map_option (\<lambda>f. [app_token_parse env, final (f env)]) (map_of app_routes p))"
  by (simp add: app_server_def app_routes_def Bind_list_def Bind_def ProcessBind_def StaticPath_def Listen_def Server_new_def Let_def)

section \<open>The guard\<close>

text \<open>What the two layers let through: the body of the request with the user of its token in it.\<close>

definition request_json :: "'d env \<Rightarrow> request \<Rightarrow> string + json" where
  "request_json env req = (if req_is_json req then env_parse env (req_body req) else Inr (req_body_json req))"

definition token_user :: "'d env \<Rightarrow> json \<Rightarrow> string option" where
  "token_user env j =
     (case jfind ''token'' j of
        Some (JStr tok) \<Rightarrow>
          (case Token_parse (env_stack env) (env_mktime env) (env_now env) tok kTokenKey of
             Inr t \<Rightarrow> if is_useful t \<and> is_in_time t then Some (user_id t) else None
           | Inl e \<Rightarrow> None)
      | _ \<Rightarrow> None)"

definition authorised :: "'d env \<Rightarrow> request \<Rightarrow> (string \<times> json) option" where
  "authorised env req =
     (if req_method req \<noteq> ''POST'' then None
      else case request_json env req of
        Inl e \<Rightarrow> None
      | Inr j \<Rightarrow> Option.bind (token_user env j) (\<lambda>u. case jset ''user'' (JStr u) j of Inr j' \<Rightarrow> Some (u, j') | Inl e \<Rightarrow> None))"

definition refused :: "'d hstate outcome \<Rightarrow> 'd \<Rightarrow> bool" where
  "refused r app \<longleftrightarrow> hs_app (final_state r) = app \<and> (\<forall>s. r = Done s \<longrightarrow> res_code (hs_resp s) \<in> {300, 403, 405})"

definition start_state :: "request \<Rightarrow> content_types \<Rightarrow> 'd \<Rightarrow> 'd hstate" where
  "start_state req types app = \<lparr>hs_req = req, hs_resp = Response_default, hs_types = types, hs_app = app\<rparr>"

lemma process_exception_cases:
  "app_process_exception env s =
    (if req_method (hs_req s) \<noteq> ''POST''
     then Stop (catch_all env (throw_http (HttpException_msg 405 ''Method Not Allowed, you must use POST method'') s))
     else case request_json env (hs_req s) of
       Inl what \<Rightarrow> Stop (catch_all env (Thrown (JsonExc what) s))
     | Inr j \<Rightarrow> CallNext (s\<lparr>hs_req := (hs_req s)\<lparr>req_body_json := j\<rparr>\<rparr>) (\<lambda>r. Stop (catch_all env (answer_ok env r))))"
  by (simp add: app_process_exception_def request_json_def req_json_def)

lemma token_parse_some:
  assumes "token_user env (req_json s) = Some u"
  shows "\<exists>j. jset ''user'' (JStr u) (req_json s) = Inr j \<and>
    app_token_parse env s = CallNext (s\<lparr>hs_req := (hs_req s)\<lparr>req_body_json := j\<rparr>\<rparr>) Stop"
  using assms
  by (auto simp: token_user_def app_token_parse_def Let_def get_string_def cpp_def jset_def jfind_def
      split: option.splits json.splits sum.splits if_splits)

lemma token_parse_none:
  assumes "token_user env (req_json s) = None"
  shows "\<exists>e. app_token_parse env s = Stop (Thrown e s) \<and> (\<forall>h. e = HttpExc h \<longrightarrow> he_base_code h = 403)"
  using assms
  by (auto simp: token_user_def app_token_parse_def Let_def get_string_def cpp_def throw_http_def type_error_def
      HttpException_msg_def HttpException_code_msg_def HttpException_def
      split: option.splits json.splits sum.splits if_splits)

lemma catch_refused:
  "(\<forall>h. e = HttpExc h \<longrightarrow> he_base_code h \<in> {403, 405}) \<Longrightarrow> refused (catch_all env (Thrown e s)) (hs_app s)"
  unfolding refused_def catch_all_app
  by (auto simp: catch_all_def split: exn.splits if_splits dest!: json_answer_code)

section \<open>Requests on the routes\<close>

text \<open>What \<open>Handle\<close> gives for a route behind a token.\<close>

definition with_json :: "json \<Rightarrow> 'd hstate \<Rightarrow> 'd hstate" where
  "with_json j s = s\<lparr>hs_req := (hs_req s)\<lparr>req_body_json := j\<rparr>\<rparr>"

lemma with_json_simps [simp]: "hs_app (with_json j s) = hs_app s" "req_json (with_json j s) = j"
  "hs_req (with_json j s) = (hs_req s)\<lparr>req_body_json := j\<rparr>" "with_json j (with_json j' s) = with_json j s"
  by (simp_all add: with_json_def req_json_def)

lemma start_state_simps [simp]: "hs_req (start_state req types app) = req" "hs_app (start_state req types app) = app"
  by (simp_all add: start_state_def)

lemma handle_routed:
  "srv_handlers srv (path req) = Some fs \<Longrightarrow>
   Handle srv regular fsys req types app = Option.bind (next_func (srv_process_handles srv) fs (start_state req types app) chain_start)
     (\<lambda>(r, ix). Some (r, warnings ix))"
  by (simp add: Handle_def start_state_def)

lemma handle_guarded:
  assumes "path req \<noteq> ''/login''" "map_of app_routes (path req) = Some f"
  shows "\<exists>r. Handle (app_server env port) regular fs req types app = Some (r, 0) \<and>
     (case authorised env req of
        None \<Rightarrow> refused r app
      | Some (u, j) \<Rightarrow> r = catch_all env (answer_ok env (f env (with_json j (start_state req types app)))))"
proof -
  define s where "s = start_state req types app"
  define P where "P = next_func [app_process_exception env] [app_token_parse env, final (f env)] s chain_start"
  have H: "Handle (app_server env port) regular fs req types app = Option.bind P (\<lambda>(r, ix). Some (r, warnings ix))"
    using assms by (subst handle_routed [of _ _ "[app_token_parse env, final (f env)]"])
      (simp_all add: app_handlers app_process P_def s_def)
  have go: ?thesis if "P = Some (r, ix)" "warnings ix = 0" and
    "case authorised env req of None \<Rightarrow> refused r app
      | Some (u, j) \<Rightarrow> r = catch_all env (answer_ok env (f env (with_json j s)))" for r ix
    unfolding s_def [symmetric] using that H by simp
  note pe = process_exception_cases [of env s]
  have rs: "hs_req s = req" "hs_app s = app" by (simp_all add: s_def)
  show ?thesis
  proof (cases "req_method req = ''POST''")
    case False
    define r where "r = catch_all env (throw_http (HttpException_msg 405 ''Method Not Allowed, you must use POST method'') s)"
    have "app_process_exception env s = Stop r" using False pe by (simp add: rs r_def)
    moreover have "refused r app"
      using catch_refused [of "HttpExc (HttpException_msg 405 ''Method Not Allowed, you must use POST method'')" env s]
      by (simp add: r_def throw_http_def rs HttpException_msg_def HttpException_code_msg_def HttpException_def)
    ultimately show ?thesis
      using next_func_stop [of "app_process_exception env" s r "[app_token_parse env, final (f env)]"] False go
      by (auto simp: P_def authorised_def)
  next
    case post: True
    show ?thesis
    proof (cases "request_json env req")
      case (Inl what)
      define r where "r = catch_all env (Thrown (JsonExc what) s)"
      have "app_process_exception env s = Stop r" using post pe Inl by (simp add: rs r_def)
      moreover have "refused r app" using catch_refused [of "JsonExc what" env s] by (simp add: r_def rs)
      ultimately show ?thesis
        using next_func_stop [of "app_process_exception env" s r "[app_token_parse env, final (f env)]"] post Inl go
        by (auto simp: P_def authorised_def)
    next
      case (Inr j)
      have a: "app_process_exception env s = CallNext (with_json j s) (\<lambda>r. Stop (catch_all env (answer_ok env r)))"
        using post pe Inr by (simp add: rs with_json_def)
      show ?thesis
      proof (cases "token_user env j")
        case None
        then obtain e where e: "app_token_parse env (with_json j s) = Stop (Thrown e (with_json j s))"
          "\<forall>h. e = HttpExc h \<longrightarrow> he_base_code h = 403"
          using token_parse_none [of env "with_json j s"] by auto
        have "refused (catch_all env (answer_ok env (Thrown e (with_json j s)))) app"
          using catch_refused [of e env "with_json j s"] e(2) by (simp add: answer_ok_def rs)
        then show ?thesis
          using next_func_refused [where a = "app_process_exception env" and s = s and b = "app_token_parse env", OF a refl e(1), where c = "final (f env)"] post Inr None go
          by (auto simp: P_def authorised_def)
      next
        case (Some u)
        then obtain j' where j': "jset ''user'' (JStr u) j = Inr j'"
          "app_token_parse env (with_json j s) = CallNext (with_json j' s) Stop"
          using token_parse_some [of env "with_json j s" u] by (auto simp: with_json_def req_json_def)
        then show ?thesis
          using next_func_guarded [where a = "app_process_exception env" and s = s and b = "app_token_parse env", OF a refl j'(2), where f = "f env"] post Inr Some go
          by (auto simp: P_def authorised_def)
      qed
    qed
  qed
qed

lemma authorised_user: "authorised env req = Some (u, j) \<Longrightarrow> the_string j ''user'' = Inr u"
  by (auto simp: authorised_def the_string_def jset_def jat_def get_string_def
      split: if_splits sum.splits json.splits Option.bind_splits option.splits) 

text \<open>Logging in needs no token.\<close>

lemma handle_login:
  assumes "path req = ''/login''"
  shows "\<exists>r s. Handle (app_server env port) regular fs req types app = Some (r, 0) \<and> hs_app s = app \<and>
     (hs_app (final_state r) = app \<or> hs_app (final_state r) = hs_app (final_state (app_login env s)))"
proof -
  define s where "s = start_state req types app"
  have H: "Handle (app_server env port) regular fs req types app =
      Option.bind (next_func [app_process_exception env] [final (app_login env)] s chain_start) (\<lambda>(r, ix). Some (r, warnings ix))"
    using assms by (subst handle_routed [of _ _ "[final (app_login env)]"]) (simp_all add: app_handlers app_process s_def)
  have rs: "hs_req s = req" "hs_app s = app" by (simp_all add: s_def)
  show ?thesis
  proof (cases "\<exists>r. app_process_exception env s = Stop r")
    case True
    then obtain r where r: "app_process_exception env s = Stop r" by blast
    then have "hs_app (final_state r) = app"
      using rs by (auto simp: process_exception_cases catch_all_app split: if_splits sum.splits)
    then show ?thesis using next_func_stop [of "app_process_exception env" s, OF r, of "[final (app_login env)]"] H rs by auto
  next
    case False
    then obtain j where a: "app_process_exception env s = CallNext (with_json j s) (\<lambda>r. Stop (catch_all env (answer_ok env r)))"
      using rs by (auto simp: process_exception_cases with_json_def split: if_splits sum.splits)
    show ?thesis
      using next_func_login [where a = "app_process_exception env" and s = s, OF a refl, where f = "app_login env"] H rs
      by (auto simp: catch_all_app answer_ok_app intro!: exI [of _ "with_json j s"])
  qed
qed

text \<open>Every other path is a file or not found.\<close>

lemma handle_unrouted:
  assumes "srv_handlers (app_server env port) (path req) = None"
    and "Handle (app_server env port) regular fs req types app = Some (r, n)"
  shows "hs_app (final_state r) = app"
  using assms by (auto simp: Handle_def Let_def split: option.splits prod.splits)

lemma handle_app_cases:
  fixes env :: "'a env"
  assumes "Handle (app_server env port) regular fs req types app = Some (r, n)"
  obtains "hs_app (final_state r) = app"
  | s where "hs_app s = app" "hs_app (final_state r) = hs_app (final_state (app_login env s))"
  | p f s where "(p, f) \<in> set app_routes" "hs_app s = app" "hs_app (final_state r) = hs_app (final_state (f env s))"
proof (cases "path req = ''/login''")
  case True
  then show ?thesis using handle_login [OF True, of env port regular fs types app] assms that(1,2) by auto
next
  case False
  show ?thesis
  proof (cases "map_of (app_routes :: (string \<times> ('a env \<Rightarrow> 'a handler_fun)) list) (path req)")
    case None
    then show ?thesis using handle_unrouted [OF _ assms] False that(1) by (simp add: app_handlers)
  next
    case (Some f)
    show ?thesis
      using handle_guarded [OF False Some, of env port regular fs types app] assms that(1) that(3) [of "path req" f] map_of_SomeD [OF Some]
      by (auto simp: refused_def catch_all_app answer_ok_app split: option.splits)
        (metis start_state_simps(2) with_json_simps(1))
  qed
qed

lemma app_routes_distinct: "(p, f) \<in> set app_routes \<Longrightarrow> p \<noteq> ''/login'' \<and> map_of app_routes p = Some f"
  by (auto simp: app_routes_def)

text \<open>
  C2: The routes behind a token are guarded: whatever the clock, the files and the database, a request for
  one of them that is no POST, whose body is no JSON, or that has no token that is useful and in time
  leaves the database alone, and what it is answered with has the code 300, 403 or 405; every other
  request runs the handler of its route, on its body with the user of the token as its user, whatever
  user the body named.
\<close>

theorem guarded_routes:
  assumes "(path req, f) \<in> set app_routes"
  shows "\<exists>r. Handle (app_server env port) regular fs req types app = Some (r, 0) \<and>
     (case authorised env req of
        None \<Rightarrow> refused r app
      | Some (u, j) \<Rightarrow> the_string j ''user'' = Inr u \<and>
          r = catch_all env (answer_ok env (f env (with_json j (start_state req types app)))))"
  using handle_guarded [of req f env port regular fs types app] app_routes_distinct [OF assms] authorised_user [of env req]
  by (auto split: option.splits)

end
