(* ===== verification/Student_Spec.thy ===== *)
theory Student_Spec
  imports Student_Route
begin

text \<open>
  What the leave management does: the status word, the life of a leave, who may change it, the pages
  of a search, the answers to errors and the routes behind a token.
\<close>

section \<open>The status word\<close>

definition status_ok :: "StudentStatus \<Rightarrow> bool" where
  "status_ok s \<longleftrightarrow> st_instructor s < 4 \<and> st_mentor s < 4"

lemma small_take_bit: "(x :: i32) < 4 \<longleftrightarrow> take_bit 2 x = x"
proof -
  have "x < 4 \<longleftrightarrow> unat x < 4" by (simp add: word_less_nat_alt)
  also have "\<dots> \<longleftrightarrow> take_bit 2 (unat x) = unat x" by (simp add: take_bit_nat_eq_self_iff)
  also have "\<dots> \<longleftrightarrow> take_bit 2 x = x" by (simp add: word_unat_eq_iff unsigned_take_bit_eq)
  finally show ?thesis .
qed

lemma small_bits: "(x :: i32) < 4 \<Longrightarrow> bit x n \<Longrightarrow> n < 2"
  by (metis small_take_bit bit_take_bit_iff)

lemma and_masks: "0x03 AND (w :: i32) = take_bit 2 w" "w AND 0x1F = take_bit 5 w"
proof -
  have m: "(0x03 :: i32) = mask 2" "(0x1F :: i32) = mask 5" by (simp_all add: mask_eq_exp_minus_1)
  show "0x03 AND w = take_bit 2 w" "w AND 0x1F = take_bit 5 w"
    unfolding m by (simp_all add: take_bit_eq_mask and.commute)
qed

lemma destroyed_bit: "(0x01 AND signed_drop_bit 4 (w :: i32) \<noteq> 0) = bit w 4"
proof -
  have "(0x01 AND signed_drop_bit 4 w \<noteq> 0) = bit (signed_drop_bit 4 w) 0"
    by (simp add: one_and_eq bit_0 flip: odd_iff_mod_2_eq_one)
  then show ?thesis by (simp add: bit_signed_drop_bit_iff)
qed

lemma status_of_status:
  assumes "status_ok s"
  shows "StudentStatus_of (status s) = s"
proof -
  have b: "\<not> bit (st_instructor s) n" "\<not> bit (st_mentor s) n" if "2 \<le> n" for n
    using assms small_bits that by (auto simp: status_ok_def not_less [symmetric])
  have "0x03 AND status s = st_instructor s"
    unfolding and_masks by (rule bit_eqI) (auto simp: status_def bit_simps b)
  moreover have "0x03 AND signed_drop_bit 2 (status s) = st_mentor s"
    unfolding and_masks by (rule bit_eqI) (auto simp: status_def bit_simps b, (metis b(2) not_less)+)
  moreover have "bit (status s) 4 = st_destroyed s"
    by (auto simp: status_def bit_simps b)
  ultimately show ?thesis by (simp add: StudentStatus_of_def destroyed_bit)
qed


lemma status_ok_of: "status_ok (StudentStatus_of w)"
  by (simp add: status_ok_def StudentStatus_of_def and_masks small_take_bit)

lemma status_status_of: "status (StudentStatus_of w) = w AND 0x1F"
proof -
  have "bit (status (StudentStatus_of w)) n \<longleftrightarrow> n < 32 \<and> bit w n \<and> n < 5" for n
  proof -
    have "n = 0 \<or> n = 1 \<or> n = 2 \<or> n = 3 \<or> n = 4 \<or> 5 \<le> n" by linarith
    then show ?thesis
      unfolding status_def StudentStatus_of_def and_masks destroyed_bit
      by (auto simp: bit_simps destroyed_bit) (simp_all add: numeral_2_eq_2 numeral_3_eq_3)
  qed
  then show ?thesis unfolding and_masks by (intro bit_eqI) (auto simp: bit_take_bit_iff)
qed

lemma junior_status:
  "st_mentor (set_junior True StudentStatus_default) = Passed" "status (set_junior True StudentStatus_default) = 4"
  "set_junior False StudentStatus_default = StudentStatus_default"
  by (simp_all add: set_junior_def StudentStatus_default_def PendingApproval_def Passed_def status_def)

text \<open>
  C34: The status word is a faithful encoding: decoding what was encoded gives the same fields (for the
  two-bit values the casts produce), encoding what was decoded gives the low five bits of the word;
  and because the flag for students who have not graduated shares its storage with the mentor's
  decision, setting it on a new leave records that the mentor has passed it.
\<close>

theorem status_codec:
  "(status_ok s \<longrightarrow> StudentStatus_of (status s) = s) \<and> status_ok (StudentStatus_of w) \<and>
   status (StudentStatus_of w) = w AND 0x1F \<and>
   st_mentor (set_junior True StudentStatus_default) = Passed \<and> status (set_junior True StudentStatus_default) = 4 \<and>
   set_junior False StudentStatus_default = StudentStatus_default"
  using status_of_status status_ok_of status_status_of by (simp add: junior_status)

theorem status_codec_witness:
  "\<exists>s. status_ok s \<and> st_instructor s = Rejection \<and> st_destroyed s \<and> StudentStatus_of (status s) = s"
  by (rule exI [of _ "\<lparr>st_instructor = Rejection, st_mentor = Passed, st_destroyed = True\<rparr>"])
    (use status_codec [of "\<lparr>st_instructor = Rejection, st_mentor = Passed, st_destroyed = True\<rparr>" 0]
      in \<open>simp add: status_ok_def Rejection_def Passed_def\<close>)

section \<open>The life of a leave\<close>

text \<open>
  A leave starts undecided, its mentor's part passed for a student who has not graduated; each of the
  two teachers decides once (in one step if they are the same person); a passed leave is released.
\<close>

inductive leave_step :: "StudentStatus \<Rightarrow> StudentStatus \<Rightarrow> bool" where
  by_instructor: "st_instructor s = PendingApproval \<Longrightarrow> v \<in> {Passed, Rejection} \<Longrightarrow> leave_step s (s\<lparr>st_instructor := v\<rparr>)"
| by_mentor: "st_mentor s = PendingApproval \<Longrightarrow> v \<in> {Passed, Rejection} \<Longrightarrow> leave_step s (s\<lparr>st_mentor := v\<rparr>)"
| by_both: "st_instructor s = PendingApproval \<Longrightarrow> st_mentor s = PendingApproval \<Longrightarrow> v \<in> {Passed, Rejection} \<Longrightarrow>
    leave_step s (s\<lparr>st_instructor := v, st_mentor := v\<rparr>)"
| released: "is_passed s \<Longrightarrow> leave_step s (s\<lparr>st_destroyed := True\<rparr>)"

inductive leave_reach :: "StudentStatus \<Rightarrow> bool" where
  leave_new: "leave_reach (set_junior b StudentStatus_default)"
| leave_next: "leave_reach s \<Longrightarrow> leave_step s s' \<Longrightarrow> leave_reach s'"

inductive_cases leave_stepE: "leave_step s s'"

lemmas status_codes = PendingApproval_def Passed_def Rejection_def

lemma leave_reach_inv:
  "leave_reach s \<Longrightarrow> st_instructor s \<in> {PendingApproval, Passed, Rejection} \<and>
     st_mentor s \<in> {PendingApproval, Passed, Rejection} \<and>
     (st_destroyed s \<longrightarrow> st_instructor s = Passed \<and> st_mentor s = Passed)"
proof (induction rule: leave_reach.induct)
  case (leave_new b)
  show ?case by (simp add: set_junior_def StudentStatus_default_def status_codes)
next
  case (leave_next s s')
  from leave_next(2,3) show ?case
    by (elim leave_stepE) (auto simp: is_passed_def status_codes)
qed

lemma leave_reach_ok: "leave_reach s \<Longrightarrow> status_ok s"
  using leave_reach_inv [of s] by (auto simp: status_ok_def status_codes)

lemma leave_reach_decode: "leave_reach s \<Longrightarrow> StudentStatus_of (word_of_int (sint (status s))) = s"
  using leave_reach_ok status_of_status by simp

text \<open>
  \<open>row_of\<close> gives the status and the two teachers of every leave in the database.  In a good table
  every status is one of a leave's life; a table has moved if at most one leave went a step further,
  with its teachers unchanged, or one leave was added at the start of its life.
\<close>

definition leaves_good :: "('d \<Rightarrow> int \<rightharpoonup> int \<times> string \<times> string) \<Rightarrow> 'd \<Rightarrow> bool" where
  "leaves_good row_of d \<longleftrightarrow> (\<forall>n r. row_of d n = Some r \<longrightarrow> (\<exists>x. leave_reach x \<and> fst r = sint (status x)))"

definition leave_moved :: "('d \<Rightarrow> int \<rightharpoonup> int \<times> string \<times> string) \<Rightarrow> 'd \<Rightarrow> 'd \<Rightarrow> bool" where
  "leave_moved row_of d d' \<longleftrightarrow> row_of d' = row_of d \<or>
     (\<exists>n x y i m. row_of d n = Some (sint (status x), i, m) \<and> leave_reach x \<and> leave_step x y \<and>
        row_of d' = (row_of d)(n \<mapsto> (sint (status y), i, m))) \<or>
     (\<exists>n x i m. row_of d n = None \<and> leave_reach x \<and> row_of d' = (row_of d)(n \<mapsto> (sint (status x), i, m)))"

text \<open>
  What the handlers rely on in the table of the leaves.  The selects read it, the update changes the
  status of one leave, the insert adds one or fails, and no other statement touches it.
\<close>

definition leave_writes :: "string set" where
  "leave_writes = {''insert_leave_info'', ''update_leave_info_status''}"

locale leave_table =
  fixes call :: "string \<Rightarrow> sql_param list \<Rightarrow> 'd \<Rightarrow> sqlite3_data list list \<times> 'd"
    and row_of :: "'d \<Rightarrow> int \<rightharpoonup> int \<times> string \<times> string"
  assumes select_status: "call ''select_leave_status'' [PInt n] d = (rows, d') \<Longrightarrow>
      (case row_of d n of None \<Rightarrow> rows = [] | Some (st, i, m) \<Rightarrow> (\<exists>c. rows = [[c]] \<and> int_data c = st))"
    and select_teachers: "call ''select_leave_status_teachers'' [PInt n] d = (rows, d') \<Longrightarrow>
      (case row_of d n of None \<Rightarrow> rows = [] | Some (st, i, m) \<Rightarrow>
         (\<exists>a b c. rows = [[a, b, c]] \<and> int_data a = st \<and> text_data b = i \<and> text_data c = m))"
    and update: "call ''update_leave_info_status'' [PInt n, PInt (sint (w :: i32))] d = (rows, d') \<Longrightarrow>
      row_of d' = (case row_of d n of None \<Rightarrow> row_of d | Some (st, i, m) \<Rightarrow> (row_of d)(n \<mapsto> (sint w, i, m)))"
    and insert_leave: "call ''insert_leave_info'' [p1, PText m, PText i, p4, p5, p6, p7, p8, PInt (sint (w :: i32))] d = (rows, d') \<Longrightarrow>
      row_of d' = row_of d \<or> (\<exists>n. row_of d n = None \<and> row_of d' = (row_of d)(n \<mapsto> (sint w, i, m)))"
    and reads: "call name ps d = (rows, d') \<Longrightarrow> name \<notin> leave_writes \<Longrightarrow> row_of d' = row_of d"
begin

abbreviation good :: "'d \<Rightarrow> bool" where "good \<equiv> leaves_good row_of"
abbreviation moved :: "'d \<Rightarrow> 'd \<Rightarrow> bool" where "moved \<equiv> leave_moved row_of"

lemma good_row: "good d \<Longrightarrow> row_of d n = Some (st, i, m) \<Longrightarrow> \<exists>x. leave_reach x \<and> st = sint (status x)"
  unfolding leaves_good_def by fastforce

lemma good_upd: "good d \<Longrightarrow> leave_reach x \<Longrightarrow> row_of d' = (row_of d)(n \<mapsto> (sint (status x), i, m)) \<Longrightarrow> good d'"
  unfolding leaves_good_def by (metis fst_conv fun_upd_apply option.inject)

lemma moved_good: "good d \<Longrightarrow> moved d d' \<Longrightarrow> good d'"
  unfolding leave_moved_def using good_upd leave_next by (metis leaves_good_def)

lemma moved_same: "row_of d' = row_of d \<Longrightarrow> moved d d'"
  by (simp add: leave_moved_def)

lemma moved_update:
  assumes "row_of d n = Some (sint (status x), i, m)" "leave_reach x" "leave_step x y" "row_of d1 = row_of d"
    and "call ''update_leave_info_status'' [PInt n, PInt (sint (status y))] d1 = (rows, d')"
  shows "moved d d'"
proof -
  have "row_of d' = (row_of d)(n \<mapsto> (sint (status y), i, m))"
    using update [OF assms(5)] assms(1,4) by simp
  with assms(1-3) show ?thesis unfolding leave_moved_def by blast
qed

text \<open>A handler keeps the table from \<open>d\<close> on if it ends at most one step further.\<close>

definition keeps :: "'d \<Rightarrow> 'd hstate outcome \<Rightarrow> bool" where
  "keeps d r \<longleftrightarrow> moved d (hs_app (final_state r))"

lemma keeps_throw: "row_of (hs_app s) = row_of d \<Longrightarrow> keeps d (throw_http e s)"
  by (simp add: keeps_def moved_same)

lemma keeps_or_throw:
  "row_of (hs_app s) = row_of d \<Longrightarrow> (\<And>x. r = Inr x \<Longrightarrow> keeps d (k x)) \<Longrightarrow> keeps d (or_throw s r k)"
  by (cases r) (simp_all add: or_throw_def keeps_def moved_same)

lemma keeps_call:
  "env_call env = call \<Longrightarrow> (\<And>rows d'. call n ps (hs_app s) = (rows, d') \<Longrightarrow> keeps d (k rows (s\<lparr>hs_app := d'\<rparr>))) \<Longrightarrow>
    keeps d (call_sql env n ps s k)"
  by (cases "call n ps (hs_app s)") (simp add: call_sql_def)

lemma keeps_update:
  assumes "env_call env = call" "row_of d n = Some (sint (status x), i, m)" "leave_reach x" "leave_step x y"
    and "row_of (hs_app s) = row_of d"
  shows "keeps d (call_sql env ''update_leave_info_status'' [PInt n, PInt (sint (status y))] s (\<lambda>_ s. Done s))"
  using moved_update [OF assms(2-5)] by (intro keeps_call [OF assms(1)]) (simp add: keeps_def)

text \<open>Releasing moves at most one leave, by the last step of its life.\<close>

lemma release_moves:
  assumes env: "env_call env = call" and g: "good (hs_app s)"
  shows "keeps (hs_app s) (app_release env s)"
  unfolding app_release_def Let_def
proof (intro keeps_or_throw keeps_call [OF env] refl)
  fix user u note_id rows d1
  assume c: "call ''select_leave_status'' [PInt note_id] (hs_app s) = (rows, d1)"
  have same: "row_of d1 = row_of (hs_app s)" using reads [OF c] by (simp add: leave_writes_def)
  show "keeps (hs_app s) (if length rows \<noteq> 1 then throw_http (HttpException_msg 404 ''Not found leave info'') (s\<lparr>hs_app := d1\<rparr>)
     else or_throw (s\<lparr>hs_app := d1\<rparr>) (col (rows ! 0) 0) (\<lambda>c.
        if \<not> is_passed (StudentStatus_of (word_of_int (int_data c)))
        then throw_http (HttpException_code_msg 200 403 ''status must be passed.'') (s\<lparr>hs_app := d1\<rparr>)
        else call_sql env ''update_leave_info_status''
          [PInt note_id, PInt (sint (status (StudentStatus_of (word_of_int (int_data c))\<lparr>st_destroyed := True\<rparr>)))]
          (s\<lparr>hs_app := d1\<rparr>) (\<lambda>_ s. Done s)))"
  proof (cases "length rows = 1")
    case False
    then show ?thesis using same by (simp add: keeps_throw)
  next
    case True
    then obtain st i m x where r: "row_of (hs_app s) note_id = Some (st, i, m)" "rows = [[x]]" "int_data x = st"
      using select_status [OF c] by (auto split: option.splits)
    then obtain y where y: "leave_reach y" "st = sint (status y)" using good_row g by metis
    have dec: "StudentStatus_of (word_of_int (int_data x)) = y" using leave_reach_decode [OF y(1)] r(3) y(2) by simp
    have s: "row_of (hs_app (s\<lparr>hs_app := d1\<rparr>)) = row_of (hs_app s)" using same by simp
    show ?thesis
    proof (cases "is_passed y")
      case False
      then show ?thesis using r(2) s by (simp add: or_throw_def col_def dec keeps_throw)
    next
      case True
      then show ?thesis
        using r(2) keeps_update [OF env _ y(1) released [OF True] s] r(1) y(2) by (simp add: or_throw_def col_def dec)
    qed
  qed
qed

text \<open>A decision is a step of the life of the leave, for one teacher or for both at once.\<close>

lemma decide_cases:
  "decide mine f verdict = Inr v \<Longrightarrow> \<not> mine \<and> v = f \<or> mine \<and> f = PendingApproval \<and> v \<in> {Passed, Rejection}"
  by (auto simp: decide_def res_bind_eq_Inr split: if_splits)

lemma decide_both: "decide True f verdict = Inr v \<Longrightarrow> decide True f' verdict = Inr v' \<Longrightarrow> v = v'"
  by (auto simp: decide_def res_bind_eq_Inr split: if_splits)

lemma decide_step:
  assumes "decide b (st_instructor x) verdict = Inr i" "decide b' (st_mentor x) verdict = Inr m" "b \<or> b'"
  shows "leave_step x (x\<lparr>st_instructor := i, st_mentor := m\<rparr>)"
proof -
  note cs = decide_cases [OF assms(1)] decide_cases [OF assms(2)]
  consider "b" "b'" | "b" "\<not> b'" | "\<not> b" "b'" using assms(3) by blast
  then show ?thesis
  proof cases
    case 1
    then have "i = m" using decide_both assms(1,2) by simp
    then show ?thesis using cs 1 by_both [of x m] by auto
  next
    case 2
    then have "x\<lparr>st_instructor := i, st_mentor := m\<rparr> = x\<lparr>st_instructor := i\<rparr>" using cs by simp
    then show ?thesis using cs 2 by_instructor [of x i] by auto
  next
    case 3
    then have "x\<lparr>st_instructor := i, st_mentor := m\<rparr> = x\<lparr>st_mentor := m\<rparr>" using cs by simp
    then show ?thesis using cs 3 by_mentor [of x m] by auto
  qed
qed

lemma approval_moves:
  assumes env: "env_call env = call" and g: "good (hs_app s)"
  shows "keeps (hs_app s) (app_approval env s)"
  unfolding app_approval_def Let_def
proof (intro keeps_or_throw keeps_call [OF env] refl)
  fix user u note_id rows d1
  assume c: "call ''select_leave_status_teachers'' [PInt note_id] (hs_app s) = (rows, d1)"
  define s1 where "s1 = s\<lparr>hs_app := d1\<rparr>"
  define verdict where "verdict = jat (req_json s) ''status''"
  have s: "row_of (hs_app s1) = row_of (hs_app s)" using reads [OF c] by (simp add: s1_def leave_writes_def)
  show "keeps (hs_app s) (if length rows \<noteq> 1 then throw_http (HttpException_msg 404 ''Not found this leave.'') (s\<lparr>hs_app := d1\<rparr>)
     else or_throw (s\<lparr>hs_app := d1\<rparr>) (cols (rows ! 0) 3) (\<lambda>r.
        if user \<noteq> text_data (r ! 1) \<and> user \<noteq> text_data (r ! 2)
        then throw_http (HttpException_msg 403 ''No permissions, you must be leave's teacher.'') (s\<lparr>hs_app := d1\<rparr>)
        else or_throw (s\<lparr>hs_app := d1\<rparr>) (decide (user = text_data (r ! 1))
              (st_instructor (StudentStatus_of (word_of_int (int_data (r ! 0))))) (jat (req_json s) ''status'')) (\<lambda>i.
          or_throw (s\<lparr>hs_app := d1\<rparr>) (decide (user = text_data (r ! 2))
              (st_mentor (StudentStatus_of (word_of_int (int_data (r ! 0))))) (jat (req_json s) ''status'')) (\<lambda>m.
          call_sql env ''update_leave_info_status''
            [PInt note_id, PInt (sint (status (StudentStatus_of (word_of_int (int_data (r ! 0)))
               \<lparr>st_instructor := i, st_mentor := m\<rparr>)))] (s\<lparr>hs_app := d1\<rparr>) (\<lambda>_ s. Done s)))))"
  proof (cases "length rows = 1")
    case False
    then show ?thesis using s by (simp add: keeps_throw flip: s1_def)
  next
    case True
    then obtain a t1 t2 where r: "row_of (hs_app s) note_id = Some (int_data a, text_data t1, text_data t2)" "rows = [[a, t1, t2]]"
      using select_teachers [OF c] by (auto split: option.splits)
    then obtain y where y: "leave_reach y" "int_data a = sint (status y)" using good_row g by metis
    have dec: "StudentStatus_of (word_of_int (int_data a)) = y" using leave_reach_decode [OF y(1)] y(2) by simp
    have "keeps (hs_app s) (if user \<noteq> text_data t1 \<and> user \<noteq> text_data t2
        then throw_http (HttpException_msg 403 ''No permissions, you must be leave's teacher.'') s1
        else or_throw s1 (decide (user = text_data t1) (st_instructor y) verdict) (\<lambda>i.
          or_throw s1 (decide (user = text_data t2) (st_mentor y) verdict) (\<lambda>m.
          call_sql env ''update_leave_info_status''
            [PInt note_id, PInt (sint (status (y\<lparr>st_instructor := i, st_mentor := m\<rparr>)))] s1 (\<lambda>_ s. Done s))))"
    proof (cases "user \<noteq> text_data t1 \<and> user \<noteq> text_data t2")
      case True
      then show ?thesis using s by (simp add: keeps_throw)
    next
      case False
      have "keeps (hs_app s) (or_throw s1 (decide (user = text_data t1) (st_instructor y) verdict) (\<lambda>i.
          or_throw s1 (decide (user = text_data t2) (st_mentor y) verdict) (\<lambda>m.
          call_sql env ''update_leave_info_status''
            [PInt note_id, PInt (sint (status (y\<lparr>st_instructor := i, st_mentor := m\<rparr>)))] s1 (\<lambda>_ s. Done s))))"
        using False r(1) y(2)
        by (intro keeps_or_throw s keeps_update [OF env _ y(1) decide_step s]) auto
      then show ?thesis by (simp only: False if_False)
    qed
    then show ?thesis using r(2) by (simp add: or_throw_simps cols_def dec split del: if_split cong: if_cong flip: s1_def verdict_def)
  qed
qed

text \<open>Asking for a leave adds a leave at the start of its life.\<close>

lemma leave_moves:
  assumes env: "env_call env = call" and g: "good (hs_app s)"
  shows "keeps (hs_app s) (app_leave env s)"
  unfolding app_leave_def Let_def
proof (intro keeps_or_throw keeps_call [OF env] refl)
  fix user u rows d1
  assume c: "call ''student_info'' [PText user] (hs_app s) = (rows, d1)"
  define s1 where "s1 = s\<lparr>hs_app := d1\<rparr>"
  have s: "row_of (hs_app s1) = row_of (hs_app s)" using reads [OF c] by (simp add: s1_def leave_writes_def)
  have ins: "keeps (hs_app s) (call_sql env ''insert_leave_info''
      [PText user, PText m, PText i, p4, p5, p6, p7, p8, PInt (sint (status (set_junior b StudentStatus_default)))] s1 (\<lambda>_ s. Done s))"
    for m i p4 p5 p6 p7 p8 b
  proof (rule keeps_call [OF env])
    fix rows d'
    assume "call ''insert_leave_info'' [PText user, PText m, PText i, p4, p5, p6, p7, p8,
      PInt (sint (status (set_junior b StudentStatus_default)))] (hs_app s1) = (rows, d')"
    from insert_leave [OF this] have "moved (hs_app s) d'"
      unfolding s leave_moved_def using leave_new [of b] by blast
    then show "keeps (hs_app s) (Done (s1\<lparr>hs_app := d'\<rparr>))" by (simp add: keeps_def)
  qed
  have fin: "keeps (hs_app s) (if P then throw_http e s1 else r)" if "keeps (hs_app s) r" for P e r
    using that s by (simp add: keeps_throw)
  show "keeps (hs_app s) (if length rows \<noteq> 1 then throw_http (HttpException_msg 404 ''Not found student's teachers'') (s\<lparr>hs_app := d1\<rparr>)
     else or_throw (s\<lparr>hs_app := d1\<rparr>) (cols (rows ! 0) 9) (\<lambda>r.
        or_throw (s\<lparr>hs_app := d1\<rparr>) (the_string (req_json s) ''leave_type'') (\<lambda>leave_type.
        or_throw (s\<lparr>hs_app := d1\<rparr>) (the_string (req_json s) ''leave_reason'') (\<lambda>leave_reason.
        or_throw (s\<lparr>hs_app := d1\<rparr>) (the_string (req_json s) ''time_begin'') (\<lambda>time_begin.
        or_throw (s\<lparr>hs_app := d1\<rparr>) (the_string (req_json s) ''time_end'') (\<lambda>time_end.
        or_throw (s\<lparr>hs_app := d1\<rparr>) (res_bind (jat (req_json s) ''is_school'') get_bool) (\<lambda>is_school.
        or_throw (s\<lparr>hs_app := d1\<rparr>) (chk_int (int_data (r ! 3) + 4)) (\<lambda>graduate_year.
        call_sql env ''insert_leave_info''
          [PText user, PText (text_data (r ! 8)), PText (text_data (r ! 7)), PText leave_type, PText leave_reason,
           PText time_begin, PText time_end, PInt (if is_school then 1 else 0),
           PInt (sint (status (set_junior (\<not> is_graduate (env_tm env) graduate_year) StudentStatus_default)))]
          (s\<lparr>hs_app := d1\<rparr>) (\<lambda>_ s. Done s)))))))))"
    unfolding s1_def [symmetric] by (intro fin keeps_or_throw s ins)
qed

text \<open>The other handlers only read.\<close>

lemma keeps_read:
  assumes "env_call env = call" "name \<notin> leave_writes" "row_of (hs_app s) = row_of d"
    and "\<And>rows s'. row_of (hs_app s') = row_of d \<Longrightarrow> keeps d (k rows s')"
  shows "keeps d (call_sql env name ps s k)"
  using assms(2,3) by (intro keeps_call [OF assms(1)] assms(4)) (auto dest: reads)

lemma keeps_if: "keeps d a \<Longrightarrow> keeps d b \<Longrightarrow> keeps d (if P then a else b)"
  by simp

lemma keeps_prod: "(\<And>a b. keeps d (f a b)) \<Longrightarrow> keeps d (case x of (a, b) \<Rightarrow> f a b)"
  by (cases x) simp

lemma keeps_thrown: "row_of (hs_app s) = row_of d \<Longrightarrow> keeps d (Thrown e s)"
  by (simp add: keeps_def moved_same)

lemma readers_keep:
  assumes "env_call env = call" "f \<in> {app_login, app_self, app_student_info, app_search_leave, app_search_leave_num}"
  shows "keeps (hs_app s) (f env s)"
proof -
  have "keeps (hs_app s) (app_login env s)"
    unfolding app_login_def Let_def by (intro keeps_or_throw keeps_read [OF assms(1)] keeps_if keeps_prod keeps_throw keeps_thrown refl) (simp_all add: leave_writes_def)
  moreover have "keeps (hs_app s) (app_self env s)"
    unfolding app_self_def answer_row_def by (intro keeps_or_throw keeps_read [OF assms(1)] keeps_if keeps_prod keeps_throw keeps_thrown refl) (simp_all add: leave_writes_def)
  moreover have "keeps (hs_app s) (app_student_info env s)"
    unfolding app_student_info_def answer_row_def by (intro keeps_or_throw keeps_read [OF assms(1)] keeps_if keeps_prod keeps_throw keeps_thrown refl) (simp_all add: leave_writes_def)
  moreover have "keeps (hs_app s) (app_search_leave env s)"
    unfolding app_search_leave_def leave_rows_def Let_def
    by (intro keeps_or_throw keeps_read [OF assms(1)] keeps_if keeps_prod keeps_throw keeps_thrown refl) (simp_all add: leave_writes_def)
  moreover have "keeps (hs_app s) (app_search_leave_num env s)"
    unfolding app_search_leave_num_def leave_rows_def Let_def
    by (intro keeps_or_throw keeps_read [OF assms(1)] keeps_if keeps_prod keeps_throw keeps_thrown refl) (simp_all add: leave_writes_def)
  ultimately show ?thesis using assms(2) by auto
qed

text \<open>So does every request, whatever its path, method, token and body.\<close>

lemma handler_keeps:
  assumes "env_call env = call" "good (hs_app s)" "(p, f) \<in> set app_routes \<or> f = app_login"
  shows "keeps (hs_app s) (f env s)"
  using assms(3) readers_keep [OF assms(1), of f s] leave_moves [OF assms(1,2)] release_moves [OF assms(1,2)]
    approval_moves [OF assms(1,2)]
  by (auto simp: app_routes_def)

lemma request_moves:
  assumes "env_call env = call" "good d" "Handle (app_server env port) regular fs req types d = Some (r, n)"
  shows "moved d (hs_app (final_state r))"
  using assms(3)
proof (cases rule: handle_app_cases)
  case 1
  then show ?thesis by (simp add: moved_same)
next
  case (2 s)
  then show ?thesis using handler_keeps [OF assms(1), of s "''/login''" app_login] assms(2) by (simp add: keeps_def)
next
  case (3 p f s)
  then show ?thesis using handler_keeps [OF assms(1), of s p f] assms(2) by (simp add: keeps_def)
qed

lemma status_inj: "leave_reach x \<Longrightarrow> leave_reach y \<Longrightarrow> sint (status x) = sint (status y) \<Longrightarrow> x = y"
  by (metis leave_reach_decode)

lemma moved_row:
  assumes "moved d d'" "row_of d n = Some (sint (status x), i, m)" "leave_reach x"
  shows "\<exists>y. row_of d' n = Some (sint (status y), i, m) \<and> leave_step\<^sup>*\<^sup>* x y"
  using assms(1) unfolding leave_moved_def
proof (elim disjE exE conjE)
  fix n' x' y i' m'
  assume u: "row_of d n' = Some (sint (status x'), i', m')" "leave_reach x'" "leave_step x' y"
    "row_of d' = (row_of d)(n' \<mapsto> (sint (status y), i', m'))"
  show ?thesis
  proof (cases "n' = n")
    case True
    then have "x' = x" "i' = i" "m' = m" using u(1,2) assms(2,3) status_inj by auto
    then show ?thesis using u(3,4) True by auto
  next
    case False
    then show ?thesis using u(4) assms(2) by auto
  qed
qed (use assms(2) in \<open>auto split: if_splits\<close>)

end

section \<open>Requests one after the other\<close>

text \<open>
  The databases a server goes through while it serves requests one after the other; between two of
  them clock, files and everything but the meaning of the statements may change.
\<close>

inductive served :: "(string \<Rightarrow> sql_param list \<Rightarrow> 'd \<Rightarrow> sqlite3_data list list \<times> 'd) \<Rightarrow> 'd \<Rightarrow> 'd \<Rightarrow> bool"
  for call and d where
  served_none: "served call d d"
| served_request: "served call d d1 \<Longrightarrow> env_call env = call \<Longrightarrow>
    Handle (app_server env port) regular fs req types d1 = Some (r, n) \<Longrightarrow> served call d (hs_app (final_state r))"

context leave_table begin

lemma served_moves:
  "served call d d' \<Longrightarrow> good d \<Longrightarrow> good d' \<and>
    (\<forall>n x i m. row_of d n = Some (sint (status x), i, m) \<longrightarrow> leave_reach x \<longrightarrow>
       (\<exists>y. leave_reach y \<and> row_of d' n = Some (sint (status y), i, m) \<and> leave_step\<^sup>*\<^sup>* x y))"
proof (induction rule: served.induct)
  case served_none
  then show ?case by blast
next
  case (served_request d1 env port regular fs req types r n)
  have g: "good d1" using served_request by blast
  note mv = request_moves [OF served_request.hyps(2) g served_request.hyps(3)]
  have "\<exists>y. leave_reach y \<and> row_of (hs_app (final_state r)) n = Some (sint (status y), i, m) \<and> leave_step\<^sup>*\<^sup>* x y"
    if x: "row_of d n = Some (sint (status x), i, m)" "leave_reach x" for n x i m
  proof -
    obtain z where z: "leave_reach z" "row_of d1 n = Some (sint (status z), i, m)" "leave_step\<^sup>*\<^sup>* x z"
      using served_request.IH [OF served_request.prems] x by blast
    from moved_row [OF mv z(2,1)] obtain y where y: "row_of (hs_app (final_state r)) n = Some (sint (status y), i, m)" "leave_step\<^sup>*\<^sup>* z y"
      by blast
    have "leave_reach y" using y(2) z(1) by (induction rule: rtranclp_induct) (auto intro: leave_next)
    with y z(3) show ?thesis by fastforce
  qed
  then show ?case using moved_good [OF g mv] by blast
qed

end

lemma leave_steps_keep:
  "leave_step\<^sup>*\<^sup>* x y \<Longrightarrow> (st_instructor x = PendingApproval \<or> st_instructor y = st_instructor x) \<and>
    (st_mentor x = PendingApproval \<or> st_mentor y = st_mentor x) \<and> (\<not> st_destroyed x \<or> st_destroyed y)"
  by (induction rule: rtranclp_induct) (auto elim!: leave_stepE)

text \<open>
  C4: Whatever requests the server serves, one after the other, every leave in the database stays a leave
  of its two teachers and its status goes on along the life of a leave: each teacher's part is decided
  at most once, a decision is never taken back, and only a leave that both have passed is released.
\<close>

theorem leave_life:
  assumes "leave_table call row_of" "leaves_good row_of d" "served call d d'" "row_of d n = Some (st, i, m)"
  shows "leaves_good row_of d' \<and>
    (\<exists>x y. st = sint (status x) \<and> leave_reach x \<and> leave_step\<^sup>*\<^sup>* x y \<and> row_of d' n = Some (sint (status y), i, m) \<and>
      (st_instructor x = PendingApproval \<or> st_instructor y = st_instructor x) \<and>
      (st_mentor x = PendingApproval \<or> st_mentor y = st_mentor x) \<and> (\<not> st_destroyed x \<or> st_destroyed y))"
proof -
  obtain x where "leave_reach x" "st = sint (status x)"
    using leave_table.good_row [OF assms(1,2,4)] by blast
  then show ?thesis using leave_table.served_moves [OF assms(1,3,2)] assms(4) leave_steps_keep by metis
qed

section \<open>The two teachers\<close>

lemma jat_jfind: "jat j k = Inr v \<Longrightarrow> jfind k j = Some v"
  by (auto simp: jat_def jfind_def split: json.splits option.splits)

lemma the_jfind: "the_string j k = Inr u \<Longrightarrow> jfind k j \<noteq> None" "the_int j k = Inr i \<Longrightarrow> jfind k j \<noteq> None"
  by (auto simp: the_string_def the_int_def res_bind_eq_Inr dest: jat_jfind)

lemma TestJsonParam_ok:
  assumes "\<forall>k \<in> set ks. jfind k j \<noteq> None"
  shows "TestJsonParam j ks = Inr ()"
proof -
  have "concat (map (\<lambda>str. if jfind str j = None then '', '' @ str else []) ks) = []"
    using assms by (induction ks) auto
  then show ?thesis by (simp add: TestJsonParam_def)
qed

text \<open>The status after the decision of one user, or the message of the exception.\<close>

definition approve :: "string \<Rightarrow> bool \<Rightarrow> StudentStatus \<times> string \<times> string \<Rightarrow> http_exception + StudentStatus" where
  "approve u b = (\<lambda>(x, i, m).
     let v = (if b then Passed else Rejection) in
     if u \<noteq> i \<and> u \<noteq> m then Inl (HttpException_msg 403 ''No permissions, you must be leave's teacher.'')
     else if u = i \<and> st_instructor x \<noteq> PendingApproval \<or> u = m \<and> st_mentor x \<noteq> PendingApproval
     then Inl (HttpException_code_msg 200 403 ''status must be pending approval.'')
     else Inr (x\<lparr>st_instructor := (if u = i then v else st_instructor x), st_mentor := (if u = m then v else st_mentor x)\<rparr>))"

lemma decide_bool: "decide mine f (Inr (JBool b)) =
   (if \<not> mine then Inr f else if f \<noteq> PendingApproval
    then Inl (HttpExc (HttpException_code_msg 200 403 ''status must be pending approval.'')) else Inr (if b then Passed else Rejection))"
  by (simp add: decide_def get_bool_def)

text \<open>
  C30: What an approval does: the first two guards refuse a user who is neither of the two teachers and
  a teacher whose part is decided, and leave the table alone; otherwise the parts of this teacher get the
  decision.  A user who is both teachers decides both parts at once, and is refused if only one of
  them is decided: then nobody can ever decide the other one.
\<close>

theorem approval_effect:
  assumes "leave_table (env_call env) row_of" "row_of (hs_app s) n = Some (sint (status x), i, m)" "leave_reach x"
    and "the_string (req_json s) ''user'' = Inr u" "the_int (req_json s) ''note_id'' = Inr n" "jat (req_json s) ''status'' = Inr (JBool b)"
  shows "case approve u b (x, i, m) of
      Inl e \<Rightarrow> \<exists>d. app_approval env s = throw_http e (s\<lparr>hs_app := d\<rparr>) \<and> row_of d = row_of (hs_app s)
    | Inr y \<Rightarrow> \<exists>d. app_approval env s = Done (s\<lparr>hs_app := d\<rparr>) \<and> row_of d = (row_of (hs_app s))(n \<mapsto> (sint (status y), i, m))"
proof -
  define s1 where "s1 d = s\<lparr>hs_app := d\<rparr>" for d
  obtain rows d1 where c: "env_call env ''select_leave_status_teachers'' [PInt n] (hs_app s) = (rows, d1)" by force
  obtain a t1 t2 where r: "rows = [[a, t1, t2]]" "int_data a = sint (status x)" "text_data t1 = i" "text_data t2 = m"
    using leave_table.select_teachers [OF assms(1) c] assms(2) by auto
  have same: "row_of d1 = row_of (hs_app s)"
    using leave_table.reads [OF assms(1) c] by (simp add: leave_writes_def)
  have test: "TestJsonParam (req_json s) [''note_id'', ''status''] = Inr ()"
    using the_jfind(2) [OF assms(5)] jat_jfind [OF assms(6)] by (intro TestJsonParam_ok) simp
  have upd: "\<exists>d. call_sql env ''update_leave_info_status'' [PInt n, PInt (sint (status y))] (s1 d1) (\<lambda>_ s. Done s) = Done (s1 d) \<and>
      row_of d = (row_of (hs_app s))(n \<mapsto> (sint (status y), i, m))" for y
  proof -
    obtain rows2 d2 where u: "env_call env ''update_leave_info_status'' [PInt n, PInt (sint (status y))] d1 = (rows2, d2)" by force
    from leave_table.update [OF assms(1) u] have "row_of d2 = (row_of (hs_app s))(n \<mapsto> (sint (status y), i, m))"
      using assms(2) same by simp
    then show ?thesis using u by (intro exI [of _ d2]) (simp add: call_sql_def s1_def)
  qed
  have app: "app_approval env s =
    (if u \<noteq> i \<and> u \<noteq> m then throw_http (HttpException_msg 403 ''No permissions, you must be leave's teacher.'') (s1 d1)
     else or_throw (s1 d1) (decide (u = i) (st_instructor x) (Inr (JBool b))) (\<lambda>v.
          or_throw (s1 d1) (decide (u = m) (st_mentor x) (Inr (JBool b))) (\<lambda>w.
          call_sql env ''update_leave_info_status'' [PInt n, PInt (sint (status (x\<lparr>st_instructor := v, st_mentor := w\<rparr>)))] (s1 d1)
            (\<lambda>_ s. Done s))))"
    unfolding app_approval_def Let_def assms(4,5) or_throw_simps test
    by (subst call_sql_def) (simp add: c r or_throw_simps cols_def status_of_status [OF leave_reach_ok [OF assms(3)]] assms(6) s1_def)
  show ?thesis
    unfolding app approve_def using same upd
    by (simp add: decide_bool or_throw_simps throw_http_def flip: s1_def split: if_split_asm) (auto simp: or_throw_simps throw_http_def)
qed

text \<open>
  C31: What asking for a leave does: the leave goes in with the two teachers of the student, and for
  every class from 1900 on and every year before 3800 with a status in which the mentor has passed it
  and the instructor is to decide: \<open>tm_year\<close> counts from 1900, so nobody is ever found to graduate,
  and the flag of the others is the decision of the mentor.
\<close>

theorem leave_skips_mentor:
  assumes "the_string j ''user'' = Inr u" "the_string j ''leave_type'' = Inr ty" "the_string j ''leave_reason'' = Inr re"
    and "the_string j ''time_begin'' = Inr tb" "the_string j ''time_end'' = Inr te" "jat j ''is_school'' = Inr (JBool b)"
    and "env_call env ''student_info'' [PText u] (hs_app s) = ([r], d1)" "length r = 9"
    and "1900 \<le> int_data (r ! 3)" "int_data (r ! 3) < 2 ^ 31 - 4" "tm_year (env_tm env) < 1900"
  shows "app_leave env (with_json j s) =
     Done (with_json j s\<lparr>hs_app := snd (env_call env ''insert_leave_info''
       [PText u, PText (text_data (r ! 8)), PText (text_data (r ! 7)), PText ty, PText re, PText tb, PText te,
        PInt (if b then 1 else 0), PInt 4] d1)\<rparr>) \<and>
     StudentStatus_of 4 = \<lparr>st_instructor = PendingApproval, st_mentor = Passed, st_destroyed = False\<rparr>"
proof -
  have test: "TestJsonParam j [''leave_type'', ''leave_reason'', ''time_begin'', ''time_end'', ''is_school''] = Inr ()"
    using assms(2-6) by (intro TestJsonParam_ok) (auto dest: the_jfind jat_jfind)
  have g: "\<not> is_graduate (env_tm env) (int_data (r ! 3) + 4)"
    using assms(9,11) by (auto simp: is_graduate_def)
  have c: "chk_int (int_data (r ! 3) + 4) = Inr (int_data (r ! 3) + 4)"
    using assms(9,10) by (simp add: chk_int_def)
  show ?thesis
    using assms(7,8) g junior_status(2)
    by (simp add: app_leave_def assms(1-6) test or_throw_simps call_sql_def cols_def c get_bool_def
        StudentStatus_of_def PendingApproval_def Passed_def case_prod_unfold)
qed

end
