(* ===== verification/Student_Search.thy ===== *)
theory Student_Search
  imports Student_Spec
begin

text \<open>
  The pages of a search, and the types of the requests: a body whose inputs have the types the
  handlers ask for never ends a handler in a type error or in undefined behaviour.
\<close>

section \<open>Pages\<close>

definition leaves_of :: "'d env \<Rightarrow> string \<Rightarrow> 'd \<Rightarrow> sqlite3_data list list \<times> 'd" where
  "leaves_of env u d =
     (if is_teacher u then
        (let (rows, d) = env_call env ''select_leave_info_instructor'' [PText u] d in
         if rows = [] then env_call env ''select_leave_info_mentor'' [PText u] d else (rows, d))
      else env_call env ''select_leave_info_student'' [PText u] d)"

lemma leave_rows_eq: "leave_rows env u s k = (let (rows, d) = leaves_of env u (hs_app s) in k rows (s\<lparr>hs_app := d\<rparr>))"
  by (auto simp: leave_rows_def leaves_of_def call_sql_def Let_def split: prod.splits)

definition page_of :: "nat \<Rightarrow> nat \<Rightarrow> 'a list \<Rightarrow> 'a list" where
  "page_of m p rows = take m (drop ((p - 1) * m) rows)"

lemma pages_concat: "concat (map (\<lambda>k. page_of m (Suc k) rows) [0..<n]) = take (n * m) rows"
proof (induction n)
  case (Suc n)
  have "take (Suc n * m) rows = take (n * m) rows @ take m (drop (n * m) rows)"
    by (metis add.commute mult_Suc take_add)
  with Suc show ?case by (simp add: page_of_def)
qed simp

lemma page_rows_eq:
  assumes "1 \<le> p" "1 \<le> m"
  shows "page_rows ((p - 1) * m) (p * m) rows = page_of (nat m) (nat p) rows"
proof -
  have "nat ((p - 1) * m) = (nat p - 1) * nat m" using assms by (simp add: nat_mult_distrib nat_diff_distrib)
  moreover have "p * m - (p - 1) * m = m" by (simp add: algebra_simps)
  moreover have "0 \<le> (p - 1) * m" using assms by simp
  ultimately show ?thesis by (simp add: page_rows_def page_of_def)
qed

lemma page_of_subset: "set (page_of m p rows) \<subseteq> set rows"
  unfolding page_of_def by (meson order_trans set_drop_subset set_take_subset)

lemma page_bounds_given:
  "the_int j ''page'' = Inr p \<Longrightarrow> the_int j ''max_num'' = Inr m \<Longrightarrow> page_bounds j = Inr (max 1 p, max 1 m)"
  using the_jfind(2) [of j "''page''" p] by (simp add: page_bounds_def)

lemma page_bounds_default: "jfind ''page'' j = None \<Longrightarrow> page_bounds j = Inr (1, 50)"
  by (simp add: page_bounds_def)

lemma search_leave_page:
  assumes "the_string (req_json s) ''user'' = Inr u" "page_bounds (req_json s) = Inr (p, m)" "1 \<le> p" "1 \<le> m"
    and "leaves_of env u (hs_app s) = (rows, d)" "\<forall>r \<in> set rows. 10 \<le> length r"
  shows "app_search_leave env s =
    (if p * m < 2 ^ 31 then
       throw_http (HttpException_body (jobject [(''data'', let page = page_of (nat m) (nat p) rows in
         if page = [] then JNull else JArr (map leave_json page))])) (s\<lparr>hs_app := d\<rparr>)
     else Thrown (CppExc SignedOverflow) (s\<lparr>hs_app := d\<rparr>))"
proof -
  have b: "0 \<le> (p - 1) * m" "(p - 1) * m \<le> p * m" using assms(3,4) by (simp_all add: mult_right_mono)
  have cols: "\<not> (\<exists>r \<in> set (page_of (nat m) (nat p) rows). length r < 10)"
    using assms(6) page_of_subset [of "nat m" "nat p" rows] by force
  show ?thesis
  proof (cases "p * m < 2 ^ 31")
    case True
    then have "chk_int ((p - 1) * m) = Inr ((p - 1) * m)" "chk_int (p * m) = Inr (p * m)"
      using b by (simp_all add: chk_int_def)
    then show ?thesis
      using True cols page_rows_eq [OF assms(3,4), of rows]
      by (simp add: app_search_leave_def assms(1,2,5) leave_rows_eq or_throw_simps Let_def)
  next
    case False
    then have "chk_int (p * m) = Inl (CppExc SignedOverflow)" by (simp add: chk_int_def)
    moreover have "chk_int ((p - 1) * m) = Inl (CppExc SignedOverflow) \<or> chk_int ((p - 1) * m) = Inr ((p - 1) * m)"
      by (simp add: chk_int_def)
    ultimately show ?thesis
      using False by (auto simp: app_search_leave_def assms(1,2,5) leave_rows_eq or_throw_simps Let_def)
  qed
qed

text \<open>
  C33: Searching gives the page that was asked for, in the order of the database, as long as the product
  of the page and its size fits an \<open>int\<close>, and is undefined otherwise; the pages from the first on,
  one after the other, are the rows without a gap and without a repetition.
\<close>

theorem search_pages:
  assumes "the_string (req_json s) ''user'' = Inr u" "the_int (req_json s) ''page'' = Inr p" "the_int (req_json s) ''max_num'' = Inr m"
    and "1 \<le> p" "1 \<le> m" "leaves_of env u (hs_app s) = (rows, d)" "\<forall>r \<in> set rows. 10 \<le> length r"
  shows "app_search_leave env s =
    (if p * m < 2 ^ 31 then
       throw_http (HttpException_body (jobject [(''data'', let page = page_of (nat m) (nat p) rows in
         if page = [] then JNull else JArr (map leave_json page))])) (s\<lparr>hs_app := d\<rparr>)
     else Thrown (CppExc SignedOverflow) (s\<lparr>hs_app := d\<rparr>)) \<and>
    concat (map (\<lambda>k. page_of (nat m) (Suc k) rows) [0..<n]) = take (n * nat m) rows"
  using search_leave_page [OF assms(1) _ assms(4-7)] page_bounds_given [OF assms(2,3)] assms(4,5)
  by (simp add: pages_concat max_def)

text \<open>A page without its size is read through a reference to nothing: the key that is tested twice is \<open>page\<close>.\<close>

lemma page_without_size:
  assumes "req_json s = JObj kvs" "map_of kvs ''max_num'' = None" "the_int (JObj kvs) ''page'' = Inr p"
    and "the_string (JObj kvs) ''user'' = Inr u"
  shows "app_search_leave env s = Thrown (CppExc OutOfBounds) s"
proof -
  have "the_int (JObj kvs) ''max_num'' = Inl (CppExc OutOfBounds)" using assms(2) by (simp add: the_int_def jat_def)
  then have "page_bounds (JObj kvs) = Inl (CppExc OutOfBounds)"
    using assms(3) the_jfind(2) [OF assms(3)] by (simp add: page_bounds_def)
  then show ?thesis by (simp add: app_search_leave_def assms or_throw_simps)
qed

section \<open>Types\<close>

text \<open>
  The types of the inputs and the number of columns of the rows.
\<close>

datatype field = FText | FNumber | FBool

definition has_field :: "json \<Rightarrow> string \<times> field \<Rightarrow> bool" where
  "has_field j = (\<lambda>(k, t). case t of
       FText \<Rightarrow> ok (the_string j k) | FNumber \<Rightarrow> ok (the_int j k) | FBool \<Rightarrow> ok (res_bind (jat j k) get_bool))"

definition inputs :: "(string \<times> (string \<times> field) list) list" where
  "inputs =
     [(''/self'', []),
      (''/leave'', [(''leave_type'', FText), (''leave_reason'', FText), (''time_begin'', FText), (''time_end'', FText), (''is_school'', FBool)]),
      (''/release'', [(''note_id'', FNumber)]),
      (''/student_info'', [(''id'', FText)]),
      (''/search_leave'', []),
      (''/search_leave_num'', []),
      (''/approval'', [(''note_id'', FNumber), (''status'', FBool)])]"

definition well_typed :: "string \<Rightarrow> json \<Rightarrow> bool" where
  "well_typed p j \<longleftrightarrow> has_field j (''user'', FText) \<and> list_all (has_field j) (the (map_of inputs p)) \<and>
     (jfind ''page'' j = None \<or> (case (the_int j ''page'', the_int j ''max_num'') of
        (Inr page, Inr num) \<Rightarrow> max 1 page * max 1 num < 2 ^ 31 | _ \<Rightarrow> False))"

definition columns :: "string \<Rightarrow> nat" where
  "columns name =
     (if name = ''student_info'' then 9 else if name = ''teacher_info'' then 6
      else if name = ''select_leave_status_teachers'' then 3
      else if name \<in> {''select_leave_info_instructor'', ''select_leave_info_mentor'', ''select_leave_info_student''} then 10
      else 1)"

text \<open>An outcome that is neither a type error nor undefined.\<close>

definition fine :: "'d hstate outcome \<Rightarrow> bool" where
  "fine r \<longleftrightarrow> (case r of Done s \<Rightarrow> True | Thrown (HttpExc e) s \<Rightarrow> True | _ \<Rightarrow> False)"

lemma fine_simps [simp]: "fine (Done s)" "fine (throw_http e s)"
  by (simp_all add: fine_def throw_http_def)

lemma fine_bind: "ok r \<Longrightarrow> (\<And>x. r = Inr x \<Longrightarrow> fine (k x)) \<Longrightarrow> fine (or_throw s r k)"
  by (cases r) (simp_all add: or_throw_def)

text \<open>
  A database with the tables of the program, in which the classes are years; the handlers never add a
  student.
\<close>

locale typed_tables =
  fixes call :: "string \<Rightarrow> sql_param list \<Rightarrow> 'd \<Rightarrow> sqlite3_data list list \<times> 'd"
    and sane :: "'d \<Rightarrow> bool"
  assumes columns: "sane d \<Longrightarrow> call name ps d = (rows, d') \<Longrightarrow> r \<in> set rows \<Longrightarrow> columns name \<le> length r"
    and class_year: "sane d \<Longrightarrow> call ''student_info'' ps d = (rows, d') \<Longrightarrow> r \<in> set rows \<Longrightarrow>
      - (2 ^ 31) \<le> int_data (r ! 3) \<and> int_data (r ! 3) < 2 ^ 31 - 4"
    and inv_call: "sane d \<Longrightarrow> name \<noteq> ''insert_student'' \<Longrightarrow> call name ps d = (rows, d') \<Longrightarrow> sane d'"
begin

lemma fine_decide:
  assumes "ok (res_bind verdict get_bool)" "\<And>x. fine (k x)"
  shows "fine (or_throw s (decide mine f verdict) k)"
  using assms by (cases verdict) (auto simp: decide_def or_throw_def fine_def res_bind_def ok_def split: sum.splits)

lemma fine_call:
  assumes "env_call env = call" "sane (hs_app s)" "name \<noteq> ''insert_student''"
    and "\<And>rows s'. sane (hs_app s') \<Longrightarrow> \<forall>r \<in> set rows. columns name \<le> length r \<Longrightarrow>
     name = ''student_info'' \<longrightarrow> (\<forall>r \<in> set rows. ok (chk_int (int_data (r ! 3) + 4))) \<Longrightarrow> fine (k rows s')"
  shows "fine (call_sql env name ps s k)"
proof -
  obtain rows d' where c: "call name ps (hs_app s) = (rows, d')" by force
  have "ok (chk_int (int_data (r ! 3) + 4))" if "name = ''student_info''" "r \<in> set rows" for r
    using class_year [OF assms(2), of ps rows d' r] c that by (simp add: chk_int_def)
  then show ?thesis using assms(1,4) columns [OF assms(2) c] inv_call [OF assms(2,3) c] c by (simp add: call_sql_def)
qed

lemma fine_if: "(P \<Longrightarrow> fine a) \<Longrightarrow> (\<not> P \<Longrightarrow> fine b) \<Longrightarrow> fine (if P then a else b)"
  by simp

lemma row0: "\<not> length rows \<noteq> 1 \<Longrightarrow> rows ! 0 \<in> set rows"
  by simp

lemma row0_col: "length rows = 1 \<Longrightarrow> \<forall>r \<in> set rows. n \<le> length r \<Longrightarrow> i < n \<Longrightarrow> ok (col (rows ! 0) i)"
  by (cases rows) (auto simp: col_def)

lemma fine_cols: "n \<le> length r \<Longrightarrow> fine (k r) \<Longrightarrow> fine (or_throw s (cols r n) k)"
  by (simp add: cols_def or_throw_def)

lemma fine_answer_row: "\<forall>r \<in> set rows. n \<le> length r \<Longrightarrow> fine (answer_row f n rows s)"
  unfolding answer_row_def by (intro fine_if fine_cols) (auto dest: row0)

lemma fine_self: "env_call env = call \<Longrightarrow> sane (hs_app s) \<Longrightarrow> ok (the_string (req_json s) ''user'') \<Longrightarrow> fine (app_self env s)"
  unfolding app_self_def
  by (intro fine_bind fine_if fine_call fine_answer_row) (auto simp: columns_def elim: ballE)

lemma fine_student_info:
  "env_call env = call \<Longrightarrow> sane (hs_app s) \<Longrightarrow> ok (the_string (req_json s) ''user'') \<Longrightarrow> ok (the_string (req_json s) ''id'') \<Longrightarrow> fine (app_student_info env s)"
  unfolding app_student_info_def
  by (intro fine_bind fine_if fine_call fine_answer_row) (auto simp: columns_def TestJsonParam_ok ok_def dest: the_jfind split: sum.splits)

lemma fine_release:
  assumes "env_call env = call" "sane (hs_app s)" "ok (the_string (req_json s) ''user'')" "ok (the_int (req_json s) ''note_id'')"
  shows "fine (app_release env s)"
proof -
  have "TestJsonParam (req_json s) [''note_id''] = Inr ()"
    using assms(4) by (intro TestJsonParam_ok) (auto simp: ok_def dest: the_jfind split: sum.splits)
  then show ?thesis
    unfolding app_release_def Let_def using assms
    by (intro fine_bind fine_if fine_call) (auto simp: columns_def intro: row0_col)
qed

lemma fine_approval:
  assumes "env_call env = call" "sane (hs_app s)" "ok (the_string (req_json s) ''user'')" "ok (the_int (req_json s) ''note_id'')"
    and "ok (res_bind (jat (req_json s) ''status'') get_bool)"
  shows "fine (app_approval env s)"
proof -
  have "TestJsonParam (req_json s) [''note_id'', ''status''] = Inr ()"
    using assms(4,5) by (intro TestJsonParam_ok) (auto simp: ok_def res_bind_eq_Inr dest: the_jfind jat_jfind split: sum.splits)
  then show ?thesis
    unfolding app_approval_def Let_def using assms
    by (intro fine_bind [of "TestJsonParam _ _"] fine_bind [of "the_string _ _"] fine_bind [of "the_int _ _"] fine_if fine_call fine_cols fine_decide)
      (auto simp: columns_def dest: row0)
qed

lemma fine_leave:
  assumes "env_call env = call" "sane (hs_app s)" "ok (the_string (req_json s) ''user'')"
    and "list_all (has_field (req_json s)) (the (map_of inputs ''/leave''))"
  shows "fine (app_leave env s)"
proof -
  have t: "ok (the_string (req_json s) ''leave_type'')" "ok (the_string (req_json s) ''leave_reason'')"
    "ok (the_string (req_json s) ''time_begin'')" "ok (the_string (req_json s) ''time_end'')"
    "ok (res_bind (jat (req_json s) ''is_school'') get_bool)"
    using assms(4) by (simp_all add: inputs_def has_field_def)
  have "TestJsonParam (req_json s) [''leave_type'', ''leave_reason'', ''time_begin'', ''time_end'', ''is_school''] = Inr ()"
    using t by (intro TestJsonParam_ok) (auto simp: ok_def res_bind_eq_Inr dest: the_jfind jat_jfind split: sum.splits)
  then show ?thesis
    unfolding app_leave_def Let_def using assms(1-3) t
    by (intro fine_bind [of "TestJsonParam _ _"] fine_bind [of "the_string _ _"] fine_bind [of "res_bind _ _"] fine_bind [of "chk_int _"]
        fine_if fine_call fine_cols) (auto simp: columns_def dest: row0)
qed

lemma leaves_of_columns:
  "env_call env = call \<Longrightarrow> sane d \<Longrightarrow> leaves_of env u d = (rows, d') \<Longrightarrow> r \<in> set rows \<Longrightarrow> 10 \<le> length r"
  using columns [of d "''select_leave_info_instructor''" "[PText u]"] columns [of _ "''select_leave_info_mentor''" "[PText u]"]
    columns [of d "''select_leave_info_student''" "[PText u]"] inv_call [of d "''select_leave_info_instructor''" "[PText u]"]
  by (auto simp: leaves_of_def columns_def Let_def split: if_splits prod.splits)

lemma fine_search_num: "ok (the_string (req_json s) ''user'') \<Longrightarrow> fine (app_search_leave_num env s)"
  unfolding app_search_leave_num_def leave_rows_eq by (intro fine_bind) (simp_all split: prod.splits)

lemma fine_search:
  assumes "env_call env = call" "sane (hs_app s)" "well_typed ''/search_leave'' (req_json s)"
  shows "fine (app_search_leave env s)"
proof -
  obtain u where u: "the_string (req_json s) ''user'' = Inr u"
    using assms(3) by (auto simp: well_typed_def has_field_def ok_def split: sum.splits)
  obtain rows d where l: "leaves_of env u (hs_app s) = (rows, d)" by force
  obtain p m where "page_bounds (req_json s) = Inr (p, m)" "1 \<le> p" "1 \<le> m" "p * m < 2 ^ 31"
    using assms(3) page_bounds_default page_bounds_given
    by (fastforce simp: well_typed_def split: sum.splits)
  from search_leave_page [OF u this(1-3) l] leaves_of_columns [OF assms(1,2) l] this(4) show ?thesis by simp
qed

end


end
