(* ===== verification/Student_Db.thy ===== *)
theory Student_Db
  imports Student_Search
begin

text \<open>
  A reference meaning of the statements that \<open>DataBaseInit\<close> compiles, on tables in memory: what the
  handlers rely on in the database holds for it, and the witnesses run on it.
\<close>

section \<open>The tables\<close>

record student_row =
  stu_id :: string
  stu_name :: string
  stu_specialty :: string
  stu_class :: int
  stu_sex :: string
  stu_tel :: string
  stu_password :: string
  stu_instructor :: string
  stu_mentor :: string

record teacher_row =
  tea_id :: string
  tea_name :: string
  tea_sex :: string
  tea_age :: int
  tea_tel :: string
  tea_password :: string

record leave_row =
  lv_id :: int
  lv_student :: string
  lv_mentor :: string
  lv_instructor :: string
  lv_type :: string
  lv_reason :: string
  lv_begin :: string
  lv_end :: string
  lv_school :: int
  lv_status :: int

text \<open>Rows are in the order of their insertion; \<open>seq\<close> is the largest identity given so far.\<close>

record tables =
  tab_students :: "student_row list"
  tab_teachers :: "teacher_row list"
  tab_leaves :: "leave_row list"
  tab_seq :: int

definition cell :: "sql_value \<Rightarrow> sqlite3_data" where "cell v = FmtData v"

definition student_cells :: "student_row \<Rightarrow> sqlite3_data list" where
  "student_cells r = map cell [SText (stu_id r), SText (stu_name r), SText (stu_specialty r), SInteger (stu_class r),
     SText (stu_sex r), SText (stu_tel r), SText (stu_password r), SText (stu_instructor r), SText (stu_mentor r)]"

definition teacher_cells :: "teacher_row \<Rightarrow> sqlite3_data list" where
  "teacher_cells r = map cell [SText (tea_id r), SText (tea_name r), SText (tea_sex r), SInteger (tea_age r),
     SText (tea_tel r), SText (tea_password r)]"

definition leave_cells :: "leave_row \<Rightarrow> sqlite3_data list" where
  "leave_cells r = map cell [SInteger (lv_id r), SText (lv_student r), SText (lv_mentor r), SText (lv_instructor r),
     SText (lv_type r), SText (lv_reason r), SText (lv_begin r), SText (lv_end r), SInteger (lv_school r), SInteger (lv_status r)]"

section \<open>The statements\<close>

text \<open>The row of a primary key.\<close>

definition the_row :: "('a \<Rightarrow> 'k) \<Rightarrow> 'k \<Rightarrow> 'a list \<Rightarrow> 'a list" where
  "the_row key k rows = (case find (\<lambda>r. key r = k) rows of None \<Rightarrow> [] | Some r \<Rightarrow> [r])"

definition next_id :: "tables \<Rightarrow> int" where
  "next_id d = fold max (map lv_id (tab_leaves d)) (tab_seq d) + 1"

definition add_leave :: "sql_param list \<Rightarrow> tables \<Rightarrow> tables" where
  "add_leave ps d =
     (case ps of
        [PText student, PText mentor, PText instructor, PText type, PText reason, PText bg, PText ed, PInt school, PInt st] \<Rightarrow>
          d\<lparr>tab_seq := next_id d, tab_leaves := tab_leaves d @
            [\<lparr>lv_id = next_id d, lv_student = student, lv_mentor = mentor, lv_instructor = instructor, lv_type = type,
              lv_reason = reason, lv_begin = bg, lv_end = ed, lv_school = school, lv_status = st\<rparr>]\<rparr>
      | _ \<Rightarrow> d)"

definition add_student :: "sql_param list \<Rightarrow> tables \<Rightarrow> tables" where
  "add_student ps d =
     (case ps of
        [PText i, PText name, PText specialty, PInt year, PText sex, PText tel, PText password, PText instructor, PText mentor] \<Rightarrow>
          if i \<in> stu_id ` set (tab_students d) then d
          else d\<lparr>tab_students := tab_students d @
            [\<lparr>stu_id = i, stu_name = name, stu_specialty = specialty, stu_class = year, stu_sex = sex, stu_tel = tel,
              stu_password = password, stu_instructor = instructor, stu_mentor = mentor\<rparr>]\<rparr>
      | _ \<Rightarrow> d)"

definition add_teacher :: "sql_param list \<Rightarrow> tables \<Rightarrow> tables" where
  "add_teacher ps d =
     (case ps of
        [PText i, PText name, PText sex, PInt age, PText tel, PText password] \<Rightarrow>
          if i \<in> tea_id ` set (tab_teachers d) then d
          else d\<lparr>tab_teachers := tab_teachers d @
            [\<lparr>tea_id = i, tea_name = name, tea_sex = sex, tea_age = age, tea_tel = tel, tea_password = password\<rparr>]\<rparr>
      | _ \<Rightarrow> d)"

definition set_status :: "int \<Rightarrow> int \<Rightarrow> leave_row \<Rightarrow> leave_row" where
  "set_status n v r = (if lv_id r = n then r\<lparr>lv_status := v\<rparr> else r)"

text \<open>A key that is no text, or a number for a text column, matches no row.\<close>

definition by_text :: "(string \<Rightarrow> sqlite3_data list list) \<Rightarrow> sql_param list \<Rightarrow> sqlite3_data list list" where
  "by_text f ps = (case ps of [PText k] \<Rightarrow> f k | _ \<Rightarrow> [])"

definition by_int :: "(int \<Rightarrow> sqlite3_data list list) \<Rightarrow> sql_param list \<Rightarrow> sqlite3_data list list" where
  "by_int f ps = (case ps of [PInt k] \<Rightarrow> f k | _ \<Rightarrow> [])"

definition statement :: "string \<Rightarrow> (sql_param list \<Rightarrow> tables \<Rightarrow> sqlite3_data list list) option" where
  "statement = map_of
     [(''student_info'', \<lambda>ps d. by_text (\<lambda>k. map student_cells (the_row stu_id k (tab_students d))) ps),
      (''student_password'', \<lambda>ps d. by_text (\<lambda>k. map (\<lambda>r. [cell (SText (stu_password r))]) (the_row stu_id k (tab_students d))) ps),
      (''teacher_info'', \<lambda>ps d. by_text (\<lambda>k. map teacher_cells (the_row tea_id k (tab_teachers d))) ps),
      (''teacher_password'', \<lambda>ps d. by_text (\<lambda>k. map (\<lambda>r. [cell (SText (tea_password r))]) (the_row tea_id k (tab_teachers d))) ps),
      (''select_leave_status'', \<lambda>ps d. by_int (\<lambda>n. map (\<lambda>r. [cell (SInteger (lv_status r))]) (the_row lv_id n (tab_leaves d))) ps),
      (''select_leave_status_teachers'', \<lambda>ps d. by_int (\<lambda>n. map (\<lambda>r. [cell (SInteger (lv_status r)),
         cell (SText (lv_instructor r)), cell (SText (lv_mentor r))]) (the_row lv_id n (tab_leaves d))) ps),
      (''select_leave_info_instructor'', \<lambda>ps d. by_text (\<lambda>k. map leave_cells (filter (\<lambda>r. lv_instructor r = k) (tab_leaves d))) ps),
      (''select_leave_info_mentor'', \<lambda>ps d. by_text (\<lambda>k. map leave_cells (filter (\<lambda>r. lv_mentor r = k) (tab_leaves d))) ps),
      (''select_leave_info_student'', \<lambda>ps d. by_text (\<lambda>k. map leave_cells (filter (\<lambda>r. lv_student r = k) (tab_leaves d))) ps)]"

definition db_call :: "string \<Rightarrow> sql_param list \<Rightarrow> tables \<Rightarrow> sqlite3_data list list \<times> tables" where
  "db_call name ps d =
     (if name = ''insert_leave_info'' then ([], add_leave ps d)
      else if name = ''insert_student'' then ([], add_student ps d)
      else if name = ''insert_teacher'' then ([], add_teacher ps d)
      else if name = ''update_leave_info_status'' then
        ([], case ps of [PInt n, PInt v] \<Rightarrow> d\<lparr>tab_leaves := map (set_status n v) (tab_leaves d)\<rparr> | _ \<Rightarrow> d)
      else case statement name of Some f \<Rightarrow> (f ps d, d) | None \<Rightarrow> ([], d))"

section \<open>The contracts of the handlers hold\<close>

definition db_row :: "tables \<Rightarrow> int \<rightharpoonup> int \<times> string \<times> string" where
  "db_row d n = map_option (\<lambda>r. (int32 (lv_status r), lv_instructor r, lv_mentor r)) (find (\<lambda>r. lv_id r = n) (tab_leaves d))"

definition db_sane :: "tables \<Rightarrow> bool" where
  "db_sane d \<longleftrightarrow> (\<forall>r \<in> set (tab_students d). 1900 \<le> stu_class r \<and> stu_class r < 10000)"

lemma find_set_status:
  "find (\<lambda>r. lv_id r = k) (map (set_status n v) rs) = map_option (set_status n v) (find (\<lambda>r. lv_id r = k) rs)"
  by (induction rs) (auto simp: set_status_def)

lemma next_id_fresh: "find (\<lambda>r. lv_id r = next_id d) (tab_leaves d) = None"
proof -
  have "\<forall>x \<in> set xs. x \<le> fold max xs m" "m \<le> fold max xs m" for xs and m :: int
    by (induction xs arbitrary: m) (auto intro: order_trans [rotated] max.coboundedI1 max.coboundedI2, (meson max.bounded_iff order_trans)+)
  then have "lv_id r < next_id d" if "r \<in> set (tab_leaves d)" for r
    using that by (fastforce simp: next_id_def)
  then show ?thesis by (fastforce simp: find_None_iff)
qed

lemma int32_sint: "int32 (sint (w :: i32)) = sint w"
  by (simp add: int32_def)

lemma cell_simps [simp]: "int_data (cell (SInteger i)) = int32 i" "text_data (cell (SText t)) = t"
  by (simp_all add: cell_def FmtData_def)


lemma db_select_status:
  "db_call ''select_leave_status'' [PInt n] d = (map (\<lambda>r. [cell (SInteger (lv_status r))]) (the_row lv_id n (tab_leaves d)), d)"
  by (simp add: db_call_def statement_def by_int_def)

lemma db_select_teachers:
  "db_call ''select_leave_status_teachers'' [PInt n] d =
    (map (\<lambda>r. [cell (SInteger (lv_status r)), cell (SText (lv_instructor r)), cell (SText (lv_mentor r))])
       (the_row lv_id n (tab_leaves d)), d)"
  by (simp add: db_call_def statement_def by_int_def)

lemma db_update: "db_call ''update_leave_info_status'' [PInt n, PInt v] d = ([], d\<lparr>tab_leaves := map (set_status n v) (tab_leaves d)\<rparr>)"
  by (simp add: db_call_def)

lemma db_insert: "db_call ''insert_leave_info'' ps d = ([], add_leave ps d)"
  by (simp add: db_call_def)

lemma db_reads:
  "name \<notin> leave_writes \<Longrightarrow> db_call name ps d = (rows, d') \<Longrightarrow> tab_leaves d' = tab_leaves d"
  by (auto simp: db_call_def leave_writes_def add_student_def add_teacher_def split: if_splits option.splits list.splits sql_param.splits)

interpretation db: leave_table db_call db_row
proof
  fix n d rows d'
  assume "db_call ''select_leave_status'' [PInt n] d = (rows, d')"
  then show "case db_row d n of None \<Rightarrow> rows = [] | Some (st, i, m) \<Rightarrow> \<exists>c. rows = [[c]] \<and> int_data c = st"
    by (auto simp: db_select_status db_row_def the_row_def split: option.splits)
next
  fix n d rows d'
  assume "db_call ''select_leave_status_teachers'' [PInt n] d = (rows, d')"
  then show "case db_row d n of None \<Rightarrow> rows = []
      | Some (st, i, m) \<Rightarrow> \<exists>a b c. rows = [[a, b, c]] \<and> int_data a = st \<and> text_data b = i \<and> text_data c = m"
    by (auto simp: db_select_teachers db_row_def the_row_def split: option.splits)
next
  fix n d rows d' and w :: i32
  assume "db_call ''update_leave_info_status'' [PInt n, PInt (sint w)] d = (rows, d')"
  then have d': "d' = d\<lparr>tab_leaves := map (set_status n (sint w)) (tab_leaves d)\<rparr>" by (simp add: db_update)
  show "db_row d' = (case db_row d n of None \<Rightarrow> db_row d | Some (st, i, m) \<Rightarrow> (db_row d)(n \<mapsto> (sint w, i, m)))"
  proof
    fix k
    have id: "set_status n (sint w) r = r" if "find (\<lambda>r. lv_id r = k) (tab_leaves d) = Some r" "k \<noteq> n" for r
      using that by (auto simp: set_status_def find_Some_iff)
    have up: "set_status n (sint w) r = r\<lparr>lv_status := sint w\<rparr>" if "find (\<lambda>r. lv_id r = n) (tab_leaves d) = Some r" for r
      using that by (auto simp: set_status_def find_Some_iff)
    show "db_row d' k = (case db_row d n of None \<Rightarrow> db_row d | Some (st, i, m) \<Rightarrow> (db_row d)(n \<mapsto> (sint w, i, m))) k"
    proof (cases "find (\<lambda>r. lv_id r = n) (tab_leaves d)")
      case None
      then show ?thesis
        using id by (cases "k = n"; cases "find (\<lambda>r. lv_id r = k) (tab_leaves d)") (simp_all add: d' db_row_def find_set_status)
    next
      case (Some r)
      then show ?thesis
        using id up [OF Some]
        by (cases "k = n"; cases "find (\<lambda>r. lv_id r = k) (tab_leaves d)") (simp_all add: d' db_row_def find_set_status int32_sint)
    qed
  qed
next
  fix p1 m i p4 p5 p6 p7 p8 d rows d' and w :: i32
  assume c: "db_call ''insert_leave_info'' [p1, PText m, PText i, p4, p5, p6, p7, p8, PInt (sint w)] d = (rows, d')"
  show "db_row d' = db_row d \<or> (\<exists>n. db_row d n = None \<and> db_row d' = (db_row d)(n \<mapsto> (sint w, i, m)))"
  proof (cases "d' = d")
    case False
    then obtain r where r: "tab_leaves d' = tab_leaves d @ [r]" "lv_id r = next_id d" "lv_instructor r = i" "lv_mentor r = m"
      "lv_status r = sint w"
      using c by (auto simp: db_insert add_leave_def split: sql_param.splits)
    have "find P (xs @ [y]) = (case find P xs of None \<Rightarrow> if P y then Some y else None | Some z \<Rightarrow> Some z)" for P xs and y :: leave_row
      by (induction xs) simp_all
    then have "db_row d' = (db_row d)(next_id d \<mapsto> (sint w, i, m))"
      using next_id_fresh [of d] r by (auto simp: db_row_def fun_eq_iff int32_sint split: option.splits)
    moreover have "db_row d (next_id d) = None" using next_id_fresh by (simp add: db_row_def)
    ultimately show ?thesis by blast
  qed simp
next
  fix name ps d rows d'
  assume "db_call name ps d = (rows, d')" "name \<notin> leave_writes"
  then show "db_row d' = db_row d" using db_reads [of name ps d rows d'] by (simp add: db_row_def fun_eq_iff)
qed

lemma the_row_set: "set (the_row key k rs) \<subseteq> set rs"
  unfolding the_row_def by (induction rs) auto

lemma db_columns: "db_call name ps d = (rows, d') \<Longrightarrow> r \<in> set rows \<Longrightarrow> columns name \<le> length r"
  by (auto simp: db_call_def statement_def by_text_def by_int_def columns_def student_cells_def teacher_cells_def leave_cells_def
      split: if_splits list.splits sql_param.splits)

interpretation dbt: typed_tables db_call db_sane
proof
  fix d name ps rows d' r
  assume "db_call name ps d = (rows, d')" "r \<in> set rows"
  then show "columns name \<le> length r" by (rule db_columns)
next
  fix d ps rows d' r
  assume s: "db_sane d" and c: "db_call ''student_info'' ps d = (rows, d')" "r \<in> set rows"
  then obtain x where x: "x \<in> set (tab_students d)" "r = student_cells x"
    using the_row_set [of stu_id _ "tab_students d"]
    by (fastforce simp: db_call_def statement_def by_text_def split: list.splits sql_param.splits)
  then have "int_data (r ! 3) = int32 (stu_class x)" "1900 \<le> stu_class x" "stu_class x < 10000"
    using s by (auto simp: student_cells_def db_sane_def)
  moreover from this have "int32 (stu_class x) = stu_class x"
    by (simp add: int32_def sint_sbintrunc' signed_take_bit_int_eq_self)
  ultimately show "- (2 ^ 31) \<le> int_data (r ! 3) \<and> int_data (r ! 3) < 2 ^ 31 - 4" by simp
next
  fix d name ps rows d'
  assume "db_sane d" "name \<noteq> ''insert_student''" "db_call name ps d = (rows, d')"
  then show "db_sane d'"
    by (auto simp: db_sane_def db_call_def add_leave_def add_teacher_def split: if_splits option.splits list.splits sql_param.splits)
qed

section \<open>A small school\<close>

definition demo_env :: "tables env" where
  "demo_env = \<lparr>env_call = db_call, env_parse = (\<lambda>_. Inl ''no parser''), env_dump = (\<lambda>_. Inr ''{}''), env_tm = one_day 0,
     env_now = 0, env_localtime = one_day, env_mktime = (\<lambda>_. 86400), env_stack = no_junk\<rparr>"

definition demo_leave :: leave_row where
  "demo_leave = \<lparr>lv_id = 7, lv_student = ''2020000001'', lv_mentor = ''ann'', lv_instructor = ''tom'', lv_type = ''ill'',
     lv_reason = ''flu'', lv_begin = ''mon'', lv_end = ''tue'', lv_school = 1, lv_status = 4\<rparr>"

definition demo_db :: tables where
  "demo_db = \<lparr>tab_students = [\<lparr>stu_id = ''2020000001'', stu_name = ''bob'', stu_specialty = ''cs'', stu_class = 2020, stu_sex = ''m'',
       stu_tel = ''1'', stu_password = ''p'', stu_instructor = ''tom'', stu_mentor = ''ann''\<rparr>],
     tab_teachers = [], tab_leaves = [demo_leave], tab_seq = 7\<rparr>"

lemma demo_row: "db_row demo_db = [7 \<mapsto> (4, ''tom'', ''ann'')]"
  by (auto simp: db_row_def demo_db_def demo_leave_def int32_def)

lemma demo_token:
  assumes "ascii u" "CHR ''|'' \<notin> set u"
  shows "\<exists>tok. \<forall>j. jfind ''token'' j = Some (JStr tok) \<longrightarrow> token_user demo_env j = Some u"
proof -
  have s: "to_time_t (86400 * 10 ^ 9) = 86400" by (simp add: to_time_t_def)
  obtain tok where "Token_parse no_junk (\<lambda>_. 86400) 0 tok kTokenKey =
      Inr \<lparr>is_useful = True, is_in_time = (0 \<le> (86400 :: int) * 10 ^ 9), user_id = u, end_time = 86400 * 10 ^ 9\<rparr>"
    using token_comes_back [where localtime = one_day and mktime = "\<lambda>_. 86400" and now = 0,
        OF kTokenKey_ok assms Token_new_day, unfolded token.select_convs s, OF one_day_ok refl] by blast
  then have "token_user demo_env j = Some u" if "jfind ''token'' j = Some (JStr tok)" for j
    using that by (simp add: token_user_def demo_env_def)
  then show ?thesis by blast
qed

definition demo_request :: "string \<Rightarrow> json \<Rightarrow> request" where
  "demo_request p j = Request_default\<lparr>req_method := ''POST'', req_path := p, req_body_json := j\<rparr>"

definition approval_json :: "string \<Rightarrow> (string \<times> json) list" where
  "approval_json tok = [(''note_id'', JInt 7), (''status'', JBool True), (''token'', JStr tok)]"

lemma int_of_7: "res_bind (get_double (JInt 7)) (\<lambda>d. cpp (int_of_double d)) = Inr 7"
  by code_simp

lemma demo_simps [simp]: "env_call demo_env = db_call" "env_dump demo_env = (\<lambda>_. Inr ''{}'')"
  by (simp_all add: demo_env_def)

lemma demo_approval:
  assumes "the_string (req_json s) ''user'' = Inr ''tom''" "the_int (req_json s) ''note_id'' = Inr 7"
    and "jat (req_json s) ''status'' = Inr (JBool True)" "hs_app s = demo_db"
  shows "app_approval demo_env s = Done (s\<lparr>hs_app := demo_db\<lparr>tab_leaves := [demo_leave\<lparr>lv_status := 5\<rparr>]\<rparr>\<rparr>)"
proof -
  have st: "StudentStatus_of 4 = \<lparr>st_instructor = PendingApproval, st_mentor = Passed, st_destroyed = False\<rparr>" by code_simp
  have st5: "sint (status \<lparr>st_instructor = Passed, st_mentor = Passed, st_destroyed = False\<rparr>) = 5" by code_simp
  have i4: "int32 4 = 4" by code_simp
  have rows: "the_row lv_id 7 (tab_leaves demo_db) = [demo_leave]" by (simp add: the_row_def demo_db_def demo_leave_def)
  have cells: "lv_status demo_leave = 4" "lv_instructor demo_leave = ''tom''" "lv_mentor demo_leave = ''ann''"
    "map (set_status 7 v) (tab_leaves demo_db) = [demo_leave\<lparr>lv_status := v\<rparr>]" for v
    by (simp_all add: demo_leave_def set_status_def demo_db_def)
  have "TestJsonParam (req_json s) [''note_id'', ''status''] = Inr ()"
    using assms(2,3) by (intro TestJsonParam_ok) (auto dest: the_jfind jat_jfind)
  then show ?thesis
    using assms
    by (simp add: app_approval_def Let_def or_throw_simps call_sql_def db_select_teachers rows cols_def i4 st cells decide_bool
        db_update st5)
qed

definition demo_fs :: filesystem where "demo_fs = Map.empty"

lemma demo_served:
  "served db_call demo_db (demo_db\<lparr>tab_leaves := [demo_leave\<lparr>lv_status := 5\<rparr>]\<rparr>)"
proof -
  have u: "ascii ''tom''" "CHR ''|'' \<notin> set ''tom''" by (simp_all add: uchar_def)
  obtain tok where tok: "\<forall>j. jfind ''token'' j = Some (JStr tok) \<longrightarrow> token_user demo_env j = Some ''tom''"
    using demo_token [OF u] by blast
  define req where "req = demo_request ''/approval'' (JObj (approval_json tok))"
  define j where "j = JObj (approval_json tok @ [(''user'', JStr ''tom'')])"
  have "token_user demo_env (JObj (approval_json tok)) = Some ''tom''"
    using tok by (simp add: jfind_def approval_json_def)
  moreover have "jset ''user'' (JStr ''tom'') (JObj (approval_json tok)) = Inr j"
    by (simp add: jset_def approval_json_def j_def)
  ultimately have a: "authorised demo_env req = Some (''tom'', j)"
    by (simp add: authorised_def req_def demo_request_def request_json_def Request_default_def)
  have p: "path req \<noteq> ''/login''" "map_of app_routes (path req) = Some app_approval"
    by (simp_all add: req_def demo_request_def path_def app_routes_def)
  obtain r where r: "Handle (app_server demo_env 1) (\<lambda>_. False) demo_fs req Map.empty demo_db = Some (r, 0)"
    "r = catch_all demo_env (answer_ok demo_env (app_approval demo_env (with_json j (start_state req Map.empty demo_db))))"
    using handle_guarded [OF p, of demo_env 1 "\<lambda>_. False" demo_fs Map.empty demo_db] a by auto
  have "hs_app (final_state r) = demo_db\<lparr>tab_leaves := [demo_leave\<lparr>lv_status := 5\<rparr>]\<rparr>"
    unfolding r(2) catch_all_app answer_ok_app
    by (subst demo_approval) (use int_of_7 in \<open>simp_all add: j_def the_string_def the_int_def jat_def get_string_def approval_json_def\<close>)
  then show ?thesis using served_request [OF served_none _ r(1)] by simp
qed

section \<open>Witnesses\<close>

theorem guarded_routes_witness:
  "\<exists>r. Handle (app_server demo_env 1) (\<lambda>_. False) demo_fs (demo_request ''/release'' JNull) Map.empty demo_db = Some (r, 0) \<and>
     refused r demo_db"
proof -
  have p: "(path (demo_request ''/release'' JNull), app_release) \<in> set app_routes"
    by (simp add: app_routes_def path_def demo_request_def)
  have "authorised demo_env (demo_request ''/release'' JNull) = None"
    by (simp add: authorised_def request_json_def demo_request_def Request_default_def token_user_def jfind_def)
  then show ?thesis using guarded_routes [OF p, of demo_env 1 "\<lambda>_. False" demo_fs Map.empty demo_db] by simp
qed

lemma demo_good: "leaves_good db_row demo_db"
proof -
  have "sint (status (set_junior True StudentStatus_default)) = 4" by code_simp
  then have "\<exists>x. leave_reach x \<and> 4 = sint (status x)" by (metis leave_new)
  then show ?thesis by (simp add: leaves_good_def demo_row split: if_splits)
qed

theorem leave_life_witness:
  "\<exists>d y. served db_call demo_db d \<and> leaves_good db_row d \<and> db_row d 7 = Some (sint (status y), ''tom'', ''ann'') \<and> st_mentor y = Passed"
proof -
  have row: "db_row demo_db 7 = Some (4, ''tom'', ''ann'')" by (simp add: demo_row)
  from leave_life [OF db.leave_table_axioms demo_good demo_served row]
  obtain x y where xy: "4 = sint (status x)" "leave_reach x" "st_mentor x = PendingApproval \<or> st_mentor y = st_mentor x"
    "leaves_good db_row (demo_db\<lparr>tab_leaves := [demo_leave\<lparr>lv_status := 5\<rparr>]\<rparr>)"
    "db_row (demo_db\<lparr>tab_leaves := [demo_leave\<lparr>lv_status := 5\<rparr>]\<rparr>) 7 = Some (sint (status y), ''tom'', ''ann'')"
    by (elim conjE exE) (rule that)
  have "sint (status (set_junior True StudentStatus_default)) = 4" by code_simp
  then have "x = set_junior True StudentStatus_default"
    by (intro db.status_inj [OF xy(2) leave_new [of True]]) (simp only: xy(1) [symmetric])
  then have "st_mentor x = Passed" by (simp add: junior_status)
  then have "st_mentor y = Passed" using xy(3) by (simp add: PendingApproval_def Passed_def)
  then show ?thesis using demo_served xy(4,5) by blast
qed

definition demo_state :: "string \<Rightarrow> (string \<times> json) list \<Rightarrow> tables hstate" where
  "demo_state p kvs = with_json (JObj kvs) (start_state (demo_request p JNull) Map.empty demo_db)"

lemma demo_state_simps [simp]: "hs_app (demo_state p kvs) = demo_db" "req_json (demo_state p kvs) = JObj kvs"
  by (simp_all add: demo_state_def)

theorem approval_effect_witness:
  "\<exists>d. app_approval demo_env (demo_state ''/approval'' [(''note_id'', JInt 7), (''status'', JBool True), (''user'', JStr ''ann'')]) =
     throw_http (HttpException_code_msg 200 403 ''status must be pending approval.'')
       (demo_state ''/approval'' [(''note_id'', JInt 7), (''status'', JBool True), (''user'', JStr ''ann'')]\<lparr>hs_app := d\<rparr>) \<and>
     db_row d = db_row demo_db"
proof -
  define j where "j = JObj [(''note_id'', JInt 7), (''status'', JBool True), (''user'', JStr ''ann'')]"
  define s where "s = demo_state ''/approval'' [(''note_id'', JInt 7), (''status'', JBool True), (''user'', JStr ''ann'')]"
  define x where "x = set_junior True StudentStatus_default"
  have "sint (status x) = 4" unfolding x_def by code_simp
  then have row: "db_row (hs_app s) 7 = Some (sint (status x), ''tom'', ''ann'')" by (simp add: s_def demo_row)
  have f: "the_string (req_json s) ''user'' = Inr ''ann''" "the_int (req_json s) ''note_id'' = Inr 7"
    "jat (req_json s) ''status'' = Inr (JBool True)"
    using int_of_7 by (simp_all add: s_def the_string_def the_int_def jat_def get_string_def)
  have "leave_reach x" unfolding x_def by (rule leave_new)
  moreover have "st_mentor x = Passed" unfolding x_def by (rule junior_status)
  ultimately show ?thesis
    using approval_effect [where env = demo_env, unfolded demo_simps, OF db.leave_table_axioms row _ f]
    by (auto simp: approve_def s_def Let_def PendingApproval_def Passed_def)
qed

theorem leave_skips_mentor_witness:
  "\<exists>d. app_leave demo_env (with_json (JObj [(''is_school'', JBool True), (''leave_reason'', JStr ''flu''), (''leave_type'', JStr ''ill''),
       (''time_begin'', JStr ''mon''), (''time_end'', JStr ''tue''), (''user'', JStr ''2020000001'')])
       (demo_state ''/leave'' [])) = Done d \<and> db_row (hs_app d) 8 = Some (4, ''tom'', ''ann'')"
proof -
  define j where "j = JObj [(''is_school'', JBool True), (''leave_reason'', JStr ''flu''), (''leave_type'', JStr ''ill''),
       (''time_begin'', JStr ''mon''), (''time_end'', JStr ''tue''), (''user'', JStr ''2020000001'')]"
  define r where "r = student_cells (hd (tab_students demo_db))"
  have f: "the_string j ''user'' = Inr ''2020000001''" "the_string j ''leave_type'' = Inr ''ill''" "the_string j ''leave_reason'' = Inr ''flu''"
    "the_string j ''time_begin'' = Inr ''mon''" "the_string j ''time_end'' = Inr ''tue''" "jat j ''is_school'' = Inr (JBool True)"
    by (simp_all add: j_def the_string_def jat_def get_string_def)
  have c: "env_call demo_env ''student_info'' [PText ''2020000001''] (hs_app (demo_state ''/leave'' [])) = ([r], demo_db)"
    by (simp add: db_call_def statement_def by_text_def the_row_def demo_db_def r_def)
  have r: "length r = 9" "int_data (r ! 3) = int32 2020" "text_data (r ! 8) = ''ann''" "text_data (r ! 7) = ''tom''"
    by (simp_all add: r_def student_cells_def demo_db_def)
  have "int32 2020 = 2020" by code_simp
  then have y: "1900 \<le> int_data (r ! 3)" "int_data (r ! 3) < 2 ^ 31 - 4" "tm_year (env_tm demo_env) < 1900"
    using r(2) by (simp_all add: demo_env_def one_day_def)
  from leave_skips_mentor [OF f c r(1) y] show ?thesis
    unfolding j_def [symmetric]
    by (simp add: r db_insert add_leave_def db_row_def next_id_def demo_db_def demo_leave_def int32_def)
qed

theorem search_pages_witness:
  "\<exists>r. app_search_leave demo_env (demo_state ''/search_leave'' [(''max_num'', JInt 7), (''page'', JInt 7), (''user'', JStr ''tom'')]) =
     throw_http (HttpException_body (jobject [(''data'', r)]))
       (demo_state ''/search_leave'' [(''max_num'', JInt 7), (''page'', JInt 7), (''user'', JStr ''tom'')]) \<and> r = JNull"
proof -
  define s where "s = demo_state ''/search_leave'' [(''max_num'', JInt 7), (''page'', JInt 7), (''user'', JStr ''tom'')]"
  have f: "the_string (req_json s) ''user'' = Inr ''tom''" "the_int (req_json s) ''page'' = Inr 7" "the_int (req_json s) ''max_num'' = Inr 7"
    using int_of_7 by (simp_all add: s_def the_string_def the_int_def jat_def get_string_def)
  have l: "leaves_of demo_env ''tom'' (hs_app s) = ([leave_cells demo_leave], demo_db)"
    by (simp add: leaves_of_def is_teacher_def db_call_def statement_def by_text_def s_def) (simp add: demo_db_def demo_leave_def)
  have d: "s\<lparr>hs_app := demo_db\<rparr> = s" by (simp add: s_def demo_state_def with_json_def start_state_def)
  show ?thesis
    unfolding s_def [symmetric]
    using search_pages [OF f _ _ l, of 1] by (simp add: d leave_cells_def page_of_def)
qed


end
