(* ===== verification/Student_Race.thy ===== *)
theory Student_Race
  imports Student_Db
begin

text \<open>
  The handlers run in the workers of the thread pool, so the calls of two requests to the database
  interleave.  A handler is a program of accesses to the database: run alone it is the handler of
  the application, and two of them run under a schedule.
\<close>

section \<open>Programs of accesses\<close>

datatype 'r access = Return 'r | Access string "sql_param list" "sqlite3_data list list \<Rightarrow> 'r access"

type_synonym 'd sql_call = "string \<Rightarrow> sql_param list \<Rightarrow> 'd \<Rightarrow> sqlite3_data list list \<times> 'd"

primrec run_alone :: "'d sql_call \<Rightarrow> 'r access \<Rightarrow> 'd \<Rightarrow> 'r \<times> 'd" where
  "run_alone call (Return r) d = (r, d)"
| "run_alone call (Access n ps k) d = (let (rows, d) = call n ps d in run_alone call (k rows) d)"

definition step_access :: "'d sql_call \<Rightarrow> 'r access \<Rightarrow> 'd \<Rightarrow> 'r access \<times> 'd" where
  "step_access call p d = (case p of Return r \<Rightarrow> (p, d) | Access n ps k \<Rightarrow> (let (rows, d) = call n ps d in (k rows, d)))"

text \<open>A schedule says which of the two makes the next access.\<close>

primrec run_both :: "'d sql_call \<Rightarrow> bool list \<Rightarrow> 'r access \<times> 'r access \<Rightarrow> 'd \<Rightarrow> ('r access \<times> 'r access) \<times> 'd" where
  "run_both call [] pq d = (pq, d)"
| "run_both call (b # bs) pq d =
     (let (p, q) = pq in
      if b then (let (p, d) = step_access call p d in run_both call bs (p, q) d)
      else (let (q, d) = step_access call q d in run_both call bs (p, q) d))"

section \<open>An approval as a program\<close>

text \<open>The result is the exception, if one is thrown.\<close>

definition or_fail :: "'a jresult \<Rightarrow> ('a \<Rightarrow> exn option access) \<Rightarrow> exn option access" where
  "or_fail r k = (case r of Inl e \<Rightarrow> Return (Some e) | Inr x \<Rightarrow> k x)"

definition approval_prog :: "json \<Rightarrow> exn option access" where
  "approval_prog j =
     or_fail (the_string j ''user'') (\<lambda>user.
     or_fail (TestJsonParam j [''note_id'', ''status'']) (\<lambda>_.
     or_fail (the_int j ''note_id'') (\<lambda>note_id.
     Access ''select_leave_status_teachers'' [PInt note_id] (\<lambda>db_res.
     if length db_res \<noteq> 1 then Return (Some (HttpExc (HttpException_msg 404 ''Not found this leave.'')))
     else
       or_fail (cols (db_res ! 0) 3) (\<lambda>r.
       let st = StudentStatus_of (word_of_int (int_data (r ! 0)));
           instructor = (user = text_data (r ! 1)); mentor = (user = text_data (r ! 2)) in
       if \<not> instructor \<and> \<not> mentor
       then Return (Some (HttpExc (HttpException_msg 403 ''No permissions, you must be leave's teacher.'')))
       else
         or_fail (decide instructor (st_instructor st) (jat j ''status'')) (\<lambda>i.
         or_fail (decide mentor (st_mentor st) (jat j ''status'')) (\<lambda>m.
         Access ''update_leave_info_status''
           [PInt note_id, PInt (sint (status (st\<lparr>st_instructor := i, st_mentor := m\<rparr>)))] (\<lambda>_. Return None))))))))"

definition outcome_of :: "'d hstate \<Rightarrow> exn option \<times> 'd \<Rightarrow> 'd hstate outcome" where
  "outcome_of s = (\<lambda>(r, d). case r of None \<Rightarrow> Done (s\<lparr>hs_app := d\<rparr>) | Some e \<Rightarrow> Thrown e (s\<lparr>hs_app := d\<rparr>))"

lemma outcome_or_fail:
  assumes "\<And>x. outcome_of s (run_alone call (k x) d) = k' x"
  shows "outcome_of s (run_alone call (or_fail r k) d) = or_throw (s\<lparr>hs_app := d\<rparr>) r k'"
  using assms by (cases r) (simp_all add: or_fail_def or_throw_def outcome_of_def)

lemma outcome_access:
  assumes "\<And>rows d'. outcome_of s (run_alone (env_call env) (k rows) d') = k' rows (s\<lparr>hs_app := d'\<rparr>)"
  shows "outcome_of s (run_alone (env_call env) (Access n ps k) d) = call_sql env n ps (s\<lparr>hs_app := d\<rparr>) k'"
  using assms by (cases "env_call env n ps d") (simp add: call_sql_def)

lemma outcome_return: "outcome_of s (run_alone call (Return (Some (HttpExc e))) d) = throw_http e (s\<lparr>hs_app := d\<rparr>)"
  "outcome_of s (run_alone call (Return None) d) = Done (s\<lparr>hs_app := d\<rparr>)"
  by (simp_all add: outcome_of_def throw_http_def)

lemma outcome_if: "outcome_of s (run_alone call p d) = a \<Longrightarrow> outcome_of s (run_alone call q d) = b \<Longrightarrow>
   outcome_of s (run_alone call (if c then p else q) d) = (if c then a else b)"
  by simp

lemma approval_prog_alone:
  "outcome_of s (run_alone (env_call env) (approval_prog (req_json s)) (hs_app s)) = app_approval env s"
proof -
  have "outcome_of s (run_alone (env_call env) (approval_prog (req_json s)) d) = app_approval env (s\<lparr>hs_app := d\<rparr>)" for d
  proof -
    have j: "req_json (s\<lparr>hs_app := d\<rparr>) = req_json s" by (simp add: req_json_def)
    show ?thesis
      unfolding approval_prog_def app_approval_def Let_def j
      by (intro outcome_or_fail outcome_access outcome_if outcome_return)
  qed
  from this [of "hs_app s"] show ?thesis by simp
qed

section \<open>Two approvals at once\<close>

text \<open>What is left of an approval after its first access, and after its second.\<close>

lemma approval_first:
  assumes "leave_table call row_of" "row_of d n = Some (sint (status x), i, m)" "leave_reach x"
    and "the_string j ''user'' = Inr u" "the_int j ''note_id'' = Inr n" "jat j ''status'' = Inr (JBool b)"
    and "approve u b (x, i, m) = Inr y"
  shows "\<exists>d'. step_access call (approval_prog j) d =
      (Access ''update_leave_info_status'' [PInt n, PInt (sint (status y))] (\<lambda>_. Return None), d') \<and> row_of d' = row_of d"
proof -
  obtain rows d1 where c: "call ''select_leave_status_teachers'' [PInt n] d = (rows, d1)" by force
  obtain a t1 t2 where r: "rows = [[a, t1, t2]]" "int_data a = sint (status x)" "text_data t1 = i" "text_data t2 = m"
    using leave_table.select_teachers [OF assms(1) c] assms(2) by auto
  have same: "row_of d1 = row_of d"
    using leave_table.reads [OF assms(1) c] by (simp add: leave_writes_def)
  have test: "TestJsonParam j [''note_id'', ''status''] = Inr ()"
    using the_jfind(2) [OF assms(5)] jat_jfind [OF assms(6)] by (intro TestJsonParam_ok) simp
  have "u = i \<or> u = m" and dec: "u = i \<longrightarrow> st_instructor x = PendingApproval" "u = m \<longrightarrow> st_mentor x = PendingApproval"
    and y: "y = x\<lparr>st_instructor := (if u = i then if b then Passed else Rejection else st_instructor x),
        st_mentor := (if u = m then if b then Passed else Rejection else st_mentor x)\<rparr>"
    using assms(7) by (auto simp: approve_def Let_def split: if_splits)
  then show ?thesis
    using same r
    by (auto simp: step_access_def approval_prog_def or_fail_def assms(4-6) test c cols_def Let_def decide_bool
        status_of_status [OF leave_reach_ok [OF assms(3)]])
qed

lemma approval_second:
  assumes "leave_table call row_of" "row_of d n = Some (st, i, m)"
  shows "\<exists>d'. step_access call (Access ''update_leave_info_status'' [PInt n, PInt (sint (status y))] (\<lambda>_. Return (None :: exn option))) d =
      (Return None, d') \<and> row_of d' = (row_of d)(n \<mapsto> (sint (status y), i, m))"
proof -
  obtain rows d' where c: "call ''update_leave_info_status'' [PInt n, PInt (sint (status y))] d = (rows, d')" by force
  from leave_table.update [OF assms(1) c] assms(2) show ?thesis by (auto simp: step_access_def c)
qed

text \<open>
  C8: Two teachers who decide on the same leave at the same time lose a decision: if both requests read
  the leave before one of them writes it, both are answered without an error, and the leave is left
  as if only the one that wrote last had decided; one after the other, both decisions are kept.
\<close>

theorem approvals_race:
  assumes "leave_table call row_of" "row_of d n = Some (sint (status x), i, m)" "leave_reach x" "i \<noteq> m"
    and "the_string j ''user'' = Inr i" "the_int j ''note_id'' = Inr n" "jat j ''status'' = Inr (JBool b)"
    and "the_string j' ''user'' = Inr m" "the_int j' ''note_id'' = Inr n" "jat j' ''status'' = Inr (JBool b')"
    and "st_instructor x = PendingApproval" "st_mentor x = PendingApproval"
  shows "\<exists>d1 d2. run_both call [True, False, True, False] (approval_prog j, approval_prog j') d = ((Return None, Return None), d1) \<and>
      row_of d1 n = Some (sint (status (x\<lparr>st_mentor := (if b' then Passed else Rejection)\<rparr>)), i, m) \<and>
    run_both call [True, True, False, False] (approval_prog j, approval_prog j') d = ((Return None, Return None), d2) \<and>
      row_of d2 n = Some (sint (status (x\<lparr>st_instructor := (if b then Passed else Rejection),
        st_mentor := (if b' then Passed else Rejection)\<rparr>)), i, m)"
proof -
  define y where "y = x\<lparr>st_instructor := (if b then Passed else Rejection)\<rparr>"
  define z where "z = x\<lparr>st_mentor := (if b' then Passed else Rejection)\<rparr>"
  define w where "w = y\<lparr>st_mentor := (if b' then Passed else Rejection)\<rparr>"
  define upd where "upd s = Access ''update_leave_info_status'' [PInt n, PInt (sint (status s))] (\<lambda>_. Return (None :: exn option))" for s
  have ry: "leave_reach y" unfolding y_def
    using leave_next [OF assms(3) by_instructor [OF assms(11)]] by simp
  have ay: "approve i b (x, i, m) = Inr y" using assms(4,11) by (simp add: approve_def y_def)
  have az: "approve m b' (x, i, m) = Inr z" using assms(4,12) by (simp add: approve_def z_def)
  have aw: "approve m b' (y, i, m) = Inr w" using assms(4,12) by (simp add: approve_def y_def w_def)
  obtain da where a: "step_access call (approval_prog j) d = (upd y, da)" "row_of da = row_of d"
    using approval_first [OF assms(1-3,5-7) ay] by (auto simp: upd_def)
  obtain db where b: "step_access call (approval_prog j') da = (upd z, db)" "row_of db = row_of d"
    using approval_first [OF assms(1) _ assms(3,8-10) az, of da] a(2) assms(2) by (auto simp: upd_def)
  obtain dc where c: "step_access call (upd y) db = (Return None, dc)" "row_of dc = (row_of d)(n \<mapsto> (sint (status y), i, m))"
    using approval_second [OF assms(1), of db n _ i m y] b(2) assms(2) by (auto simp: upd_def)
  obtain dd where d: "step_access call (upd z) dc = (Return None, dd)" "row_of dd n = Some (sint (status z), i, m)"
    using approval_second [OF assms(1), of dc n _ i m z] c(2) that by (fastforce simp: upd_def)
  obtain dc' where c': "step_access call (upd y) da = (Return None, dc')" "row_of dc' = (row_of d)(n \<mapsto> (sint (status y), i, m))"
    using approval_second [OF assms(1), of da n _ i m y] a(2) assms(2) by (auto simp: upd_def)
  obtain dw where e: "step_access call (approval_prog j') dc' = (upd w, dw)" "row_of dw = row_of dc'"
    using approval_first [OF assms(1) _ ry assms(8-10) aw, of dc'] c'(2) by (auto simp: upd_def)
  obtain df where f: "step_access call (upd w) dw = (Return None, df)" "row_of df n = Some (sint (status w), i, m)"
    using approval_second [OF assms(1), of dw n _ i m w] e(2) c'(2) that by (fastforce simp: upd_def)
  have "run_both call [True, False, True, False] (approval_prog j, approval_prog j') d = ((Return None, Return None), dd)"
    by (simp add: a b c d)
  moreover have "run_both call [True, True, False, False] (approval_prog j, approval_prog j') d = ((Return None, Return None), df)"
    by (simp add: a c' e f)
  ultimately show ?thesis using d(2) f(2) by (simp add: z_def w_def y_def)
qed

theorem approvals_race_witness:
  "\<exists>j j' d1. run_both db_call [True, False, True, False] (approval_prog j, approval_prog j')
       (demo_db\<lparr>tab_leaves := [demo_leave\<lparr>lv_status := 0\<rparr>]\<rparr>) = ((Return None, Return None), d1) \<and>
     db_row d1 7 = Some (sint (status (StudentStatus_default\<lparr>st_mentor := Rejection\<rparr>)), ''tom'', ''ann'')"
proof -
  define d where "d = demo_db\<lparr>tab_leaves := [demo_leave\<lparr>lv_status := 0\<rparr>]\<rparr>"
  define j where "j v u = JObj [(''note_id'', JInt 7), (''status'', JBool v), (''user'', JStr u)]" for v u
  have f: "the_string (j v u) ''user'' = Inr u" "the_int (j v u) ''note_id'' = Inr 7" "jat (j v u) ''status'' = Inr (JBool v)" for v u
    using int_of_7 by (simp_all add: j_def the_string_def the_int_def jat_def get_string_def)
  have "sint (status StudentStatus_default) = 0" "int32 0 = 0" by code_simp+
  then have row: "db_row d 7 = Some (sint (status StudentStatus_default), ''tom'', ''ann'')"
    by (simp add: d_def db_row_def demo_leave_def)
  have reach: "leave_reach StudentStatus_default" using leave_new [of False] by (simp add: junior_status)
  have pending: "st_instructor StudentStatus_default = PendingApproval" "st_mentor StudentStatus_default = PendingApproval"
    by (simp_all add: StudentStatus_default_def)
  from approvals_race [OF db.leave_table_axioms row reach _ f [of True] f [of False] pending] show ?thesis
    unfolding d_def [symmetric] by auto
qed

end
