(* ===== verification/Student_Programs.thy ===== *)
theory Student_Programs
  imports Student_Race
begin

text \<open>
  Every handler of the application as a program of accesses, and any number of requests at work at
  the same time: a schedule says whose access is next, and an access to the database is one step.
\<close>

section \<open>The handlers as programs\<close>

abbreviation fail_http :: "http_exception \<Rightarrow> exn option access" where
  "fail_http e \<equiv> Return (Some (HttpExc e))"

definition login_prog :: "'d env \<Rightarrow> json \<Rightarrow> exn option access" where
  "login_prog env j =
     (let refuse = fail_http (HttpException_code_msg 202 400 ''Accepted, password error or no that user.'') in
      or_fail (TestJsonParam j [''user'', ''password'']) (\<lambda>_.
      or_fail (the_string j ''user'') (\<lambda>user.
      Access (if is_teacher user then ''teacher_password'' else ''student_password'') [PText user] (\<lambda>db_res.
      if length db_res \<noteq> 1 then refuse
      else
        or_fail (col (db_res ! 0) 0) (\<lambda>c.
        or_fail (jat j ''password'') (\<lambda>password.
        if jtext c \<noteq> password then refuse
        else
          or_fail (cpp (Token_new user (24 * 3600) (env_now env) (env_now env))) (\<lambda>token.
          or_fail (cpp (Token_Encode (env_stack env) (env_localtime env) kTokenKey token)) (\<lambda>tok.
          fail_http (HttpException_body (jobject [(''token'', JStr tok)]))))))))))"

definition answer_row_prog :: "(sqlite3_data list \<Rightarrow> json) \<Rightarrow> nat \<Rightarrow> sqlite3_data list list \<Rightarrow> exn option access" where
  "answer_row_prog f n db_res =
     (if length db_res \<noteq> 1 then fail_http (HttpException_msg 404 ''not found user'')
      else or_fail (cols (db_res ! 0) n) (\<lambda>r. fail_http (HttpException_body (f r))))"

definition self_prog :: "json \<Rightarrow> exn option access" where
  "self_prog j =
     or_fail (the_string j ''user'') (\<lambda>user.
     if is_teacher user then Access ''teacher_info'' [PText user] (answer_row_prog teacher_json 5)
     else Access ''student_info'' [PText user] (answer_row_prog student_json 9))"

definition student_info_prog :: "json \<Rightarrow> exn option access" where
  "student_info_prog j =
     or_fail (the_string j ''user'') (\<lambda>user.
     or_fail (TestJsonParam j [''id'']) (\<lambda>_.
     if is_teacher user then
       or_fail (the_string j ''id'') (\<lambda>i. Access ''student_info'' [PText i] (answer_row_prog student_json 9))
     else fail_http (HttpException_msg 403 ''You must be teacher.'')))"

definition leave_prog :: "tm \<Rightarrow> json \<Rightarrow> exn option access" where
  "leave_prog now j =
     or_fail (the_string j ''user'') (\<lambda>user.
     or_fail (TestJsonParam j [''leave_type'', ''leave_reason'', ''time_begin'', ''time_end'', ''is_school'']) (\<lambda>_.
     Access ''student_info'' [PText user] (\<lambda>db_res.
     if length db_res \<noteq> 1 then fail_http (HttpException_msg 404 ''Not found student's teachers'')
     else
       or_fail (cols (db_res ! 0) 9) (\<lambda>r.
       or_fail (the_string j ''leave_type'') (\<lambda>leave_type.
       or_fail (the_string j ''leave_reason'') (\<lambda>leave_reason.
       or_fail (the_string j ''time_begin'') (\<lambda>time_begin.
       or_fail (the_string j ''time_end'') (\<lambda>time_end.
       or_fail (res_bind (jat j ''is_school'') get_bool) (\<lambda>is_school.
       or_fail (chk_int (int_data (r ! 3) + 4)) (\<lambda>graduate_year.
       let st = set_junior (\<not> is_graduate now graduate_year) StudentStatus_default in
       Access ''insert_leave_info''
         [PText user, PText (text_data (r ! 8)), PText (text_data (r ! 7)), PText leave_type, PText leave_reason,
          PText time_begin, PText time_end, PInt (if is_school then 1 else 0), PInt (sint (status st))]
         (\<lambda>_. Return None)))))))))))"

definition release_prog :: "json \<Rightarrow> exn option access" where
  "release_prog j =
     or_fail (the_string j ''user'') (\<lambda>user.
     or_fail (TestJsonParam j [''note_id'']) (\<lambda>_.
     or_fail (the_int j ''note_id'') (\<lambda>note_id.
     Access ''select_leave_status'' [PInt note_id] (\<lambda>db_res.
     if length db_res \<noteq> 1 then fail_http (HttpException_msg 404 ''Not found leave info'')
     else
       or_fail (col (db_res ! 0) 0) (\<lambda>c.
       let st = StudentStatus_of (word_of_int (int_data c)) in
       if \<not> is_passed st then fail_http (HttpException_code_msg 200 403 ''status must be passed.'')
       else
         Access ''update_leave_info_status'' [PInt note_id, PInt (sint (status (st\<lparr>st_destroyed := True\<rparr>)))]
           (\<lambda>_. Return None))))))"

definition leave_rows_prog :: "string \<Rightarrow> (sqlite3_data list list \<Rightarrow> exn option access) \<Rightarrow> exn option access" where
  "leave_rows_prog user k =
     (if is_teacher user then
        Access ''select_leave_info_instructor'' [PText user] (\<lambda>rows.
        if rows = [] then Access ''select_leave_info_mentor'' [PText user] k else k rows)
      else Access ''select_leave_info_student'' [PText user] k)"

definition search_leave_prog :: "json \<Rightarrow> exn option access" where
  "search_leave_prog j =
     or_fail (the_string j ''user'') (\<lambda>user.
     or_fail (page_bounds j) (\<lambda>(page, max_num).
     leave_rows_prog user (\<lambda>db_res.
     or_fail (chk_int ((page - 1) * max_num)) (\<lambda>bg.
     or_fail (chk_int (page * max_num)) (\<lambda>ed.
     let rows = page_rows bg ed db_res in
     if \<exists>r \<in> set rows. length r < 10 then Return (Some (CppExc OutOfBounds))
     else fail_http (HttpException_body (jobject [(''data'', if rows = [] then JNull else JArr (map leave_json rows))])))))))"

definition search_leave_num_prog :: "json \<Rightarrow> exn option access" where
  "search_leave_num_prog j =
     or_fail (the_string j ''user'') (\<lambda>user.
     leave_rows_prog user (\<lambda>db_res.
     fail_http (HttpException_body (jobject [(''num'', JInt (int (length db_res)))]))))"

definition route_programs :: "(string \<times> ('d env \<Rightarrow> json \<Rightarrow> exn option access)) list" where
  "route_programs =
     [(''/login'', login_prog), (''/self'', \<lambda>_. self_prog), (''/leave'', \<lambda>env. leave_prog (env_tm env)),
      (''/release'', \<lambda>_. release_prog), (''/student_info'', \<lambda>_. student_info_prog),
      (''/search_leave'', \<lambda>_. search_leave_prog), (''/search_leave_num'', \<lambda>_. search_leave_num_prog),
      (''/approval'', \<lambda>_. approval_prog)]"

section \<open>Run alone\<close>

lemma outcome_prod: "(\<And>a b. outcome_of s (run_alone call (f a b) d) = g a b) \<Longrightarrow>
   outcome_of s (run_alone call (case x of (a, b) \<Rightarrow> f a b) d) = (case x of (a, b) \<Rightarrow> g a b)"
  by (cases x) simp

lemma outcome_thrown: "outcome_of s (run_alone call (Return (Some e)) d) = Thrown e (s\<lparr>hs_app := d\<rparr>)"
  by (simp add: outcome_of_def)

text \<open>A program is a handler if it does the same to every state, whatever the database in it.\<close>

definition programs :: "'d env \<Rightarrow> (json \<Rightarrow> exn option access) \<Rightarrow> 'd handler_fun \<Rightarrow> bool" where
  "programs env p f \<longleftrightarrow>
     (\<forall>s d. outcome_of s (run_alone (env_call env) (p (req_json s)) d) = f (s\<lparr>hs_app := d\<rparr>))"

lemma programs_alone: "programs env p f \<Longrightarrow> outcome_of s (run_alone (env_call env) (p (req_json s)) (hs_app s)) = f s"
  unfolding programs_def by (drule spec [of _ s], drule spec [of _ "hs_app s"]) simp

lemma req_json_app [simp]: "req_json (s\<lparr>hs_app := d\<rparr>) = req_json s"
  by (simp add: req_json_def)

lemmas outcome_rules = outcome_prod outcome_or_fail outcome_access outcome_if outcome_return outcome_thrown

lemma outcome_answer_row: "outcome_of s (run_alone call (answer_row_prog f n rows) d) = answer_row f n rows (s\<lparr>hs_app := d\<rparr>)"
  unfolding answer_row_prog_def answer_row_def by (intro outcome_rules)

lemma outcome_leave_rows:
  assumes "\<And>rows d. outcome_of s (run_alone (env_call env) (k rows) d) = k' rows (s\<lparr>hs_app := d\<rparr>)"
  shows "outcome_of s (run_alone (env_call env) (leave_rows_prog user k) d) = leave_rows env user (s\<lparr>hs_app := d\<rparr>) k'"
  unfolding leave_rows_prog_def leave_rows_def
  by (intro outcome_if outcome_access assms)

lemma login_programs: "programs env (login_prog env) (app_login env)"
  unfolding programs_def login_prog_def app_login_def Let_def req_json_app
  by (intro allI outcome_rules)

lemma self_programs: "programs env self_prog (app_self env)"
  unfolding programs_def self_prog_def app_self_def Let_def req_json_app
  by (intro allI outcome_rules outcome_answer_row)

lemma student_info_programs: "programs env student_info_prog (app_student_info env)"
  unfolding programs_def student_info_prog_def app_student_info_def Let_def req_json_app
  by (intro allI outcome_rules outcome_answer_row)

lemma leave_programs: "programs env (leave_prog (env_tm env)) (app_leave env)"
  unfolding programs_def leave_prog_def app_leave_def Let_def req_json_app
  by (intro allI outcome_rules)

lemma release_programs: "programs env release_prog (app_release env)"
  unfolding programs_def release_prog_def app_release_def Let_def req_json_app
  by (intro allI outcome_rules)

lemma approval_programs: "programs env approval_prog (app_approval env)"
  unfolding programs_def approval_prog_def app_approval_def Let_def req_json_app
  by (intro allI outcome_rules)

lemma search_leave_programs: "programs env search_leave_prog (app_search_leave env)"
  unfolding programs_def search_leave_prog_def app_search_leave_def Let_def req_json_app
  by (intro allI outcome_rules outcome_leave_rows)

lemma search_leave_num_programs: "programs env search_leave_num_prog (app_search_leave_num env)"
  unfolding programs_def search_leave_num_prog_def app_search_leave_num_def Let_def req_json_app
  by (intro allI outcome_rules outcome_leave_rows)

lemmas alone_programs = programs_alone [OF login_programs] programs_alone [OF self_programs]
  programs_alone [OF student_info_programs] programs_alone [OF leave_programs] programs_alone [OF release_programs]
  programs_alone [OF approval_programs] programs_alone [OF search_leave_programs] programs_alone [OF search_leave_num_programs]


section \<open>Many requests at once\<close>

text \<open>
  The requests at work are a list, a request that has not arrived is one that was not scheduled yet;
  the schedule names the request whose access is next.
\<close>

primrec run_crowd :: "'d sql_call \<Rightarrow> nat list \<Rightarrow> 'r access list \<times> 'd \<Rightarrow> 'r access list \<times> 'd" where
  "run_crowd call [] c = c"
| "run_crowd call (i # is) c =
     (let (ps, d) = c in
      if i < length ps then (let (p, d) = step_access call (ps ! i) d in run_crowd call is (ps[i := p], d))
      else run_crowd call is c)"

definition route_request :: "'d env \<Rightarrow> exn option access \<Rightarrow> bool" where
  "route_request env p \<longleftrightarrow> (\<exists>path g j. (path, g) \<in> set route_programs \<and> p = g env j)"

lemma teacher_requests: "route_request env (approval_prog j)" "route_request env (release_prog j)"
  unfolding route_request_def
  by (rule exI [of _ "''/approval''"], rule exI [of _ "\<lambda>_. approval_prog"], force simp: route_programs_def)
    (rule exI [of _ "''/release''"], rule exI [of _ "\<lambda>_. release_prog"], force simp: route_programs_def)

lemma run_crowd_length: "length (fst (run_crowd call is (ps, d))) = length ps"
  by (induction "is" arbitrary: ps d) (auto simp: Let_def case_prod_unfold)

subsection \<open>Every request ends\<close>

inductive ends_within :: "nat \<Rightarrow> 'r access \<Rightarrow> bool" where
  ends_return: "ends_within n (Return r)"
| ends_access: "(\<And>rows. ends_within n (k rows)) \<Longrightarrow> ends_within (Suc n) (Access name ps k)"

inductive_cases ends_accessE: "ends_within n (Access name ps k)"

inductive_simps ends_zero: "ends_within 0 p"

lemma ends_mono: "ends_within n p \<Longrightarrow> n \<le> n' \<Longrightarrow> ends_within n' p"
proof (induction arbitrary: n' rule: ends_within.induct)
  case (ends_access n k name ps)
  then obtain m where "n' = Suc m" "n \<le> m" by (cases n') auto
  then show ?case using ends_access.IH by (auto intro: ends_within.ends_access)
qed (rule ends_return)

lemma ends_or_fail: "(\<And>x. ends_within n (k x)) \<Longrightarrow> ends_within n (or_fail r k)"
  by (cases r) (auto simp: or_fail_def intro: ends_return)

lemma ends_if: "ends_within n p \<Longrightarrow> ends_within n q \<Longrightarrow> ends_within n (if b then p else q)"
  by simp

lemma ends_prod: "(\<And>a b. ends_within n (f a b)) \<Longrightarrow> ends_within n (case x of (a, b) \<Rightarrow> f a b)"
  by (cases x) simp

lemma ends_two: "(\<And>rows. ends_within 1 (k rows)) \<Longrightarrow> ends_within 2 (Access name ps k)"
  "(\<And>rows. ends_within 0 (k rows)) \<Longrightarrow> ends_within 1 (Access name ps k)"
  using ends_access [of 1 k] ends_access [of 0 k] by (simp_all add: numeral_2_eq_2)

lemmas ends_rules = ends_return ends_or_fail ends_prod ends_if ends_two

lemma programs_end:
  "ends_within 2 (login_prog env j)" "ends_within 2 (self_prog j)" "ends_within 2 (student_info_prog j)"
  "ends_within 2 (leave_prog now j)" "ends_within 2 (release_prog j)" "ends_within 2 (approval_prog j)"
  "ends_within 2 (search_leave_prog j)" "ends_within 2 (search_leave_num_prog j)"
  unfolding login_prog_def self_prog_def student_info_prog_def leave_prog_def release_prog_def approval_prog_def
    search_leave_prog_def search_leave_num_prog_def leave_rows_prog_def answer_row_prog_def Let_def
  by (intro ends_rules)+

lemma route_ends: "route_request env p \<Longrightarrow> ends_within 2 p"
  by (auto simp: route_request_def route_programs_def programs_end)

lemma step_access_ends: "ends_within (Suc n) p \<Longrightarrow> ends_within n (fst (step_access call p d))"
  by (cases p) (auto simp: step_access_def Let_def case_prod_unfold intro: ends_return elim: ends_accessE)

lemma crowd_ends:
  "i < length ps \<Longrightarrow> ends_within (count_list sched i) (ps ! i) \<Longrightarrow> \<exists>r. fst (run_crowd call sched (ps, d)) ! i = Return r"
proof (induction sched arbitrary: ps d)
  case Nil
  then show ?case by (auto simp: ends_zero)
next
  case (Cons a sched)
  obtain p d' where s: "step_access call (ps ! a) d = (p, d')" by force
  have "ends_within (count_list sched i) (ps[a := p] ! i)" if "a < length ps"
    using Cons.prems step_access_ends [of "count_list sched a" "ps ! a" call d] s that
    by (cases "i = a") auto
  then show ?case using Cons by (auto simp: s split: if_splits)
qed

subsection \<open>The leaves under every schedule\<close>

text \<open>
  A program is safe if, as long as the table it reads is good, it writes no status that is not one of
  a leave's life, whenever it writes and whatever has happened since its last access.
\<close>

inductive safe_prog :: "'d sql_call \<Rightarrow> ('d \<Rightarrow> int \<rightharpoonup> int \<times> string \<times> string) \<Rightarrow> 'r access \<Rightarrow> bool"
  for call row_of where
  safe_return: "safe_prog call row_of (Return r)"
| safe_read: "name \<notin> leave_writes \<Longrightarrow>
    (\<And>d rows d'. leaves_good row_of d \<Longrightarrow> call name ps d = (rows, d') \<Longrightarrow> safe_prog call row_of (k rows)) \<Longrightarrow>
    safe_prog call row_of (Access name ps k)"
| safe_update: "leave_reach x \<Longrightarrow> (\<And>rows. safe_prog call row_of (k rows)) \<Longrightarrow>
    safe_prog call row_of (Access ''update_leave_info_status'' [PInt n, PInt (sint (status x))] k)"
| safe_insert: "leave_reach x \<Longrightarrow> (\<And>rows. safe_prog call row_of (k rows)) \<Longrightarrow>
    safe_prog call row_of (Access ''insert_leave_info''
      [p1, PText m, PText i, p4, p5, p6, p7, p8, PInt (sint (status x))] k)"

definition keeps_teachers :: "('d \<Rightarrow> int \<rightharpoonup> int \<times> string \<times> string) \<Rightarrow> 'd \<Rightarrow> 'd \<Rightarrow> bool" where
  "keeps_teachers row_of d d' \<longleftrightarrow> (\<forall>n r. row_of d n = Some r \<longrightarrow> (\<exists>r'. row_of d' n = Some r' \<and> snd r' = snd r))"

lemma keeps_teachers_trans: "keeps_teachers row_of d d1 \<Longrightarrow> keeps_teachers row_of d1 d2 \<Longrightarrow> keeps_teachers row_of d d2"
  unfolding keeps_teachers_def by metis

lemma keeps_teachers_same: "row_of d' = row_of d \<Longrightarrow> keeps_teachers row_of d d'"
  by (simp add: keeps_teachers_def)

lemma safe_or_fail: "(\<And>x. r = Inr x \<Longrightarrow> safe_prog call row_of (k x)) \<Longrightarrow> safe_prog call row_of (or_fail r k)"
  by (cases r) (auto simp: or_fail_def intro: safe_return)

lemma safe_if: "(b \<Longrightarrow> safe_prog call row_of p) \<Longrightarrow> (\<not> b \<Longrightarrow> safe_prog call row_of q) \<Longrightarrow> safe_prog call row_of (if b then p else q)"
  by simp

lemma safe_prod: "(\<And>a b. safe_prog call row_of (f a b)) \<Longrightarrow> safe_prog call row_of (case x of (a, b) \<Rightarrow> f a b)"
  by (cases x) simp

context leave_table begin

lemma good_same: "good d \<Longrightarrow> row_of e = row_of d \<Longrightarrow> good e"
  by (simp add: leaves_good_def)

lemma step_safe:
  assumes "safe_prog call row_of p" "good d" "step_access call p d = (p', d')"
  shows "safe_prog call row_of p' \<and> good d' \<and> keeps_teachers row_of d d'"
  using assms(1)
proof cases
  case (safe_return r)
  then show ?thesis using assms by (simp add: step_access_def keeps_teachers_same)
next
  case (safe_read name ps k)
  obtain rows e where c: "call name ps d = (rows, e)" by force
  have "row_of e = row_of d" using reads [OF c safe_read(2)] .
  then show ?thesis
    using safe_read(1) safe_read(3) [OF assms(2) c] assms(2,3) c
    by (auto simp: step_access_def keeps_teachers_same leaves_good_def)
next
  case (safe_update x k n)
  obtain rows e where c: "call ''update_leave_info_status'' [PInt n, PInt (sint (status x))] d = (rows, e)" by force
  then have "p' = k rows" "d' = e" using assms(3) by (simp_all add: safe_update(1) step_access_def)
  moreover have "good e"
    using update [OF c] good_upd [OF assms(2) safe_update(2)] good_same [OF assms(2)] by (auto split: option.splits)
  moreover have "keeps_teachers row_of d e"
    using update [OF c] by (auto simp: keeps_teachers_def split: option.splits)
  ultimately show ?thesis using safe_update(3) by simp
next
  case (safe_insert x k p1 m i p4 p5 p6 p7 p8)
  obtain rows e where c: "call ''insert_leave_info'' [p1, PText m, PText i, p4, p5, p6, p7, p8, PInt (sint (status x))] d = (rows, e)" by force
  then have "p' = k rows" "d' = e" using assms(3) by (simp_all add: safe_insert(1) step_access_def)
  moreover have "good e"
    using insert_leave [OF c] good_upd [OF assms(2) safe_insert(2)] good_same [OF assms(2)] by auto
  moreover have "keeps_teachers row_of d e"
    using insert_leave [OF c] by (auto simp: keeps_teachers_def)
  ultimately show ?thesis using safe_insert(3) by simp
qed

lemma good_kept:
  assumes "good d'" "keeps_teachers row_of d d'" "row_of d n = Some (st, i, m)"
  shows "\<exists>y. leave_reach y \<and> row_of d' n = Some (sint (status y), i, m)"
proof -
  obtain st' where "row_of d' n = Some (st', i, m)"
    using assms(2,3) unfolding keeps_teachers_def by (metis prod.collapse snd_conv)
  then show ?thesis using good_row [OF assms(1)] by blast
qed

lemma crowd_safe:
  "list_all (safe_prog call row_of) ps \<Longrightarrow> good d \<Longrightarrow> run_crowd call sched (ps, d) = (ps', d') \<Longrightarrow>
     good d' \<and> keeps_teachers row_of d d'"
proof (induction sched arbitrary: ps d)
  case Nil
  then show ?case by (simp add: keeps_teachers_same)
next
  case (Cons i sched)
  show ?case
  proof (cases "i < length ps")
    case True
    obtain p e where s: "step_access call (ps ! i) d = (p, e)" by force
    have "safe_prog call row_of (ps ! i)" using Cons.prems(1) True by (simp add: list_all_length)
    from step_safe [OF this Cons.prems(2) s]
    have "list_all (safe_prog call row_of) (ps[i := p])" "good e" and k: "keeps_teachers row_of d e"
      using Cons.prems(1) by (auto simp: list_all_iff dest: set_update_subset_insert [THEN subsetD])
    from Cons.IH [OF this(1,2)] Cons.prems(3) show ?thesis
      using keeps_teachers_trans [OF k] by (simp add: True s)
  qed (use Cons in simp)
qed

lemma release_safe: "safe_prog call row_of (release_prog j)"
  unfolding release_prog_def Let_def
proof (intro safe_or_fail safe_read)
  fix user u note_id d rows d1
  assume g: "good d" and c: "call ''select_leave_status'' [PInt note_id] d = (rows, d1)"
  show "safe_prog call row_of (if length rows \<noteq> 1 then fail_http (HttpException_msg 404 ''Not found leave info'')
     else or_fail (col (rows ! 0) 0) (\<lambda>c.
       if \<not> is_passed (StudentStatus_of (word_of_int (int_data c))) then fail_http (HttpException_code_msg 200 403 ''status must be passed.'')
       else Access ''update_leave_info_status''
         [PInt note_id, PInt (sint (status (StudentStatus_of (word_of_int (int_data c))\<lparr>st_destroyed := True\<rparr>)))] (\<lambda>_. Return None)))"
  proof (intro safe_if safe_return safe_or_fail safe_update)
    fix x assume "\<not> length rows \<noteq> 1" "col (rows ! 0) 0 = Inr x" and p: "\<not> \<not> is_passed (StudentStatus_of (word_of_int (int_data x)))"
    then obtain st i m where "row_of d note_id = Some (st, i, m)" "int_data x = st"
      using select_status [OF c] by (auto simp: col_def split: option.splits)
    then obtain y where "leave_reach y" "int_data x = sint (status y)" using good_row g by metis
    then show "leave_reach (StudentStatus_of (word_of_int (int_data x))\<lparr>st_destroyed := True\<rparr>)"
      using leave_next [OF _ released] p leave_reach_decode by simp
  qed
qed (simp add: leave_writes_def)

lemma approval_safe: "safe_prog call row_of (approval_prog j)"
  unfolding approval_prog_def Let_def
proof (intro safe_or_fail safe_read)
  fix user u note_id d rows d1
  assume g: "good d" and c: "call ''select_leave_status_teachers'' [PInt note_id] d = (rows, d1)"
  have decode: "leave_reach (StudentStatus_of (word_of_int (int_data (r ! 0))))"
    if rows: "length rows = 1" "cols (rows ! 0) 3 = Inr r" for r
  proof -
    obtain i m where "row_of d note_id = Some (int_data (r ! 0), i, m)"
      using select_teachers [OF c] rows by (auto simp: cols_def split: option.splits)
    then obtain y where "leave_reach y" "int_data (r ! 0) = sint (status y)" using good_row g by metis
    then show ?thesis using leave_reach_decode by simp
  qed
  show "safe_prog call row_of (if length rows \<noteq> 1 then fail_http (HttpException_msg 404 ''Not found this leave.'')
     else or_fail (cols (rows ! 0) 3) (\<lambda>r.
       if \<not> (user = text_data (r ! 1)) \<and> \<not> (user = text_data (r ! 2))
       then fail_http (HttpException_msg 403 ''No permissions, you must be leave's teacher.'')
       else or_fail (decide (user = text_data (r ! 1)) (st_instructor (StudentStatus_of (word_of_int (int_data (r ! 0))))) (jat j ''status'')) (\<lambda>i.
         or_fail (decide (user = text_data (r ! 2)) (st_mentor (StudentStatus_of (word_of_int (int_data (r ! 0))))) (jat j ''status'')) (\<lambda>m.
         Access ''update_leave_info_status''
           [PInt note_id, PInt (sint (status (StudentStatus_of (word_of_int (int_data (r ! 0)))\<lparr>st_instructor := i, st_mentor := m\<rparr>)))] (\<lambda>_. Return None)))))"
    by (intro safe_if safe_return safe_or_fail safe_update leave_next [OF decode decide_step]) auto
qed (simp add: leave_writes_def)

lemma leave_safe: "safe_prog call row_of (leave_prog now j)"
  unfolding leave_prog_def Let_def
  by (intro safe_or_fail safe_read safe_if safe_return safe_insert leave_new) (simp add: leave_writes_def)

lemma readers_safe:
  "safe_prog call row_of (login_prog env j)" "safe_prog call row_of (self_prog j)" "safe_prog call row_of (student_info_prog j)"
  "safe_prog call row_of (search_leave_prog j)" "safe_prog call row_of (search_leave_num_prog j)"
  unfolding login_prog_def self_prog_def student_info_prog_def search_leave_prog_def search_leave_num_prog_def
    leave_rows_prog_def answer_row_prog_def Let_def
  by ((intro safe_or_fail safe_read safe_if safe_prod safe_return)+, (simp_all add: leave_writes_def)?)+

lemma route_safe: "route_request env p \<Longrightarrow> safe_prog call row_of p"
  by (auto simp: route_request_def route_programs_def readers_safe leave_safe release_safe approval_safe)

end

text \<open>
  C5: Whatever requests are at work at the same time and however their accesses interleave, the table of
  the leaves stays good, no leave is lost and every leave keeps its teachers; and no request waits for
  another: one that had two turns has its answer.
\<close>

theorem crowd_keeps_leaves:
  assumes "leave_table call row_of" "leaves_good row_of d" "list_all (\<lambda>p. \<exists>env :: 'd env. route_request env p) ps"
    and "run_crowd call sched (ps, d) = (ps', d')"
  shows "leaves_good row_of d' \<and>
    (row_of d n = Some (st, i, m) \<longrightarrow> (\<exists>y. leave_reach y \<and> row_of d' n = Some (sint (status y), i, m))) \<and>
    (k < length ps \<longrightarrow> 2 \<le> count_list sched k \<longrightarrow> (\<exists>r. ps' ! k = Return r))"
proof -
  have "safe_prog call row_of p \<and> ends_within 2 p" if "route_request env p" for p and env :: "'d env"
    using leave_table.route_safe [OF assms(1) that] route_ends [OF that] by simp
  then have safe: "list_all (safe_prog call row_of) ps" and ends: "list_all (ends_within 2) ps"
    using assms(3) unfolding list_all_iff by blast+
  note keep = leave_table.crowd_safe [OF assms(1) safe assms(2,4)]
  have "\<exists>r. ps' ! k = Return r" if "k < length ps" "2 \<le> count_list sched k"
    using crowd_ends [OF that(1) ends_mono [OF _ that(2)], of call d] that(1) ends assms(4) by (simp add: list_all_length)
  then show ?thesis using keep leave_table.good_kept [OF assms(1)] by blast
qed

theorem crowd_keeps_leaves_witness:
  "\<exists>ps d y. run_crowd db_call [0, 1, 1, 0] ([approval_prog (JObj []), release_prog (JObj [])], demo_db) = (ps, d) \<and>
     db_row d 7 = Some (sint (status y), ''tom'', ''ann'') \<and> (\<exists>r. ps ! 1 = Return r)"
proof -
  define ps where "ps = [approval_prog (JObj []), release_prog (JObj [])]"
  obtain ps' d where c: "run_crowd db_call [0, 1, 1, 0] (ps, demo_db) = (ps', d)" by force
  have "list_all (\<lambda>p. \<exists>env :: tables env. route_request env p) ps"
    by (simp add: ps_def teacher_requests)
  from crowd_keeps_leaves [OF db.leave_table_axioms demo_good this c, of 7 4 "''tom''" "''ann''" 1]
  show ?thesis unfolding ps_def [symmetric] using c by (simp add: demo_row) (auto simp: ps_def)
qed

section \<open>A decision that comes late\<close>

lemma release_first:
  assumes "leave_table call row_of" "row_of d n = Some (sint (status x), i, m)" "leave_reach x" "is_passed x"
    and "the_string j ''user'' = Inr u" "the_int j ''note_id'' = Inr n"
  shows "\<exists>d'. step_access call (release_prog j) d =
      (Access ''update_leave_info_status'' [PInt n, PInt (sint (status (x\<lparr>st_destroyed := True\<rparr>)))] (\<lambda>_. Return None), d') \<and>
      row_of d' = row_of d"
proof -
  obtain rows d1 where c: "call ''select_leave_status'' [PInt n] d = (rows, d1)" by force
  obtain a where r: "rows = [[a]]" "int_data a = sint (status x)"
    using leave_table.select_status [OF assms(1) c] assms(2) by auto
  have same: "row_of d1 = row_of d"
    using leave_table.reads [OF assms(1) c] by (simp add: leave_writes_def)
  have "TestJsonParam j [''note_id''] = Inr ()"
    using the_jfind(2) [OF assms(6)] by (intro TestJsonParam_ok) simp
  then show ?thesis
    using same r assms(4)
    by (simp add: step_access_def release_prog_def or_fail_def assms(5,6) c col_def Let_def
        status_of_status [OF leave_reach_ok [OF assms(3)]])
qed

text \<open>
  C9: A decision that was begun before a release undoes it: the instructor sends two decisions on the same
  leave, the first one passes it, somebody releases it, and the write of the second decision comes
  after that.  Every request is answered without an error, and the leave, which had been passed and
  released, is rejected and not released.
\<close>

theorem late_decision_undoes_release:
  assumes "leave_table call row_of" "row_of d n = Some (sint (status x), i, m)" "leave_reach x" "i \<noteq> m"
    and "st_instructor x = PendingApproval" "st_mentor x = Passed"
    and "the_string j ''user'' = Inr i" "the_int j ''note_id'' = Inr n" "jat j ''status'' = Inr (JBool True)"
    and "the_string j' ''user'' = Inr i" "the_int j' ''note_id'' = Inr n" "jat j' ''status'' = Inr (JBool False)"
    and "the_string jr ''user'' = Inr u" "the_int jr ''note_id'' = Inr n"
  shows "\<exists>p d1 d2.
    run_crowd call [0, 1, 0, 2, 2] ([approval_prog j, approval_prog j', release_prog jr], d) = ([Return None, p, Return None], d1) \<and>
      row_of d1 n = Some (sint (status (x\<lparr>st_instructor := Passed, st_destroyed := True\<rparr>)), i, m) \<and>
    run_crowd call [0, 1, 0, 2, 2, 1] ([approval_prog j, approval_prog j', release_prog jr], d) = ([Return None, Return None, Return None], d2) \<and>
      row_of d2 n = Some (sint (status (x\<lparr>st_instructor := Rejection\<rparr>)), i, m)"
proof -
  define y where "y = x\<lparr>st_instructor := Passed\<rparr>"
  define z where "z = x\<lparr>st_instructor := Rejection\<rparr>"
  define w where "w = y\<lparr>st_destroyed := True\<rparr>"
  define upd where "upd s = Access ''update_leave_info_status'' [PInt n, PInt (sint (status s))] (\<lambda>_. Return (None :: exn option))" for s
  have ay: "approve i True (x, i, m) = Inr y" and az: "approve i False (x, i, m) = Inr z"
    using assms(4,5) by (simp_all add: approve_def y_def z_def)
  have ry: "leave_reach y" "is_passed y"
    using leave_next [OF assms(3) by_instructor [OF assms(5), of Passed]] leave_reach_inv [OF assms(3)] assms(5,6)
    by (auto simp: y_def is_passed_def status_codes)
  obtain da where a: "step_access call (approval_prog j) d = (upd y, da)" "row_of da = row_of d"
    using approval_first [OF assms(1-3,7-9) ay] by (auto simp: upd_def)
  obtain db where b: "step_access call (approval_prog j') da = (upd z, db)" "row_of db = row_of d"
    using approval_first [OF assms(1) _ assms(3,10-12) az, of da] a(2) assms(2) by (auto simp: upd_def)
  obtain dc where c: "step_access call (upd y) db = (Return None, dc)" "row_of dc = (row_of d)(n \<mapsto> (sint (status y), i, m))"
    using approval_second [OF assms(1), of db n _ i m y] b(2) assms(2) by (auto simp: upd_def)
  obtain de where e: "step_access call (release_prog jr) dc = (upd w, de)" "row_of de = row_of dc"
    using release_first [OF assms(1) _ ry assms(13,14), of dc] c(2) by (auto simp: upd_def w_def)
  obtain df where f: "step_access call (upd w) de = (Return None, df)" "row_of df = (row_of d)(n \<mapsto> (sint (status w), i, m))"
    using approval_second [OF assms(1), of de n _ i m w] e(2) c(2) by (auto simp: upd_def)
  obtain dg where g: "step_access call (upd z) df = (Return None, dg)" "row_of dg n = Some (sint (status z), i, m)"
    using approval_second [OF assms(1), of df n _ i m z] f(2) that by (fastforce simp: upd_def)
  have "run_crowd call [0, 1, 0, 2, 2] ([approval_prog j, approval_prog j', release_prog jr], d) = ([Return None, upd z, Return None], df)"
    and "run_crowd call [0, 1, 0, 2, 2, 1] ([approval_prog j, approval_prog j', release_prog jr], d) = ([Return None, Return None, Return None], dg)"
    by (simp_all add: a b c e f g)
  moreover have "row_of df n = Some (sint (status (x\<lparr>st_instructor := Passed, st_destroyed := True\<rparr>)), i, m)"
    "row_of dg n = Some (sint (status (x\<lparr>st_instructor := Rejection\<rparr>)), i, m)"
    using f(2) g(2) by (simp_all add: w_def y_def z_def)
  ultimately show ?thesis by blast
qed

theorem late_decision_undoes_release_witness:
  "\<exists>j j' jr d1. run_crowd db_call [0, 1, 0, 2, 2, 1] ([approval_prog j, approval_prog j', release_prog jr], demo_db) =
       ([Return None, Return None, Return None], d1) \<and>
     db_row d1 7 = Some (sint (status (set_junior True StudentStatus_default\<lparr>st_instructor := Rejection\<rparr>)), ''tom'', ''ann'')"
proof -
  define j where "j v u = JObj [(''note_id'', JInt 7), (''status'', JBool v), (''user'', JStr u)]" for v u
  have f: "the_string (j v u) ''user'' = Inr u" "the_int (j v u) ''note_id'' = Inr 7" "jat (j v u) ''status'' = Inr (JBool v)" for v u
    using int_of_7 by (simp_all add: j_def the_string_def the_int_def jat_def get_string_def)
  define x where "x = set_junior True StudentStatus_default"
  have "sint (status x) = 4" unfolding x_def by code_simp
  then have row: "db_row demo_db 7 = Some (sint (status x), ''tom'', ''ann'')" by (simp add: demo_row)
  have reach: "leave_reach x" unfolding x_def by (rule leave_new)
  have st: "st_instructor x = PendingApproval" "st_mentor x = Passed"
    unfolding x_def by (simp_all add: junior_status) (simp add: set_junior_def StudentStatus_default_def)
  from late_decision_undoes_release [OF db.leave_table_axioms row reach _ st f [of True] f [of False] f(1,2)]
  show ?thesis unfolding x_def [symmetric] by fast
qed

end
