(* ===== verification/Sqlite_Race.thy ===== *)
theory Sqlite_Race
  imports Sqlite
begin

text \<open>
  A call of a compiled statement as its single calls of the library, and two calls of the same
  statement at the same time: the statement belongs to the whole process, and nothing locks it
  between the binding of the arguments and the reading of the rows.
\<close>

section \<open>A call in steps\<close>

text \<open>
  Where a call of \<open>CallCompiledSQL\<close> is: the next argument to bind, the rows it has read, the reset, the end.  A row
  is read together with the step that gave it.
\<close>

datatype call_pc = BindArg int "sql_param list" | ReadRow "sqlite3_data list list" | ResetStmt "sqlite3_data list list"
  | Answer "sqlite3_data list list"

fun call_step :: "'d sqlite_api \<Rightarrow> string \<Rightarrow> stmt \<Rightarrow> call_pc \<times> 'd world \<Rightarrow> call_pc \<times> 'd world" where
  "call_step api name st (BindArg i [], w) = (ReadRow [], w)"
| "call_step api name st (BindArg i (p # ps), w) =
     (BindArg (i + 1) ps,
      case bound_value p of
        None \<Rightarrow> w
      | Some v \<Rightarrow>
          (let (r, d) = sq_bind api st i v (kern w); w = w\<lparr>kern := d\<rparr>
           in if r \<noteq> SQLITE_OK then sq_error api ''Sql bind err :'' r w else w))"
| "call_step api name st (ReadRow ret, w) =
     (let (r, d) = sq_step api st (kern w); w = w\<lparr>kern := d\<rparr> in
      if r = SQLITE_ROW then (ReadRow (ret @ [map FmtData (sq_row api st d)]), w)
      else if r \<noteq> SQLITE_DONE then (ResetStmt [], sq_error api ''Sql data err :'' r w)
      else (ResetStmt ret, w))"
| "call_step api name st (ResetStmt res, w) =
     (let (r, d) = sq_reset api st (kern w); w = w\<lparr>kern := d\<rparr> in
      (Answer res, if r \<noteq> SQLITE_OK then sq_error api ''Sql reset err :'' r w
                   else INFO (''Call SQL '' @ name @ '' Successful! Result rows '' @ dec (length res)) w))"
| "call_step api name st (Answer res, w) = (Answer res, w)"

abbreviation call_steps :: "'d sqlite_api \<Rightarrow> string \<Rightarrow> stmt \<Rightarrow> nat \<Rightarrow> call_pc \<times> 'd world \<Rightarrow> call_pc \<times> 'd world" where
  "call_steps api name st k \<equiv> (call_step api name st ^^ k)"

lemma steps_Suc: "call_steps api name st (Suc k) c = call_steps api name st k (call_step api name st c)"
  by (simp add: funpow_swap1)

lemma steps_add: "call_steps api name st (k + l) c = call_steps api name st l (call_steps api name st k c)"
  by (simp add: funpow_add add.commute [of k])

lemma steps_bind:
  "call_steps api name st (length ps) (BindArg i ps, w) = (BindArg (i + int (length ps)) [], BindCompiledSQLParam api st i ps w)"
proof (induction ps arbitrary: i w)
  case (Cons p ps)
  then show ?case by (simp only: steps_Suc list.size(4) add_Suc_right add_0_right) (simp add: Cons.IH add.assoc)
qed simp

text \<open>What follows the last row, for the result of the loop.\<close>

definition rows_end :: "'d sqlite_api \<Rightarrow> int \<times> sqlite3_data list list \<times> 'd world \<Rightarrow> call_pc \<times> 'd world" where
  "rows_end api = (\<lambda>(r, ret, w). if r \<noteq> SQLITE_DONE then (ResetStmt [], sq_error api ''Sql data err :'' r w) else (ResetStmt ret, w))"

lemma loop_steps: "step_loop api st ret w = Some x \<Longrightarrow> \<exists>k. call_steps api name st k (ReadRow ret, w) = rows_end api x"
proof (induction rule: step_loop.raw_induct [where
      P = "\<lambda>api st ret w x. \<exists>k. call_steps api name st k (ReadRow ret, w) = rows_end api x", rotated, consumes 1])
  case (1 loop api st ret w x)
  obtain r d where s: "sq_step api st (kern w) = (r, d)" by force
  show ?case
  proof (cases "r = SQLITE_ROW")
    case True
    then have "loop api st (ret @ [map FmtData (sq_row api st d)]) (w\<lparr>kern := d\<rparr>) = Some x"
      using 1(2) s by simp
    from 1(1) [OF this] obtain k where
      "call_steps api name st k (ReadRow (ret @ [map FmtData (sq_row api st d)]), w\<lparr>kern := d\<rparr>) = rows_end api x" ..
    then have "call_steps api name st (Suc k) (ReadRow ret, w) = rows_end api x"
      unfolding steps_Suc by (simp add: s True)
    then show ?thesis ..
  next
    case False
    then have "x = (r, ret, w\<lparr>kern := d\<rparr>)" using 1(2) s by simp
    then have "call_steps api name st (Suc 0) (ReadRow ret, w) = rows_end api x"
      using False by (simp add: s rows_end_def)
    then show ?thesis ..
  qed
qed

lemma steps_stop: "call_steps api name st k (Answer res, w) = (Answer res, w)"
  by (induction k) simp_all

lemma steps_loop:
  "call_steps api name st k (ReadRow ret, w) = (Answer res, w') \<Longrightarrow>
     \<exists>x. step_loop api st ret w = Some x \<and> call_step api name st (rows_end api x) = (Answer res, w')"
proof (induction k arbitrary: ret w)
  case (Suc k)
  obtain r d where s: "sq_step api st (kern w) = (r, d)" by force
  show ?case
  proof (cases "r = SQLITE_ROW")
    case True
    then have "call_steps api name st k (ReadRow (ret @ [map FmtData (sq_row api st d)]), w\<lparr>kern := d\<rparr>) = (Answer res, w')"
      using Suc.prems unfolding steps_Suc by (simp add: s)
    from Suc.IH [OF this] show ?thesis by (subst step_loop.simps) (simp add: s True)
  next
    case False
    then have l: "step_loop api st ret w = Some (r, ret, w\<lparr>kern := d\<rparr>)" by (subst step_loop.simps) (simp add: s)
    have k: "call_steps api name st k (rows_end api (r, ret, w\<lparr>kern := d\<rparr>)) = (Answer res, w')"
      using Suc.prems False unfolding steps_Suc by (simp add: s rows_end_def Let_def split: if_splits)
    obtain res' w1 where e: "rows_end api (r, ret, w\<lparr>kern := d\<rparr>) = (ResetStmt res', w1)"
      by (cases "r = SQLITE_DONE") (simp_all add: rows_end_def)
    obtain w2 where a: "call_step api name st (ResetStmt res', w1) = (Answer res', w2)" by (simp add: Let_def case_prod_unfold)
    from k obtain k' where "k = Suc k'" unfolding e by (cases k) auto
    with k have "call_step api name st (ResetStmt res', w1) = (Answer res, w')"
      unfolding e steps_Suc [where k = k'] using a by (simp only: steps_Suc steps_stop)
    then show ?thesis using l e by auto
  qed
qed simp

lemma call_loop:
  assumes "multimap_find n (sql_map s) = Some st"
  shows "CallCompiledSQL api s n ps w = Some (res, w') \<longleftrightarrow>
    (\<exists>x. step_loop api st [] (BindCompiledSQLParam api st 1 ps w) = Some x \<and> call_step api n st (rows_end api x) = (Answer res, w'))"
  by (cases "step_loop api st [] (BindCompiledSQLParam api st 1 ps w)")
    (auto simp: CallCompiledSQL_def GetDataFromStmt_def assms rows_end_def Let_def case_prod_unfold)

lemma steps_before:
  "call_steps api name st (Suc (length ps)) (BindArg i ps, w) = (ReadRow [], BindCompiledSQLParam api st i ps w)"
  unfolding Suc_eq_plus1 steps_add [where l = 1] steps_bind by simp


section \<open>Two calls of one statement\<close>

text \<open>The schedule says whose call of the library is next; both work on the same statement.\<close>

primrec two_calls :: "'d sqlite_api \<Rightarrow> string \<Rightarrow> stmt \<Rightarrow> bool list \<Rightarrow> call_pc \<times> call_pc \<Rightarrow> 'd world \<Rightarrow>
    (call_pc \<times> call_pc) \<times> 'd world" where
  "two_calls api name st [] pq w = (pq, w)"
| "two_calls api name st (b # bs) pq w =
     (let (p, q) = pq in
      if b then (let (p, w) = call_step api name st (p, w) in two_calls api name st bs (p, q) w)
      else (let (q, w) = call_step api name st (q, w) in two_calls api name st bs (p, q) w))"

lemma two_calls_append:
  "two_calls api name st (as @ bs) pq w = (let (pq, w) = two_calls api name st as pq w in two_calls api name st bs pq w)"
  by (induction as arbitrary: pq w) (auto simp: Let_def case_prod_unfold)

lemma two_calls_one:
  "two_calls api name st (replicate k True) (p, q) w = (let (p, w) = call_steps api name st k (p, w) in ((p, q), w))"
  "two_calls api name st (replicate k False) (p, q) w = (let (q, w) = call_steps api name st k (q, w) in ((p, q), w))"
  by (induction k arbitrary: p q w) (simp_all add: steps_Suc Let_def case_prod_unfold del: funpow.simps)

text \<open>
  A call can get the rows of another call: if the second one binds its arguments after the first one
  has bound its own and before the first row is read, the first call has the answer that the second
  call alone would have got, whatever it asked for itself.
\<close>

lemma call_answers_other:
  assumes "multimap_find n (sql_map s) = Some st"
    and "CallCompiledSQL api s n qs (BindCompiledSQLParam api st 1 ps w) = Some (res, w')"
  shows "\<exists>sched. two_calls api n st sched (BindArg 1 ps, BindArg 1 qs) w = ((Answer res, BindArg (1 + int (length qs)) []), w')"
proof -
  define w1 where "w1 = BindCompiledSQLParam api st 1 ps w"
  define w2 where "w2 = BindCompiledSQLParam api st 1 qs w1"
  obtain x where x: "step_loop api st [] w2 = Some x" "call_step api n st (rows_end api x) = (Answer res, w')"
    using assms(2) unfolding call_loop [OF assms(1)] w1_def [symmetric] w2_def [symmetric] by blast
  obtain k where "call_steps api n st k (ReadRow [], w2) = rows_end api x" using loop_steps [OF x(1)] by blast
  then have "call_steps api n st (Suc k) (ReadRow [], w2) = (Answer res, w')"
    unfolding Suc_eq_plus1 steps_add [where l = 1] using x(2) by simp
  then have k: "call_steps api n st (Suc (Suc k)) (BindArg (1 + int (length ps)) [], w2) = (Answer res, w')"
    by (subst steps_Suc) simp
  have "two_calls api n st (replicate (length ps) True @ replicate (length qs) False @ replicate (Suc (Suc k)) True)
      (BindArg 1 ps, BindArg 1 qs) w = ((Answer res, BindArg (1 + int (length qs)) []), w')"
    unfolding two_calls_append two_calls_one steps_bind Let_def prod.case w1_def [symmetric] w2_def [symmetric] k ..
  then show ?thesis ..
qed

text \<open>Two calls of \<open>SELECT ?1\<close>: the one for x answers y.\<close>

lemma mem_find: "multimap_find n (sql_map \<lparr>sql_map = [(n, Some 1)]\<rparr>) = Some (Some 1)"
  by (simp add: multimap_find_def)

lemma mem_row_y:
  "\<exists>w'. CallCompiledSQL mem_api \<lparr>sql_map = [(n, Some 1)]\<rparr> n [PText ''y'']
     (BindCompiledSQLParam mem_api (Some 1) 1 [PText ''x''] mem_w0) = Some ([[FmtData (SText ''y'')]], w')"
proof -
  define w where "w = BindCompiledSQLParam mem_api (Some 1) 1 [PText ''y''] (BindCompiledSQLParam mem_api (Some 1) 1 [PText ''x''] mem_w0)"
  have "mem_pending (Some 1) (kern w) = [[SText ''y'']]"
    by (simp add: w_def mem_api_def mem_w0_def bound_value_def mem_pending_def mem_row_def)
  then obtain w1 where "step_loop mem_api (Some 1) [] w = Some (SQLITE_DONE, [[FmtData (SText ''y'')]], w1)"
    using mem.step_loop_rows [of "Some 1" "[]" w] by auto
  moreover have "\<exists>w'. call_step mem_api n (Some 1) (rows_end mem_api (SQLITE_DONE, [[FmtData (SText ''y'')]], w1)) =
      (Answer [[FmtData (SText ''y'')]], w')"
    by (simp add: rows_end_def Let_def case_prod_unfold)
  ultimately show ?thesis unfolding call_loop [OF mem_find] w_def [symmetric] by blast
qed


lemma call_answers_other_witness:
  "\<exists>sched q w'. two_calls mem_api ''q'' (Some 1) sched (BindArg 1 [PText ''x''], BindArg 1 [PText ''y'']) mem_w0 =
     ((Answer [[FmtData (SText ''y'')]], q), w')"
proof -
  obtain w' where c: "CallCompiledSQL mem_api \<lparr>sql_map = [(''q'', Some 1)]\<rparr> ''q'' [PText ''y'']
     (BindCompiledSQLParam mem_api (Some 1) 1 [PText ''x''] mem_w0) = Some ([[FmtData (SText ''y'')]], w')"
    using mem_row_y ..
  from call_answers_other [OF mem_find c] show ?thesis by blast
qed

end
