(* ===== verification/Student_Login.thy ===== *)
theory Student_Login
  imports Student_Programs Sqlite_Race
begin

text \<open>
  Two logins at the same time, down to the library of the database: the program of the handler and
  the steps of the call it makes.
\<close>

text \<open>
  C6: Logging in as somebody else: all the workers share the compiled statement of the passwords, so if my
  own login binds its argument between the binding and the first row of a login as the victim, the
  second one gets my row; it was sent my password, the two are equal, and the answer is a token of
  the victim.
\<close>

theorem login_as_victim:
  assumes "n = (if is_teacher victim then ''teacher_password'' else ''student_password'')"
    and "multimap_find n (sql_map s) = Some st"
    and "CallCompiledSQL api s n [PText me] (BindCompiledSQLParam api st 1 [PText victim] w) = Some ([[c]], w')"
    and "the_string j ''user'' = Inr victim" "jat j ''password'' = Inr (jtext c)"
    and "Token_new victim (24 * 3600) (env_now env) (env_now env) = Inr token"
    and "Token_Encode (env_stack env) (env_localtime env) kTokenKey token = Inr tok"
  shows "\<exists>k sched q. login_prog env j = Access n [PText victim] k \<and>
    two_calls api n st sched (BindArg 1 [PText victim], BindArg 1 [PText me]) w = ((Answer [[c]], q), w') \<and>
    k [[c]] = fail_http (HttpException_body (jobject [(''token'', JStr tok)]))"
proof -
  have test: "TestJsonParam j [''user'', ''password''] = Inr ()"
    using the_jfind(1) [OF assms(4)] jat_jfind [OF assms(5)] by (intro TestJsonParam_ok) simp
  obtain sched where "two_calls api n st sched (BindArg 1 [PText victim], BindArg 1 [PText me]) w = ((Answer [[c]], BindArg (1 + int 1) []), w')"
    using call_answers_other [OF assms(2,3)] by auto
  moreover obtain k where k: "login_prog env j = Access n [PText victim] k"
    unfolding login_prog_def Let_def test assms(1,4) by (simp add: or_fail_def)
  have "fst (step_access (\<lambda>_ _ d. ([[c]], d)) (login_prog env j) ()) = fail_http (HttpException_body (jobject [(''token'', JStr tok)]))"
    using assms(4-7) by (simp add: step_access_def login_prog_def or_fail_def test col_def cpp_def Let_def)
  then have "k [[c]] = fail_http (HttpException_body (jobject [(''token'', JStr tok)]))"
    unfolding k by (simp add: step_access_def)
  ultimately show ?thesis using k by blast
qed

theorem login_as_victim_witness:
  "\<exists>k tok sched q w'. login_prog demo_env (JObj [(''password'', JStr ''y''), (''user'', JStr ''x'')]) = Access ''teacher_password'' [PText ''x''] k \<and>
    two_calls mem_api ''teacher_password'' (Some 1) sched (BindArg 1 [PText ''x''], BindArg 1 [PText ''y'']) mem_w0 =
      ((Answer [[FmtData (SText ''y'')]], q), w') \<and>
    k [[FmtData (SText ''y'')]] = fail_http (HttpException_body (jobject [(''token'', JStr tok)]))"
proof -
  define j where "j = JObj [(''password'', JStr ''y''), (''user'', JStr ''x'')]"
  have f: "the_string j ''user'' = Inr ''x''" "jat j ''password'' = Inr (jtext (FmtData (SText ''y'')))"
    by (simp_all add: j_def the_string_def jat_def get_string_def jtext_def FmtData_def)
  obtain w' where c: "CallCompiledSQL mem_api \<lparr>sql_map = [(''teacher_password'', Some 1)]\<rparr> ''teacher_password'' [PText ''y'']
     (BindCompiledSQLParam mem_api (Some 1) 1 [PText ''x''] mem_w0) = Some ([[FmtData (SText ''y'')]], w')"
    using mem_row_y ..
  define t where "t = \<lparr>is_useful = True, is_in_time = True, user_id = ''x'', end_time = 86400 * 10 ^ 9\<rparr>"
  have n: "Token_new ''x'' (24 * 3600) (env_now demo_env) (env_now demo_env) = Inr t"
    using Token_new_day [of "''x''"] by (simp add: demo_env_def t_def)
  have u: "ascii ''x''" "CHR ''|'' \<notin> set ''x''" by (simp_all add: uchar_def)
  have d: "to_time_t (86400 * 10 ^ 9) = 86400" by (simp add: to_time_t_def)
  obtain tok where "Token_Encode (env_stack demo_env) (env_localtime demo_env) kTokenKey t = Inr tok"
    using token_comes_back [where localtime = one_day and mktime = "\<lambda>_. 86400" and now = 0,
        OF kTokenKey_ok u Token_new_day, unfolded token.select_convs d, OF one_day_ok refl]
    by (auto simp: demo_env_def t_def)
  from login_as_victim [OF _ mem_find c f n this] show ?thesis
    unfolding j_def [symmetric] by (simp add: is_teacher_def) blast
qed

end
