(* ===== verification/Student_Exchange.thy ===== *)
theory Student_Exchange
  imports Student_Login
begin

text \<open>
  From the socket to the database and back: a request to the application as the task that serves it,
  the layers, the program of its handler and the bytes of the answer.
\<close>

section \<open>The answer to a request\<close>

text \<open>
  The code and the body that the outermost layer sends for how a handler ended; nothing for undefined
  behaviour, which it does not catch.
\<close>

definition answer_of :: "exn option \<Rightarrow> (int \<times> json) option" where
  "answer_of r =
     (case r of
        None \<Rightarrow> Some (200, code_msg 200 ''ok'')
      | Some (HttpExc e) \<Rightarrow>
          (case res_bind (jset ''code'' (JInt (he_code e)) (he_body e)) (jset ''msg'' (JStr (he_msg e))) of
             Inr body \<Rightarrow> Some (he_base_code e, body) | Inl _ \<Rightarrow> None)
      | Some (JsonExc what) \<Rightarrow> Some (403, code_msg 403 what)
      | Some (CppExc e) \<Rightarrow> if is_exception e then Some (300, code_msg 300 ''UnKnow Error'') else None)"

definition reply :: "int \<Rightarrow> string \<Rightarrow> content_types \<Rightarrow> response \<times> content_types" where
  "reply code text types =
     (let (r, types) = SetJsonType (set_code code Response_default, types) in (BodyData text r, types))"

lemma reply_body [simp]: "res_body_data (fst (reply code text types)) = text"
  "res_data_reader (fst (reply code text types)) = DataReader_default"
  by (simp_all add: reply_def SetJsonType_def SetType_def SetHeader_def set_code_def BodyData_def Response_default_def
      case_prod_unfold Let_def)

lemma json_answer_reply:
  assumes "env_dump env body = Inr text" "hs_resp s = Response_default"
  shows "json_answer env code (Inr body) s =
     Done (s\<lparr>hs_resp := fst (reply code text (hs_types s)), hs_types := snd (reply code text (hs_types s))\<rparr>)"
  by (simp add: json_answer_def or_throw_def reply_def assms case_prod_unfold Let_def)

lemma caught_reply:
  assumes "answer_of r = Some (code, body)" "env_dump env body = Inr text" "hs_resp s = Response_default"
  shows "catch_all env (answer_ok env (outcome_of s (r, d))) =
     Done (s\<lparr>hs_app := d, hs_resp := fst (reply code text (hs_types s)), hs_types := snd (reply code text (hs_types s))\<rparr>)"
proof (cases r)
  case None
  then show ?thesis
    using assms(1) json_answer_reply [OF assms(2), of "s\<lparr>hs_app := d\<rparr>" code] assms(3)
    by (auto simp: answer_of_def outcome_of_def answer_ok_def catch_all_def)
next
  case (Some e)
  then show ?thesis
    using assms(1) json_answer_reply [OF assms(2), of "s\<lparr>hs_app := d\<rparr>" code] assms(3)
    by (auto simp: answer_of_def outcome_of_def answer_ok_def catch_all_def split: exn.splits sum.splits if_splits)
qed

section \<open>Every error has an answer\<close>

inductive returns :: "('r \<Rightarrow> bool) \<Rightarrow> 'r access \<Rightarrow> bool" for Q where
  returns_return: "Q r \<Longrightarrow> returns Q (Return r)"
| returns_access: "(\<And>rows. returns Q (k rows)) \<Longrightarrow> returns Q (Access n ps k)"

lemma returns_run: "returns Q p \<Longrightarrow> Q (fst (run_alone call p d))"
  by (induction arbitrary: d rule: returns.induct) (auto simp: case_prod_unfold Let_def)

text \<open>Undefined behaviour apart, a result is answered.\<close>

definition answered :: "exn option \<Rightarrow> bool" where
  "answered r \<longleftrightarrow> answer_of r = None \<longrightarrow> (\<exists>e. r = Some (CppExc e) \<and> \<not> is_exception e)"

definition failing :: "'a jresult \<Rightarrow> bool" where
  "failing r \<longleftrightarrow> (\<forall>e. r = Inl e \<longrightarrow> answered (Some e))"

lemma answered_simps [simp]: "answered None" "answered (Some (JsonExc what))" "answered (Some (CppExc e))"
  by (simp_all add: answered_def answer_of_def)

lemma answered_http [simp]: "answered (Some (HttpExc e)) \<longleftrightarrow> he_body e = JNull \<or> (\<exists>m. he_body e = JObj m)"
  by (cases "he_body e") (simp_all add: answered_def answer_of_def jset_def)

lemma http_bodies [simp]: "he_body (HttpException_msg c m) = JObj []" "he_body (HttpException_code_msg b c m) = JObj []"
  "he_body (HttpException_body j) = j"
  by (simp_all add: HttpException_msg_def HttpException_code_msg_def HttpException_body_def HttpException_def)

lemma jobject_object [simp]: "\<exists>m. jobject kvs = JObj m"
  by (simp add: jobject_def)

lemma failing_simps [simp]: "failing (Inr x)" "failing (Inl e) \<longleftrightarrow> answered (Some e)"
  by (simp_all add: failing_def)

lemma failing_bind: "failing r \<Longrightarrow> (\<And>x. failing (k x)) \<Longrightarrow> failing (res_bind r k)"
  by (cases r) simp_all

lemma failing_json [simp]: "failing (cpp r)" "failing (jat j k)" "failing (get_string v)" "failing (get_bool v)" "failing (get_double v)"
  by (cases r; simp add: cpp_def)
    (simp_all add: jat_def get_string_def get_bool_def get_double_def type_error_def split: json.split option.split)

lemma failing_inputs [simp]: "failing (the_string j k)" "failing (the_int j k)" "failing (TestJsonParam j ks)" "failing (col c n)"
  "failing (cols c n)" "failing (chk_int i)" "failing (page_bounds j)"
  by (auto simp: the_string_def the_int_def page_bounds_def TestJsonParam_def col_def cols_def chk_int_def Let_def intro!: failing_bind)

lemma failing_decide [simp]: "failing v \<Longrightarrow> failing (decide mine f v)"
  by (auto simp: decide_def intro!: failing_bind)

lemma returns_or_fail: "failing r \<Longrightarrow> (\<And>x. returns answered (k x)) \<Longrightarrow> returns answered (or_fail r k)"
  by (cases r) (auto simp: or_fail_def intro: returns_return)

lemma returns_if: "returns Q p \<Longrightarrow> returns Q q \<Longrightarrow> returns Q (if b then p else q)"
  by simp

lemma returns_prod: "(\<And>a b. returns Q (f a b)) \<Longrightarrow> returns Q (case x of (a, b) \<Rightarrow> f a b)"
  by (cases x) simp

lemmas returns_rules = returns_return returns_access returns_or_fail returns_if returns_prod failing_bind

lemma programs_answered:
  "returns answered (login_prog env j)" "returns answered (self_prog j)" "returns answered (student_info_prog j)"
  "returns answered (leave_prog now j)" "returns answered (release_prog j)" "returns answered (approval_prog j)"
  "returns answered (search_leave_prog j)" "returns answered (search_leave_num_prog j)"
  unfolding login_prog_def self_prog_def student_info_prog_def leave_prog_def release_prog_def approval_prog_def
    search_leave_prog_def search_leave_num_prog_def leave_rows_prog_def answer_row_prog_def Let_def
  by (intro returns_rules; (simp add: teacher_json_def student_json_def)?)+

lemma route_answered:
  "(p, g) \<in> set route_programs \<Longrightarrow> answered (fst (run_alone call (g env j) d))"
  by (auto simp: route_programs_def intro: returns_run programs_answered)

section \<open>A request on a route\<close>

lemma route_handler:
  "(p, g) \<in> set route_programs \<Longrightarrow> p \<noteq> ''/login'' \<Longrightarrow> \<exists>f. map_of app_routes p = Some f \<and>
     (\<forall>s. f env s = outcome_of s (run_alone (env_call env) (g env (req_json s)) (hs_app s)))"
  unfolding route_programs_def list.set insert_iff empty_iff prod.inject
  by (elim disjE conjE FalseE; hypsubst) (simp_all add: app_routes_def alone_programs)

text \<open>
  C3: From the socket to the database and back: a received request for a route behind a token, with a valid
  token, runs the program of its route on the database and, unless that runs into undefined
  behaviour, has an answer, whatever its exception; if the JSON library can print it and the
  connection stays up, the peer gets exactly its head and its text, the database is the one the
  program left, and the socket is armed again.
\<close>

theorem route_exchange:
  assumes "sending_kernel os (sockets lp a) kout kready tries"
    and "Parse os stk (sockets lp a) Request_default (lp_world lp) = Inr ((True, req), w)" "kready (kern w)" "m_epoll lp = Some p"
    and "(path req, g) \<in> set route_programs" "path req \<noteq> ''/login''" "authorised env req = Some (u, j)"
    and "run_alone (env_call env) (g env j) app = (r, d)" "\<forall>e. r = Some (CppExc e) \<longrightarrow> is_exception e"
  shows "\<exists>code body. answer_of r = Some (code, body) \<and>
    (\<forall>tx. env_dump env body = Inr tx \<longrightarrow>
       length (MakeHttpHead (length tx) (fst (reply code tx types))) + length tx < 2 ^ 64 \<longrightarrow>
       (\<exists>w1. kout (kern w1) = kout (kern w) @ MakeHttpHead (length tx) (fst (reply code tx types)) @ tx \<and>
          HttpTask os ep (app_server env port) regular fs stk a lp types app =
            Some (Inr (Attached, lp\<lparr>lp_world := EventPoller_add ep p (m_sockfd (sockets lp a)) (Sock a) sock_events w1\<rparr>,
              snd (reply code tx types), d))))"
proof -
  obtain f where f: "map_of app_routes (path req) = Some f"
    "\<And>s. f env s = outcome_of s (run_alone (env_call env) (g env (req_json s)) (hs_app s))"
    using route_handler [OF assms(5,6)] by blast
  define s where "s = with_json j (start_state req types app)"
  have s: "hs_resp s = Response_default" "hs_types s = types" "f env s = outcome_of s (r, d)"
    using assms(8) by (simp_all add: s_def f with_json_def start_state_def req_json_def)
  have "answered r" using route_answered [OF assms(5), of "env_call env" env j app] assms(8) by simp
  then obtain code body where ans: "answer_of r = Some (code, body)"
    using assms(9) by (cases "answer_of r") (auto simp: answered_def)
  have "\<exists>w1. kout (kern w1) = kout (kern w) @ MakeHttpHead (length tx) (fst (reply code tx types)) @ tx \<and>
      HttpTask os ep (app_server env port) regular fs stk a lp types app =
        Some (Inr (Attached, lp\<lparr>lp_world := EventPoller_add ep p (m_sockfd (sockets lp a)) (Sock a) sock_events w1\<rparr>,
          snd (reply code tx types), d))"
    if dump: "env_dump env body = Inr tx"
      "length (MakeHttpHead (length tx) (fst (reply code tx types))) + length tx < 2 ^ 64" for tx
  proof -
    define s' where "s' = s\<lparr>hs_app := d, hs_resp := fst (reply code tx types), hs_types := snd (reply code tx types)\<rparr>"
    have H: "Handle (app_server env port) regular fs req types app = Some (Done s', 0)"
      using handle_guarded [OF assms(6) f(1), of env port regular fs types app] assms(7)
      by (auto simp: caught_reply [OF ans dump(1) s(1)] s'_def s(2) s(3) simp flip: s_def)
    have "hs_resp s' = fst (reply code tx types)" "hs_types s' = snd (reply code tx types)" "hs_app s' = d"
      by (simp_all add: s'_def)
    with exchange_attached [OF assms(1-3) H _ assms(4), of ep] dump(2) show ?thesis by simp
  qed
  then show ?thesis using ans by blast
qed

section \<open>A body that is not text\<close>

lemma handle_bad_json:
  assumes "srv_handlers (app_server env port) (path req) = Some fs" "req_method req = ''POST''" "req_is_json req"
    and "env_parse env (req_body req) = Inl what" "env_dump env (code_msg 403 what) = Inl e"
  shows "\<exists>s. Handle (app_server env port) regular fsys req types app = Some (Thrown (JsonExc e) s, 0) \<and> hs_app s = app"
proof -
  define s where "s = start_state req types app"
  have stop: "app_process_exception env s = Stop (catch_all env (Thrown (JsonExc what) s))"
    using assms(2-4) by (simp add: process_exception_cases request_json_def s_def)
  obtain s' where s': "catch_all env (Thrown (JsonExc what) s) = Thrown (JsonExc e) s'" "hs_app s' = app"
    using assms(5) by (simp add: catch_all_def json_answer_def or_throw_simps Let_def case_prod_unfold s_def)
  obtain ix where "next_func [app_process_exception env] fs s chain_start = Some (Thrown (JsonExc e) s', ix)" "warnings ix = 0"
    using next_func_stop [of "app_process_exception env" s, OF stop] unfolding s'(1) by blast
  then show ?thesis
    using s'(2) by (simp add: handle_routed [OF assms(1)] app_process s_def)
qed

text \<open>
  C7: One request without a token takes a socket from the server for good: if the body is said to be JSON and
  is not, the text of the parser's error is put into the answer, and when that text cannot be printed as
  JSON, as with the bytes of a body that are no UTF-8, printing it throws inside the exception handler;
  the exception leaves the task, no byte is sent, and the socket is in nobody's hands.
\<close>

theorem bad_json_leaks:
  assumes "Parse os stk (sockets lp a) Request_default (lp_world lp) = Inr ((True, req), w)"
    and "srv_handlers (app_server env port) (path req) = Some fs" "req_method req = ''POST''" "req_is_json req"
    and "env_parse env (req_body req) = Inl what" "env_dump env (code_msg 403 what) = Inl e"
    and "owned armed (lp\<lparr>lp_world := w\<rparr>, b)" "tp_step (thread_pool lp) (Finish i a) tp"
  shows "\<exists>lp' types'. HttpTask os ep (app_server env port) regular fsys stk a lp types app =
       Some (Inr (Threw (JsonExc e), lp', types', app)) \<and>
     object_pool lp' = object_pool lp \<and> sockets lp' = sockets lp \<and> kern (lp_world lp') = kern w \<and>
     a \<in> lost armed (lp'\<lparr>thread_pool := tp\<rparr>, b)"
proof -
  obtain s where "Handle (app_server env port) regular fsys req types app = Some (Thrown (JsonExc e) s, 0)" "hs_app s = app"
    using handle_bad_json [OF assms(2-6)] by blast
  from http_exception_leaks_socket [OF assms(1) this(1) assms(7,8), of ep] this(2) show ?thesis by auto
qed

section \<open>Requests on the scripted kernel\<close>

definition post_json :: "string \<Rightarrow> net world" where
  "post_json p = net_world [Some (render_head ''POST'' (UrlEncode p) ''HTTP/1.1''
     [(''Content-Length'', ''2''), (''Content-Type'', ''application/json'')] @ ''{}'')] []"

lemma post_json_parsed:
  assumes "p \<in> {''/login'', ''/search_leave_num''}"
  shows "\<exists>req w. Parse net_sys [] Socket_default Request_default (post_json p) = Inr ((True, req), w) \<and>
     path req = p \<and> req_method req = ''POST'' \<and> req_is_json req \<and> req_body req = ''{}'' \<and> net_send (kern w) = [] \<and> net_sent (kern w) = ''''"
proof -
  define hs where "hs = [(''Content-Length'', ''2''), (''Content-Type'', ''application/json'')]"
  define hd0 where "hd0 = render_head ''POST'' (UrlEncode p) ''HTTP/1.1'' hs"
  define w where "w = net_world [Some (hd0 @ ''{}'')] []"
  define w1 where "w1 = w\<lparr>kern := snd (sys_recv net_sys (m_sockfd Socket_default) kReqBufSize (kern w))\<rparr>"
  have "length (render_head ''POST'' (UrlEncode ''/login'') ''HTTP/1.1'' hs) < 200"
    "length (render_head ''POST'' (UrlEncode ''/search_leave_num'') ''HTTP/1.1'' hs) < 200"
    unfolding hs_def by code_simp+
  then have "length hd0 < 200" using assms unfolding hd0_def by blast
  then have rc: "fst (sys_recv net_sys (m_sockfd Socket_default) kReqBufSize (kern w)) = Some (hd0 @ ''{}'')"
    by (simp add: net_sys_def net_world_def kReqBufSize_def w_def)
  have "word ''/login''" "word ''/search_leave_num''" "CHR ''?'' \<notin> set ''/login''" "CHR ''?'' \<notin> set ''/search_leave_num''"
    by code_simp+
  then have p: "word p" "CHR ''?'' \<notin> set p" using assms by blast+
  have m: "word ''POST''" "word ''HTTP/1.1''" "hs \<noteq> []" "\<forall>h \<in> set hs. good_header h"
    unfolding hs_def by code_simp+
  have cl: "map_of hs ''Content-Length'' = Some (dec 2)" "\<not> prefix ''multipart'' (header_in hs ''Content-Type'')"
    "prefix ''application/json'' (header_in hs ''Content-Type'') = True" "length ''{}'' = 2"
    unfolding hs_def by code_simp+
  have "body_loop net_sys Socket_default 2 (length ''{}'') ''{}'' w1 = ((True, ''{}''), w1)"
    by simp
  moreover have "net_send (kern w1) = [] \<and> net_sent (kern w1) = ''''"
    by (simp add: w1_def w_def net_sys_def net_world_def)
  ultimately show ?thesis
    using Parse_render [OF m(1) p m(2-4) cl(1) _ cl(2) rc [unfolded hd0_def] w1_def, of "[]"]
    unfolding w_def hd0_def cl(3) post_json_def by (auto simp: hs_def path_def parsed_head_def Socket_default_def)
qed

text \<open>A library whose error quotes the bytes it stopped at, and which does not print that error.\<close>

definition latin_env :: "tables env" where
  "latin_env = demo_env\<lparr>env_parse := \<lambda>_. Inl (''last read: '' @ [CHR 0xFF]),
     env_dump := \<lambda>j. if j = code_msg 403 (''last read: '' @ [CHR 0xFF]) then Inl ''316'' else Inr ''{}''\<rparr>"

theorem bad_json_leaks_witness:
  "\<exists>lp types. HttpTask net_sys net_epoll (app_server latin_env 1) (\<lambda>_. False) Map.empty
       [] (0, 0) (net_loop (post_json ''/login'')) Map.empty demo_db = Some (Inr (Threw (JsonExc ''316''), lp, types, demo_db)) \<and>
     (0, 0) \<in> lost (\<lambda>_. {}) (lp\<lparr>thread_pool := set_worker 0 W_lock (thread_pool (net_loop (post_json ''/login'')))\<rparr>, [])"
proof -
  obtain req w where P: "Parse net_sys [] (sockets (net_loop (post_json ''/login'')) (0, 0)) Request_default
      (lp_world (net_loop (post_json ''/login''))) = Inr ((True, req), w)"
    and r: "path req = ''/login''" "req_method req = ''POST''" "req_is_json req"
    using post_json_parsed [of "''/login''"] by (auto simp: net_loop_def)
  have h: "srv_handlers (app_server latin_env 1) (path req) = Some [final (app_login latin_env)]" by (simp add: app_handlers r(1))
  have e: "env_parse latin_env (req_body req) = Inl (''last read: '' @ [CHR 0xFF])"
    "env_dump latin_env (code_msg 403 (''last read: '' @ [CHR 0xFF])) = Inl ''316''"
    by (simp_all add: latin_env_def)
  from bad_json_leaks [OF P h r(2,3) e net_loop_owned net_loop_finish, of net_epoll]
  show ?thesis by blast
qed

theorem route_exchange_witness:
  "\<exists>tok lp types d. HttpTask net_sys net_epoll (app_server (demo_env\<lparr>env_parse := \<lambda>_. Inr (JObj [(''token'', JStr tok)])\<rparr>) 1)
       (\<lambda>_. False) Map.empty [] (0, 0) (net_loop (post_json ''/search_leave_num'')) Map.empty demo_db = Some (Inr (Attached, lp, types, d)) \<and>
     net_sent (kern (lp_world lp)) = MakeHttpHead 2 (fst (reply 200 ''{}'' Map.empty)) @ ''{}''"
proof -
  have u: "ascii ''tom''" "CHR ''|'' \<notin> set ''tom''" by (simp_all add: uchar_def)
  obtain tok where tok: "\<forall>j. jfind ''token'' j = Some (JStr tok) \<longrightarrow> token_user demo_env j = Some ''tom''"
    using demo_token [OF u] by blast
  define env where "env = demo_env\<lparr>env_parse := \<lambda>_. Inr (JObj [(''token'', JStr tok)])\<rparr>"
  define j where "j = JObj [(''token'', JStr tok), (''user'', JStr ''tom'')]"
  obtain req w where P: "Parse net_sys [] (sockets (net_loop (post_json ''/search_leave_num'')) (0, 0)) Request_default
      (lp_world (net_loop (post_json ''/search_leave_num''))) = Inr ((True, req), w)"
    and r: "path req = ''/search_leave_num''" "req_method req = ''POST''" "req_is_json req"
    and k: "net_ready (kern w)" "net_sent (kern w) = ''''"
    using post_json_parsed [of "''/search_leave_num''"] by (auto simp: net_loop_def net_ready_def)
  have "token_user env (JObj [(''token'', JStr tok)]) = Some ''tom''"
    using spec [OF tok, of "JObj [(''token'', JStr tok)]"] by (simp add: env_def token_user_def jfind_def)
  then have a: "authorised env req = Some (''tom'', j)"
    by (simp add: authorised_def r request_json_def env_def jset_def j_def)
  have g: "(path req, \<lambda>_. search_leave_num_prog) \<in> set route_programs" "path req \<noteq> ''/login''"
    by (simp_all add: r route_programs_def)
  define num where "num = HttpException_body (jobject [(''num'', JInt (int 1))])"
  have run: "run_alone (env_call env) (search_leave_num_prog j) demo_db = (Some (HttpExc num), demo_db)"
    by (simp add: env_def search_leave_num_prog_def leave_rows_prog_def j_def the_string_def jat_def get_string_def or_fail_def
        is_teacher_def db_call_def statement_def by_text_def num_def) (simp add: demo_db_def demo_leave_def)
  obtain code body where ans: "answer_of (Some (HttpExc num)) = Some (code, body)" and
    go: "\<forall>tx. env_dump env body = Inr tx \<longrightarrow> length (MakeHttpHead (length tx) (fst (reply code tx Map.empty))) + length tx < 2 ^ 64 \<longrightarrow>
       (\<exists>w1. net_sent (kern w1) = net_sent (kern w) @ MakeHttpHead (length tx) (fst (reply code tx Map.empty)) @ tx \<and>
          HttpTask net_sys net_epoll (app_server env 1) (\<lambda>_. False) Map.empty [] (0, 0) (net_loop (post_json ''/search_leave_num'')) Map.empty demo_db =
            Some (Inr (Attached, (net_loop (post_json ''/search_leave_num''))\<lparr>lp_world := EventPoller_add net_epoll net_poller
              (m_sockfd (sockets (net_loop (post_json ''/search_leave_num'')) (0, 0))) (Sock (0, 0)) sock_events w1\<rparr>,
              snd (reply code tx Map.empty), demo_db)))"
    using route_exchange [OF net.sending_kernel_axioms P k(1) _ g a run, of net_poller "Map.empty" net_epoll 1 "\<lambda>_. False" Map.empty]
    by (auto simp: net_loop_def)
  have code: "code = 200" using ans by (auto simp: answer_of_def num_def HttpException_body_def HttpException_def split: sum.splits)
  have dump: "env_dump env body = Inr ''{}''" by (simp add: env_def)
  have two: "length ''{}'' = 2" by simp
  have "length (MakeHttpHead 2 (fst (reply 200 ''{}'' Map.empty))) < 1000" by code_simp
  then have len: "length (MakeHttpHead (length ''{}'') (fst (reply code ''{}'' Map.empty))) + length ''{}'' < 2 ^ 64"
    unfolding code two by simp
  have ep: "kern (EventPoller_add net_epoll net_poller fd q e v) = kern v" for fd q e v
    by (simp add: EventPoller_add_def ctrl_def net_epoll_def)
  from go [rule_format, OF dump len] obtain w1 where
    "net_sent (kern w1) = MakeHttpHead 2 (fst (reply 200 ''{}'' Map.empty)) @ ''{}''"
    "HttpTask net_sys net_epoll (app_server env 1) (\<lambda>_. False) Map.empty [] (0, 0) (net_loop (post_json ''/search_leave_num'')) Map.empty demo_db =
       Some (Inr (Attached, (net_loop (post_json ''/search_leave_num''))\<lparr>lp_world := EventPoller_add net_epoll net_poller
         (m_sockfd (sockets (net_loop (post_json ''/search_leave_num'')) (0, 0))) (Sock (0, 0)) sock_events w1\<rparr>,
         snd (reply 200 ''{}'' Map.empty), demo_db))"
    unfolding code two k(2) append_Nil by blast
  then show ?thesis unfolding env_def
    by (intro exI [of _ tok] exI [of _ "(net_loop (post_json ''/search_leave_num''))\<lparr>lp_world := EventPoller_add net_epoll net_poller
         (m_sockfd (sockets (net_loop (post_json ''/search_leave_num'')) (0, 0))) (Sock (0, 0)) sock_events w1\<rparr>"]
        exI [of _ "snd (reply 200 ''{}'' Map.empty)"] exI [of _ demo_db]) (simp add: ep)
qed

end
