(* ===== verification/Student_Main.thy ===== *)
theory Student_Main
  imports Student_App
begin

text \<open>
  \<^verbatim>\<open>example/server.cpp\<close>: the program that reads commands and starts and stops the server.  Between
  two commands the server's thread goes on; what it does to the application is the parameter
  \<open>meanwhile\<close>.  At the end of the input \<open>cin\<close> gives an empty word again and again.
\<close>

datatype main_end = Ended "string list" | Undefined cpp_error | Exited int

definition read_word :: "string list \<Rightarrow> string \<times> string list" where
  "read_word inp = (case inp of [] \<Rightarrow> ('''', []) | c # cs \<Rightarrow> (c, cs))"

definition show_status :: "('d, 'k) app \<Rightarrow> string" where
  "show_status a = ''run status: '' @ (if is_start a then ''true'' else ''false'')"

partial_function (option) main_loop :: "'k sys \<Rightarrow> (('d, 'k) app \<times> 'k world \<Rightarrow> ('d, 'k) app \<times> 'k world) \<Rightarrow> string list \<Rightarrow>
    ('d, 'k) app \<times> 'k world \<Rightarrow> string list \<Rightarrow> main_end option" where
  "main_loop os meanwhile inp aw out =
     (let (cmd, inp) = read_word inp; (a, w) = meanwhile aw in
      if cmd = ''exit'' then Some (Ended (out @ [''wait...'']))
      else
        (case (if is_start a \<and> cmd = ''stop'' then App_Stop os a w else Inr (a, w)) of
           Inl e \<Rightarrow> Some (Undefined e)
         | Inr (a, w) \<Rightarrow>
             (let out = (if cmd = ''status'' then out @ [show_status a] else out) in
              case (if \<not> is_start a \<and> cmd = ''start'' then App_Start a w else Some (True, a, w)) of
                None \<Rightarrow> Some (Exited (-1))
              | Some (_, a, w) \<Rightarrow> main_loop os meanwhile inp (a, w) out)))"

definition main :: "'d sqlite_api \<Rightarrow> 'd world env \<Rightarrow> 'k sys \<Rightarrow>
    (('d world, 'k) app \<times> 'k world \<Rightarrow> ('d world, 'k) app \<times> 'k world) \<Rightarrow> string list \<Rightarrow> 'd world \<Rightarrow> 'k world \<Rightarrow> main_end option" where
  "main api env os meanwhile inp dw w =
     (case App_Init api env 7777 ''calabash.db'' App_new dw of
        None \<Rightarrow> Some (Exited (-1))
      | Some (a, dw) \<Rightarrow>
          (case App_Start a w of
             None \<Rightarrow> Some (Exited (-1))
           | Some (_, a, w) \<Rightarrow> main_loop os meanwhile inp (a, w) []))"

lemma read_word_exit: "''exit'' \<in> set inp \<Longrightarrow> read_word inp = (c, cs) \<Longrightarrow> c = ''exit'' \<or> ''exit'' \<in> set cs \<and> length cs < length inp"
  by (auto simp: read_word_def split: list.splits)

lemma main_loop_ends: "''exit'' \<in> set inp \<Longrightarrow> \<exists>r. main_loop os meanwhile inp aw out = Some r"
proof (induction "length inp" arbitrary: inp aw out rule: less_induct)
  case less
  obtain c cs where c: "read_word inp = (c, cs)" by force
  obtain a w where a: "meanwhile aw = (a, w)" by force
  show ?case
  proof (cases "c = ''exit''")
    case True
    then show ?thesis by (subst main_loop.simps) (simp add: c a)
  next
    case False
    then have "\<exists>r. main_loop os meanwhile cs aw out = Some r" for aw out
      using less read_word_exit [OF less.prems c] by blast
    then show ?thesis
      using False by (subst main_loop.simps) (auto simp: c a Let_def split: sum.splits prod.splits option.splits)
  qed
qed

lemma main_loop_needs_exit:
  assumes "main_loop os meanwhile inp aw out = Some r"
  shows "(\<exists>out'. r = Ended out') \<longrightarrow> ''exit'' \<in> set inp"
  using assms
proof (induct rule: main_loop.raw_induct [where P = "\<lambda>os meanwhile inp aw out r. (\<exists>out'. r = Ended out') \<longrightarrow> ''exit'' \<in> set inp",
      rotated, consumes 1])
  case (1 main_loop os meanwhile inp aw out r)
  obtain c cs where c: "read_word inp = (c, cs)" by force
  obtain a w where a: "meanwhile aw = (a, w)" by force
  have r: "set cs \<subseteq> set inp" "c = ''exit'' \<Longrightarrow> ''exit'' \<in> set inp"
    using c by (auto simp: read_word_def split: list.splits)
  from 1(2) show ?case
    using 1(1) r by (auto simp: c a Let_def split: if_splits sum.splits prod.splits option.splits)
qed

lemma main_loop_spins:
  assumes "main_loop os meanwhile inp aw out = Some r"
  shows "(\<forall>x. is_init (fst (meanwhile x)) = is_init (fst x)) \<longrightarrow> is_init (fst aw) \<longrightarrow> ''exit'' \<in> set inp \<or> ''stop'' \<in> set inp"
  using assms
proof (induct rule: main_loop.raw_induct [where
      P = "\<lambda>os meanwhile inp aw out r. (\<forall>x. is_init (fst (meanwhile x)) = is_init (fst x)) \<longrightarrow> is_init (fst aw) \<longrightarrow>
        ''exit'' \<in> set inp \<or> ''stop'' \<in> set inp",
      rotated, consumes 1])
  case (1 main_loop os meanwhile inp aw out r)
  obtain c cs where c: "read_word inp = (c, cs)" by force
  obtain a w where a: "meanwhile aw = (a, w)" by force
  have r: "set cs \<subseteq> set inp" "c \<noteq> '''' \<Longrightarrow> c \<in> set inp"
    using c by (auto simp: read_word_def split: list.splits)
  show ?case
  proof (intro impI)
    assume keep: "\<forall>x. is_init (fst (meanwhile x)) = is_init (fst x)" and init: "is_init (fst aw)"
    then have ia: "is_init a" using a by (metis fst_conv)
    consider "c = ''exit''" | "c = ''stop''" | "c \<noteq> ''exit''" "c \<noteq> ''stop''" by blast
    then show "''exit'' \<in> set inp \<or> ''stop'' \<in> set inp"
    proof cases
      case 3
      define a1 where "a1 = (if \<not> is_start a \<and> c = ''start'' then a\<lparr>is_start := True\<rparr> else a)"
      define out1 where "out1 = (if c = ''status'' then out @ [show_status a] else out)"
      have start: "(if \<not> is_start a \<and> c = ''start'' then App_Start a w else Some (True, a, w)) = Some (True, a1, w)"
        using ia by (simp add: App_Start_def a1_def)
      have "main_loop os meanwhile cs (a1, w) out1 = Some r"
        using 1(2) 3 start by (simp add: c a Let_def flip: out1_def)
      moreover have "is_init a1" using ia by (simp add: a1_def)
      ultimately show ?thesis using 1(1) [of os meanwhile cs "(a1, w)" out1 r] keep r(1) by auto
    qed (use r(2) in auto)
  qed
qed



end
