(* ===== verification/Spec2Isabelle.thy ===== *)
theory Spec2Isabelle
  imports Base64 MD5_Tests Test_Codec Console Client_Socket Http_Task Student_Exchange Student_Main
begin

text \<open>
  \<^bold>\<open>Calabash\<close>: a small C++ web server (an epoll loop, a thread pool, a request parser, responses and
  chains of handlers), its utilities (Base64, MD5, URL coding, a logger, tokens, a wrapper of SQLite)
  and the application built on it, the leave management of a school.

  \<^bold>\<open>How the parts work together.\<close>  \<open>main\<close> (\<open>example/server.cpp\<close>) initialises \<open>StudentMangeServer\<close>: it
  opens the database, compiles the statements, and binds the handlers of the routes to a \<open>Server\<close>.
  \<open>Server::Start\<close> creates the \<open>ThreadPool\<close> and the \<open>SocketHandler\<close> and stays in its loop: a new
  connection takes a \<open>Socket\<close> object out of the \<open>ObjectPool\<close>, which is armed in the epoll instance
  (\<open>EventPoller\<close>, one shot); when it is readable it is disarmed and given to a worker as an \<open>HttpTask\<close>.
  The task parses the request (\<open>RequestMaker\<close>), lets \<open>Server::Handle\<close> run the chain of the path
  (process handlers, then handlers of the path) or send a static file, writes head and body through a
  \<open>DataReader\<close>, and arms the socket again; every branch logs through \<open>Logger\<close>.

  \<^bold>\<open>Theories.\<close>  A definition has the name of its C++ function, a class is a record with the fields as
  they are declared, a method gets and returns the object.

    \<^item> \<open>Prelude\<close>: the errors (undefined behaviour apart from exceptions), the result monad, bytes with the
      signed \<open>char\<close> of the target, and the interfaces \<open>codec\<close>, \<open>codec_pair\<close> and \<open>kv_store\<close>.
    \<^item> \<open>Decimal\<close>: numbers as text and doubles as far as they are converted.
    \<^item> \<open>Base64\<close> (\<open>src/util/base64.cpp\<close>): both directions; RFC 4648 on bytes below 128, undefined on others.
    \<^item> \<open>MD5\<close>, \<open>MD5_Spec\<close> (\<open>src/util/md5.cpp\<close>): the class on 32-bit words, and RFC 1321 over bytes, which it
      refines on messages of bytes below 128; \<open>MD5_Tests\<close>: the vectors of \<open>test/util/md5_test.cpp\<close>.
    \<^item> \<open>Url\<close>, \<open>Request\<close>, \<open>Request_Maker\<close>, \<open>Request_Parse\<close> (\<open>src/web/request*.cpp\<close>): URL coding and the parser on
      positions in the receive buffer, where a read outside is an error; what it recovers, and the shapes on
      which it reads outside, refuses or throws.
    \<^item> \<open>Logger\<close>, \<open>Socket\<close>, \<open>Data_Reader\<close>, \<open>Response\<close> (\<open>src/util\<close>, \<open>src/socket\<close>, \<open>src/web/response.cpp\<close>): files,
      system calls over a kernel state \<open>'k\<close> (a parameter), the delivery of head and body; the interface
      \<open>sink\<close> and its instance \<open>sending_kernel\<close> say what a connection that stays up does.
    \<^item> \<open>Server\<close> (\<open>src/web/server.cpp\<close>, \<open>exception.cpp\<close>): configuration, binding, \<open>Handle\<close>.  A handler is the
      tree of its calls of \<open>next\<close>, so that handlers that call it twice or catch what it throws are covered.
    \<^item> \<open>Object_Pool\<close>, \<open>Thread_Pool\<close>, \<open>Event_Loop\<close>, \<open>Ownership\<close> (\<open>object_pool.h\<close>, \<open>thread_pool.cpp\<close>,
      \<open>event_poller.cpp\<close>, \<open>socket_handler.cpp\<close>): the sequential operations, the interleavings of workers and
      destructor (\<open>tp_step\<close>) and of loop and workers (\<open>loop_step\<close>), and their invariants.
    \<^item> \<open>Http_Task\<close> (\<open>http_task.cpp\<close>, \<open>Server::Start\<close>, \<open>Server::Stop\<close>): the task, the exchange as a whole.
    \<^item> \<open>Token\<close> (\<open>src/util/token.cpp\<close>), \<open>Sqlite\<close> (\<open>src/database/sqlite3.cpp\<close>), \<open>Json\<close>: on top of Base64 and MD5; the
      wrapper over the calls of the library (a parameter, interface \<open>sql_engine\<close>); the JSON operations used.
      \<open>Test_Codec\<close> (\<open>test.cpp\<close>): the cipher of the tokens by itself.
    \<^item> \<open>Student_App\<close> (\<open>example/app\<close>): the status word, all handlers, the routes, tables and statements, \<open>Init\<close>,
      \<open>Start\<close>, \<open>Stop\<close>.  The database, clock, time zone, JSON parser and printer form the record \<open>env\<close>.
    \<^item> \<open>Student_Route\<close>: the chain every request goes through, composed with \<open>Handle\<close>; the guard by tokens.
    \<^item> \<open>Student_Spec\<close>: the life of a leave as an inductive step relation; every request on the whole server
      refines it (interface \<open>leave_table\<close>: what the handlers rely on in the statements).
    \<^item> \<open>Student_Search\<close>: pages, and the types of the inputs (interface \<open>typed_tables\<close>).
    \<^item> \<open>Student_Db\<close>: a reference meaning of the compiled statements on tables in memory, for which both
      interfaces hold, and the witnesses.
    \<^item> \<open>Student_Race\<close>, \<open>Student_Programs\<close>: the handlers as programs of accesses to the database, equal to
      the handlers when they run alone; two approvals interleaved, any number of requests under any schedule.
    \<^item> \<open>Sqlite_Race\<close>: \<open>CallCompiledSQL\<close> as its single calls of the library, and two calls of one statement.
    \<^item> \<open>Student_Login\<close>: two logins at the same time, from the handler down to the calls of the library.
    \<^item> \<open>Student_Exchange\<close>: a request to the application from the socket to the database and back.
    \<^item> \<open>Console\<close> (\<open>logger.h\<close>): sizes, assertion, printing; \<open>Client_Socket\<close> (\<open>ClientSocket.cpp\<close>).
    \<^item> \<open>Student_Main\<close> (\<open>example/server.cpp\<close>): the command loop.

  \<^bold>\<open>Groups of lemmas.\<close>  Codecs and parsers: round trips and the exact domain of definedness.  Resources:
  sockets have one owner at every interleaving, objects one user, tasks run once in order, the pool
  shuts down, no wake-up is lost.  Handlers: order, termination, what exceptions do.  Application: the
  guard, the life of a leave over any sequence of requests, what is left of it when requests interleave,
  the exact effect of an approval, type safety of the inputs, the bytes a request is answered with.  The theorems about errors state, for the places where the code does not do what
  it means to, exactly what it does.

  \<^bold>\<open>Loops and bounds.\<close>  Loops that end are recursive functions with a termination proof; those that may not
  (sending, reading a file, the event loop, the chain of handlers, stepping a statement, the command
  loop) are \<open>partial_function\<close>s, where \<open>None\<close> is not returning, and their termination or its failure is
  a theorem; no fuel is used.  Integers are words where they wrap, and \<open>int\<close> with an explicit range check
  where overflow is undefined.  The state of C++ objects is exact up to the address of memory.

  \<^bold>\<open>What is assumed of the outside.\<close>  The hypotheses on parameters are documented behaviour: of \<open>send\<close> on a
  connection that stays up, of a one-shot epoll instance (\<open>epoll_kernel\<close>), of SQLite's stepping and
  binding (\<open>sql_engine\<close>), of the statements on their tables.  Each has an instance in this development.

  \<^bold>\<open>Granularity.\<close>  In \<open>Handle\<close> a handler of the application is one step; in \<open>Student_Programs\<close> a step is one
  call of a statement, and in \<open>Sqlite_Race\<close> one call of the library, the reading of a row together with
  the step that gave it.  Each finer model is proved equal to the coarser one for a request that runs
  alone, so what differs is the interleaving and nothing else.

  \<^bold>\<open>Not modelled.\<close>  The vendored libraries, the tests other than those named above, and the future returned by \<open>Enqueue\<close>, which nobody
  reads; the lines of the headers that only declare.  \<open>ClientSocket.cpp\<close> is modelled as it is written,
  although no target builds it and the \<open>error\<close> it calls is not in the repository.
\<close>

end
